(* ===== verification/Prelude.thy ===== *)
theory Prelude
  imports Main "HOL-Library.AList" "HOL-Library.Word"
begin

text \<open>
  Shared base of the development.

  \<^item> \<open>outcome\<close>: what a Go call does: it returns a value, it blocks for ever on a lock that
    nobody is going to release, or it panics. A stateful operation has a result of type
    \<open>'a outcome \<times> 's\<close>: the state is kept also when the call blocks or panics, because a lock
    that was taken before stays taken.
  \<^item> \<open>rwmutex\<close>: the state of a \<open>sync.RWMutex\<close> (and of a \<open>sync.Mutex\<close>, which uses the writer
    side only).
  \<^item> the functions of package \<open>strings\<close> that the sources call. A Go string is a sequence of
    bytes, as is a HOL \<open>string\<close>.
  \<^item> Go maps as association lists with distinct keys (\<open>AList.update\<close>, \<open>AList.delete\<close>).
  \<^item> the collections \<open>go_simps\<close> (unfolding of the model's definitions) and \<open>inv_intros\<close>
    (preservation of invariants) that the component theories fill.
\<close>

named_theorems go_simps "defining equations of the model"
named_theorems inv_intros "preservation of well-formedness by the operations"

section \<open>Outcomes\<close>

datatype 'a outcome = Ret 'a | Blocked | Panic string

definition bind_out ::
  "'a outcome \<times> 's \<Rightarrow> ('a \<Rightarrow> 's \<Rightarrow> 'b outcome \<times> 's) \<Rightarrow> 'b outcome \<times> 's" where
  "bind_out r f =
     (case r of (Ret a, s) \<Rightarrow> f a s | (Blocked, s) \<Rightarrow> (Blocked, s) | (Panic e, s) \<Rightarrow> (Panic e, s))"

lemma bind_out_simps [simp]:
  "bind_out (Ret a, s) f = f a s"
  "bind_out (Blocked, s) f = (Blocked, s)"
  "bind_out (Panic e, s) f = (Panic e, s)"
  by (simp_all add: bind_out_def)

lemma bind_out_Ret_iff:
  "bind_out r f = (Ret b, t) \<longleftrightarrow> (\<exists>a s. r = (Ret a, s) \<and> f a s = (Ret b, t))"
  by (cases r; cases "fst r") (auto simp: bind_out_def)

lemma bind_out_assoc:
  "bind_out (bind_out r f) g = bind_out r (\<lambda>a s. bind_out (f a s) g)"
  by (cases r; cases "fst r") (auto simp: bind_out_def)

definition returns :: "'a outcome \<times> 's \<Rightarrow> bool" where
  "returns r = (case fst r of Ret _ \<Rightarrow> True | _ \<Rightarrow> False)"

lemma returns_simps [simp]:
  "returns (Ret a, s)" "\<not> returns (Blocked, s)" "\<not> returns (Panic e, s)"
  by (simp_all add: returns_def)

section \<open>Locks\<close>

datatype rwmutex = Unlocked | RLocked nat | WLocked

text \<open>
  Each locking function returns \<open>None\<close> where the caller has to wait. The operations of the
  model run one at a time, so a lock found taken is one that an earlier call never released,
  and waiting for it never ends.
\<close>

fun mu_Lock :: "rwmutex \<Rightarrow> rwmutex option" where
  "mu_Lock Unlocked = Some WLocked"
| "mu_Lock _ = None"

fun mu_Unlock :: "rwmutex \<Rightarrow> rwmutex" where
  "mu_Unlock WLocked = Unlocked"
| "mu_Unlock m = m"

fun mu_RLock :: "rwmutex \<Rightarrow> rwmutex option" where
  "mu_RLock Unlocked = Some (RLocked 1)"
| "mu_RLock (RLocked n) = Some (RLocked (Suc n))"
| "mu_RLock WLocked = None"

fun mu_RUnlock :: "rwmutex \<Rightarrow> rwmutex" where
  "mu_RUnlock (RLocked n) = (if n \<le> 1 then Unlocked else RLocked (n - 1))"
| "mu_RUnlock m = m"

lemma mu_Lock_Some_iff [simp]: "mu_Lock m = Some m' \<longleftrightarrow> m = Unlocked \<and> m' = WLocked"
  by (cases m) auto

lemma mu_Lock_None_iff [simp]: "mu_Lock m = None \<longleftrightarrow> m \<noteq> Unlocked"
  by (cases m) auto

section \<open>Package strings\<close>

fun IndexByte :: "string \<Rightarrow> char \<Rightarrow> int" where
  "IndexByte [] c = -1"
| "IndexByte (x # xs) c =
     (if x = c then 0 else (let i = IndexByte xs c in if i = -1 then -1 else i + 1))"

fun LastIndexByte :: "string \<Rightarrow> char \<Rightarrow> int" where
  "LastIndexByte [] c = -1"
| "LastIndexByte (x # xs) c =
     (let i = LastIndexByte xs c in if i \<noteq> -1 then i + 1 else if x = c then 0 else -1)"

definition CountByte :: "string \<Rightarrow> char \<Rightarrow> nat" where
  "CountByte s c = length (filter (\<lambda>x. x = c) s)"

text \<open>\<open>strings.Replace(s, old, new, 1)\<close>: the first occurrence of \<open>old\<close>, read from the left.\<close>

fun Replace1 :: "string \<Rightarrow> string \<Rightarrow> string \<Rightarrow> string" where
  "Replace1 s old new =
     (if take (length old) s = old then new @ drop (length old) s
      else (case s of [] \<Rightarrow> [] | x # xs \<Rightarrow> x # Replace1 xs old new))"

declare Replace1.simps [simp del]

lemma Replace1_prefix: "n \<le> length s \<Longrightarrow> Replace1 s (take n s) new = new @ drop n s"
  by (subst Replace1.simps) simp

lemma IndexByte_cases:
  "(IndexByte s c = -1 \<and> c \<notin> set s) \<or>
   (0 \<le> IndexByte s c \<and> nat (IndexByte s c) < length s \<and> s ! nat (IndexByte s c) = c
     \<and> c \<notin> set (take (nat (IndexByte s c)) s))"
proof (induction s)
  case (Cons x xs)
  then show ?case
    by (auto simp: Let_def nat_add_distrib)
qed simp

lemma LastIndexByte_cases:
  "(LastIndexByte s c = -1 \<and> c \<notin> set s) \<or>
   (0 \<le> LastIndexByte s c \<and> nat (LastIndexByte s c) < length s \<and> s ! nat (LastIndexByte s c) = c
     \<and> c \<notin> set (drop (Suc (nat (LastIndexByte s c))) s))"
proof (induction s)
  case (Cons x xs)
  then show ?case
    by (auto simp: Let_def nat_add_distrib)
qed simp

lemma LastIndexByte_ge: "-1 \<le> LastIndexByte s c"
  using LastIndexByte_cases [of s c] by auto

lemma LastIndexByte_split:
  assumes "0 \<le> LastIndexByte s c"
  obtains u v where "s = u @ c # v" "c \<notin> set v" "LastIndexByte s c = int (length u)"
proof -
  define i where "i = nat (LastIndexByte s c)"
  have "i < length s" "s ! i = c" "c \<notin> set (drop (Suc i) s)" "LastIndexByte s c = int i"
    using LastIndexByte_cases [of s c] assms by (auto simp: i_def)
  then show ?thesis
    using that [of "take i s" "drop (Suc i) s"] id_take_nth_drop [of i s] by auto
qed

lemma LastIndexByte_append: "c \<notin> set v \<Longrightarrow> LastIndexByte (u @ c # v) c = int (length u)"
proof (induction u)
  case Nil
  then show ?case using LastIndexByte_cases [of v c] by (auto dest: nth_mem)
qed (auto simp: Let_def)

section \<open>Slices of arrays\<close>

lemma take_write: "n < length xs \<Longrightarrow> take (Suc n) (xs[n := y]) = take n xs @ [y]"
  by (simp add: take_Suc_conv_app_nth)

lemma take_shift_left:
  assumes "i < n" "n \<le> length xs"
  shows "take (n - 1) (take i xs @ take (n - (i + 1)) (drop (i + 1) xs) @ zs) =
           take i xs @ drop (Suc i) (take n xs)"
    and "n - 1 \<le> length (take i xs @ take (n - (i + 1)) (drop (i + 1) xs) @ zs)"
proof -
  let ?A = "take i xs @ take (n - (i + 1)) (drop (i + 1) xs)"
  have l: "length ?A = n - 1" using assms by (simp add: min_def) arith
  then have "take (n - 1) (?A @ zs) = ?A" by (metis append_eq_conv_conj)
  then show "take (n - 1) (take i xs @ take (n - (i + 1)) (drop (i + 1) xs) @ zs) =
      take i xs @ drop (Suc i) (take n xs)"
    by (simp add: drop_take)
  from l have "n - 1 \<le> length (?A @ zs)" by simp
  then show "n - 1 \<le> length (take i xs @ take (n - (i + 1)) (drop (i + 1) xs) @ zs)" by simp
qed

section \<open>Go maps as association lists\<close>

text \<open>A Go map is represented by an association list in which no key occurs twice.\<close>

definition wf_map :: "('k \<times> 'v) list \<Rightarrow> bool" where
  "wf_map m = distinct (map fst m)"

lemma wf_map_Nil [simp]: "wf_map []"
  by (simp add: wf_map_def)

lemma wf_map_update [inv_intros, simp]: "wf_map m \<Longrightarrow> wf_map (AList.update k v m)"
  by (simp add: wf_map_def distinct_update)

lemma wf_map_delete [inv_intros, simp]: "wf_map m \<Longrightarrow> wf_map (AList.delete k m)"
  by (simp add: wf_map_def distinct_delete)

lemma wf_map_filter [inv_intros, simp]: "wf_map m \<Longrightarrow> wf_map (filter P m)"
  unfolding wf_map_def by (rule distinct_map_filter)

lemma wf_map_map_snd [inv_intros, simp]:
  "wf_map m \<Longrightarrow> wf_map (map (\<lambda>(k, v). (k, f v)) m)"
  by (simp add: wf_map_def case_prod_beta comp_def)

lemma set_alist_update: "set (AList.update k v m) \<subseteq> insert (k, v) (set m)"
  by (induction m) auto

lemma map_of_update: "map_of (AList.update k v m) = (map_of m)(k \<mapsto> v)"
  by (simp add: update_conv')

lemma map_of_delete: "map_of (AList.delete k m) = (map_of m)(k := None)"
  by (simp add: delete_conv')

lemma map_of_filter_snd:
  "wf_map m \<Longrightarrow> map_of (filter (\<lambda>(k, v). P v) m) k = Option.bind (map_of m k) (\<lambda>v. if P v then Some v else None)"
  by (induction m) (auto simp: wf_map_def split: bind_splits dest: map_of_SomeD,
    (force dest: map_of_SomeD)+)

lemma wf_map_map_of_iff: "wf_map m \<Longrightarrow> map_of m k = Some v \<longleftrightarrow> (k, v) \<in> set m"
  by (simp add: wf_map_def map_of_eq_Some_iff)

end
