(* ===== verification/GoValues.thy ===== *)
theory GoValues
  imports Prelude
begin

text \<open>
  The values an \<open>interface{}\<close> can hold in a session and the memory that the reference kinds
  point into. Scalars are immediate. A pointer points to a variable, a slice is a window
  (array, offset, length, capacity) on a backing array, a map refers to a map object; the nil
  pointer, slice and map have no address. Floating-point values are their IEEE bit patterns.
  Kinds that the session code does not look into (structs, functions, channels) are \<open>VOther\<close>.

  \<open>mem_alloc\<close> never reuses an address, so what was written before stays readable. The write
  operations \<open>slice_set\<close>, \<open>map_set\<close> and \<open>ptr_set\<close> are the assignments \<open>s[i] = x\<close>, \<open>m[k] = x\<close>
  and \<open>*p = x\<close> that a caller can make through a value it was given.
\<close>

datatype elem_kind = KIface | KString | KInt | KInt64 | KBool | KOther

datatype val =
    VNil
  | VString string
  | VInt "64 word"
  | VInt64 "64 word"
  | VFloat32 "32 word"
  | VFloat64 "64 word"
  | VBool bool
  | VPtr "nat option"
  | VSlice elem_kind "nat option" nat nat nat
  | VMap "nat option"
  | VOther nat

datatype cell = CVar val | CArr "val list" | CMap "(val \<times> val) list"

type_synonym mem = "cell list"

fun zero_val :: "elem_kind \<Rightarrow> val" where
  "zero_val KIface = VNil"
| "zero_val KString = VString []"
| "zero_val KInt = VInt 0"
| "zero_val KInt64 = VInt64 0"
| "zero_val KBool = VBool False"
| "zero_val KOther = VOther 0"

definition mem_alloc :: "cell \<Rightarrow> mem \<Rightarrow> nat \<times> mem" where
  "mem_alloc c m = (length m, m @ [c])"

definition mem_arr :: "mem \<Rightarrow> nat option \<Rightarrow> val list" where
  "mem_arr m a =
     (case a of None \<Rightarrow> []
      | Some i \<Rightarrow> if i < length m then (case m ! i of CArr xs \<Rightarrow> xs | _ \<Rightarrow> []) else [])"

definition mem_map :: "mem \<Rightarrow> nat option \<Rightarrow> (val \<times> val) list" where
  "mem_map m a =
     (case a of None \<Rightarrow> []
      | Some i \<Rightarrow> if i < length m then (case m ! i of CMap xs \<Rightarrow> xs | _ \<Rightarrow> []) else [])"

text \<open>The elements of a slice and the pairs of a map, as the program reads them.\<close>

fun slice_elems :: "mem \<Rightarrow> val \<Rightarrow> val list" where
  "slice_elems m (VSlice k a off n c) = take n (drop off (mem_arr m a))"
| "slice_elems m v = []"

fun map_pairs :: "mem \<Rightarrow> val \<Rightarrow> (val \<times> val) list" where
  "map_pairs m (VMap a) = mem_map m a"
| "map_pairs m v = []"

fun slice_set :: "mem \<Rightarrow> val \<Rightarrow> nat \<Rightarrow> val \<Rightarrow> mem" where
  "slice_set m (VSlice k (Some a) off n c) i x =
     (if i < n then m[a := CArr ((mem_arr m (Some a))[off + i := x])] else m)"
| "slice_set m v i x = m"

fun map_set :: "mem \<Rightarrow> val \<Rightarrow> val \<Rightarrow> val \<Rightarrow> mem" where
  "map_set m (VMap (Some a)) k x = m[a := CMap (AList.update k x (mem_map m (Some a)))]"
| "map_set m v k x = m"

fun ptr_set :: "mem \<Rightarrow> val \<Rightarrow> val \<Rightarrow> mem" where
  "ptr_set m (VPtr (Some a)) x = m[a := CVar x]"
| "ptr_set m v x = m"

text \<open>\<open>reflect.Indirect(reflect.ValueOf(v))\<close>; \<open>None\<close> is the zero \<open>reflect.Value\<close>.\<close>

fun reflect_Indirect :: "val \<Rightarrow> mem \<Rightarrow> val option" where
  "reflect_Indirect VNil m = None"
| "reflect_Indirect (VPtr None) m = None"
| "reflect_Indirect (VPtr (Some a)) m =
     (if a < length m then (case m ! a of CVar x \<Rightarrow> Some x | _ \<Rightarrow> None) else None)"
| "reflect_Indirect v m = Some v"

text \<open>
  The value fits the memory: its address exists, holds a cell of its kind, and the window of
  a slice lies inside the backing array.
\<close>

fun wf_val :: "mem \<Rightarrow> val \<Rightarrow> bool" where
  "wf_val m (VSlice k a off n c) =
     (n \<le> c \<and> off + c \<le> length (mem_arr m a) \<and>
      (case a of None \<Rightarrow> True | Some i \<Rightarrow> i < length m \<and> (\<exists>xs. m ! i = CArr xs)))"
| "wf_val m (VMap a) = (case a of None \<Rightarrow> True | Some i \<Rightarrow> i < length m \<and> (\<exists>xs. m ! i = CMap xs))"
| "wf_val m (VPtr a) = (case a of None \<Rightarrow> True | Some i \<Rightarrow> i < length m \<and> (\<exists>x. m ! i = CVar x))"
| "wf_val m v = True"

section \<open>Allocation and writes\<close>

lemma mem_arr_append [simp]: "a < length m \<Longrightarrow> mem_arr (m @ cs) (Some a) = mem_arr m (Some a)"
  by (simp add: mem_arr_def nth_append)

lemma mem_map_append [simp]: "a < length m \<Longrightarrow> mem_map (m @ cs) (Some a) = mem_map m (Some a)"
  by (simp add: mem_map_def nth_append)

lemma mem_arr_None [simp]: "mem_arr m None = []"
  by (simp add: mem_arr_def)

lemma mem_map_None [simp]: "mem_map m None = []"
  by (simp add: mem_map_def)

lemma mem_arr_new [simp]: "mem_arr (m @ [CArr xs]) (Some (length m)) = xs"
  by (simp add: mem_arr_def)

lemma mem_map_new [simp]: "mem_map (m @ [CMap xs]) (Some (length m)) = xs"
  by (simp add: mem_map_def)

lemma mem_arr_update_other [simp]: "a \<noteq> b \<Longrightarrow> mem_arr (m[b := c]) (Some a) = mem_arr m (Some a)"
  by (simp add: mem_arr_def)

lemma mem_map_update_other [simp]: "a \<noteq> b \<Longrightarrow> mem_map (m[b := c]) (Some a) = mem_map m (Some a)"
  by (simp add: mem_map_def)

lemma mem_arr_update_same [simp]: "a < length m \<Longrightarrow> mem_arr (m[a := CArr xs]) (Some a) = xs"
  by (simp add: mem_arr_def)

lemma mem_map_update_same [simp]: "a < length m \<Longrightarrow> mem_map (m[a := CMap xs]) (Some a) = xs"
  by (simp add: mem_map_def)

lemma wf_val_append: "wf_val m v \<Longrightarrow> wf_val (m @ cs) v"
  by (cases v) (auto simp: nth_append split: option.splits)

lemma slice_elems_append: "wf_val m v \<Longrightarrow> slice_elems (m @ cs) v = slice_elems m v"
  by (cases v) (auto split: option.splits)

lemma map_pairs_append: "wf_val m v \<Longrightarrow> map_pairs (m @ cs) v = map_pairs m v"
  by (cases v) (auto split: option.splits)

lemma map_pairs_append_Some [simp]:
  "a < length m \<Longrightarrow> map_pairs (m @ cs) (VMap (Some a)) = map_pairs m (VMap (Some a))"
  by simp

lemma reflect_Indirect_append: "wf_val m v \<Longrightarrow> reflect_Indirect v (m @ cs) = reflect_Indirect v m"
  by (cases "(v, m)" rule: reflect_Indirect.cases) (auto simp: nth_append)

section \<open>What a caller can change through a value\<close>

definition contents :: "mem \<Rightarrow> val \<Rightarrow> val list \<times> (val \<times> val) list" where
  "contents m v = (slice_elems m v, map_pairs m v)"

fun caller_write :: "val \<Rightarrow> (nat \<times> val) + (val \<times> val) \<Rightarrow> mem \<Rightarrow> mem" where
  "caller_write v (Inl (i, x)) m = slice_set m v i x"
| "caller_write v (Inr (k, x)) m = map_set m v k x"

definition caller_writes :: "val \<Rightarrow> ((nat \<times> val) + (val \<times> val)) list \<Rightarrow> mem \<Rightarrow> mem" where
  "caller_writes v ws m = fold (caller_write v) ws m"

fun val_addr :: "val \<Rightarrow> nat option" where
  "val_addr (VSlice k a off n c) = a"
| "val_addr (VMap a) = a"
| "val_addr (VPtr a) = a"
| "val_addr v = None"

text \<open>\<open>m2\<close> still has every cell of \<open>m\<close>.\<close>

definition extends :: "mem \<Rightarrow> mem \<Rightarrow> bool" where
  "extends m m2 = (length m \<le> length m2 \<and> (\<forall>i < length m. m2 ! i = m ! i))"

lemma extends_refl [simp]: "extends m m"
  by (simp add: extends_def)

lemma extends_append [simp]: "extends m (m @ cs)"
  by (simp add: extends_def nth_append)

lemma extends_trans: "extends a b \<Longrightarrow> extends b c \<Longrightarrow> extends a c"
  by (auto simp: extends_def)

lemma extends_split: "extends m m2 \<Longrightarrow> \<exists>cs. m2 = m @ cs"
  by (rule exI [of _ "drop (length m) m2"])
    (auto simp: extends_def intro!: nth_equalityI simp: nth_append)

lemma extends_contents: "extends m m2 \<Longrightarrow> wf_val m v \<Longrightarrow> contents m2 v = contents m v"
  by (auto dest!: extends_split simp: contents_def slice_elems_append map_pairs_append)

lemma extends_Indirect:
  "extends m m2 \<Longrightarrow> wf_val m v \<Longrightarrow> reflect_Indirect v m2 = reflect_Indirect v m"
  by (auto dest!: extends_split simp: reflect_Indirect_append)

lemma extends_wf_val: "extends m m2 \<Longrightarrow> wf_val m v \<Longrightarrow> wf_val m2 v"
  by (auto dest!: extends_split simp: wf_val_append)

lemma caller_write_extends:
  assumes "extends m m2" "val_addr v = Some b" "length m \<le> b"
  shows "extends m (caller_write v w m2)"
  using assms
  by (cases "(v, w, m2)" rule: caller_write.cases; cases v)
    (auto simp: extends_def nth_list_update)

lemma caller_writes_extends:
  "extends m m2 \<Longrightarrow> val_addr v = Some b \<Longrightarrow> length m \<le> b \<Longrightarrow> extends m (caller_writes v ws m2)"
  unfolding caller_writes_def
  by (induction ws arbitrary: m2) (auto intro: caller_write_extends)

end
