(* ===== verification/GoStrconv.thy ===== *)
theory GoStrconv
  imports Prelude
begin

text \<open>
  The part of package \<open>strconv\<close> that the getters and the cookie-domain check call:
  \<open>ParseUint\<close>, \<open>ParseInt\<close> and \<open>Atoi\<close> for base 10 and 64 bits, with the wrap-around checks of
  the library written on machine words, and \<open>ParseBool\<close>. A Go function that returns a value
  and an error is a pair; \<open>None\<close> is the nil error. The lemmas relate the word loop to the
  decimal value of the digits.
\<close>

type_synonym int64 = "64 word"

datatype strconv_error = ErrSyntax | ErrRange

definition digit_of :: "char \<Rightarrow> nat option" where
  "digit_of c = (let n = of_char c in if 48 \<le> n \<and> n \<le> (57::nat) then Some (n - 48) else None)"

definition max_uint64 :: int64 where
  "max_uint64 = - 1"

definition uint_cutoff :: int64 where
  "uint_cutoff = 1844674407370955162"

fun ParseUint_loop :: "string \<Rightarrow> int64 \<Rightarrow> int64 \<times> strconv_error option" where
  "ParseUint_loop [] n = (n, None)"
| "ParseUint_loop (c # cs) n =
     (case digit_of c of
        None \<Rightarrow> (0, Some ErrSyntax)
      | Some v \<Rightarrow>
          if uint_cutoff \<le> n then (max_uint64, Some ErrRange)
          else let n10 = n * 10; n1 = n10 + of_nat v
               in if n1 < n10 \<or> max_uint64 < n1 then (max_uint64, Some ErrRange)
                  else ParseUint_loop cs n1)"

definition ParseUint :: "string \<Rightarrow> int64 \<times> strconv_error option" where
  "ParseUint s = (if s = [] then (0, Some ErrSyntax) else ParseUint_loop s 0)"

definition int_cutoff :: int64 where
  "int_cutoff = 2 ^ 63"

definition ParseInt :: "string \<Rightarrow> int64 \<times> strconv_error option" where
  "ParseInt s0 =
     (if s0 = [] then (0, Some ErrSyntax)
      else
        let neg = (hd s0 = CHR ''-'');
            s = (if hd s0 = CHR ''+'' \<or> hd s0 = CHR ''-'' then tl s0 else s0);
            (un, err) = ParseUint s
        in if err = Some ErrSyntax then (0, err)
           else if \<not> neg \<and> int_cutoff \<le> un then (int_cutoff - 1, Some ErrRange)
           else if neg \<and> int_cutoff < un then (- int_cutoff, Some ErrRange)
           else ((if neg then - un else un), None))"

definition Atoi :: "string \<Rightarrow> int64 \<times> strconv_error option" where
  "Atoi s = ParseInt s"

definition ParseBool :: "string \<Rightarrow> bool \<times> strconv_error option" where
  "ParseBool s =
     (if s \<in> set [''1'', ''t'', ''T'', ''true'', ''TRUE'', ''True''] then (True, None)
      else if s \<in> set [''0'', ''f'', ''F'', ''false'', ''FALSE'', ''False''] then (False, None)
      else (False, Some ErrSyntax))"

section \<open>The decimal value of a string\<close>

definition all_digits :: "string \<Rightarrow> bool" where
  "all_digits s = list_all (\<lambda>c. digit_of c \<noteq> None) s"

fun dec_val :: "string \<Rightarrow> nat \<Rightarrow> nat" where
  "dec_val [] n = n"
| "dec_val (c # cs) n = dec_val cs (10 * n + the (digit_of c))"

lemma digit_of_less: "digit_of c = Some v \<Longrightarrow> v < 10"
  by (auto simp: digit_of_def Let_def split: if_splits)

lemma dec_val_mono: "n \<le> dec_val cs n"
proof (induction cs arbitrary: n)
  case (Cons c cs)
  have "n \<le> 10 * n + the (digit_of c)" by simp
  also have "\<dots> \<le> dec_val cs (10 * n + the (digit_of c))" by (rule Cons.IH)
  finally show ?case by simp
qed simp

lemma unat_cutoff: "unat uint_cutoff = 1844674407370955162"
  by (simp add: uint_cutoff_def)

lemma unat_of_nat_64: "n < 2 ^ 64 \<Longrightarrow> unat (of_nat n :: int64) = n"
  by (simp add: unat_of_nat)

lemma max_uint64_max: "\<not> max_uint64 < n"
  by (simp add: max_uint64_def not_less)

lemma ParseUint_loop_step:
  assumes "n < 2 ^ 64" and "v < 10"
  shows "(uint_cutoff \<le> of_nat n \<or> of_nat n * 10 + of_nat v < (of_nat n * 10 :: int64))
           \<longleftrightarrow> 2 ^ 64 \<le> 10 * n + v"
proof (cases "1844674407370955162 \<le> n")
  case True
  then have "uint_cutoff \<le> of_nat n"
    using assms(1) by (simp add: word_le_nat_alt unat_cutoff unat_of_nat_64)
  with True show ?thesis by simp
next
  case False
  have u: "unat (of_nat n :: int64) = n" using assms(1) by (simp add: unat_of_nat_64)
  have m: "unat (of_nat n * 10 :: int64) = 10 * n"
    using False u by (simp add: unat_word_ariths)
  have v: "unat (of_nat v :: int64) = v" using assms(2) by (simp add: unat_of_nat_64)
  have "\<not> uint_cutoff \<le> of_nat n"
    using False u by (simp add: word_le_nat_alt unat_cutoff)
  moreover have "unat (of_nat n * 10 + of_nat v :: int64) = (10 * n + v) mod 2 ^ 64"
    using m v by (simp add: unat_word_ariths(1))
  ultimately show ?thesis
    using False assms(2) m
    by (cases "10 * n + v < 2 ^ 64") (auto simp: word_less_nat_alt mod_if)
qed

lemma ParseUint_loop_digits:
  assumes "all_digits cs" and "n < 2 ^ 64"
  shows "ParseUint_loop cs (of_nat n) =
           (if dec_val cs n < 2 ^ 64 then (of_nat (dec_val cs n), None)
            else (max_uint64, Some ErrRange))"
  using assms
proof (induction cs arbitrary: n)
  case (Cons c cs)
  then obtain v where v: "digit_of c = Some v" by (auto simp: all_digits_def)
  then have v10: "v < 10" by (rule digit_of_less)
  note step = ParseUint_loop_step [OF Cons.prems(2) v10]
  show ?case
  proof (cases "10 * n + v < 2 ^ 64")
    case True
    then have "ParseUint_loop (c # cs) (of_nat n) = ParseUint_loop cs (of_nat (10 * n + v))"
      using step v by (auto simp: Let_def max_uint64_max algebra_simps)
    also have "\<dots> = (if dec_val cs (10 * n + v) < 2 ^ 64
        then (of_nat (dec_val cs (10 * n + v)), None) else (max_uint64, Some ErrRange))"
      using Cons True by (intro Cons.IH) (auto simp: all_digits_def)
    finally show ?thesis using v by simp
  next
    case False
    then have "ParseUint_loop (c # cs) (of_nat n) = (max_uint64, Some ErrRange)"
      using step v by (auto simp: Let_def)
    moreover have "\<not> dec_val cs (10 * n + v) < 2 ^ 64"
      using False dec_val_mono [of "10 * n + v" cs] by linarith
    ultimately show ?thesis using v by simp
  qed
qed simp

lemma ParseUint_digits:
  "s \<noteq> [] \<Longrightarrow> all_digits s \<Longrightarrow> dec_val s 0 < 2 ^ 64 \<Longrightarrow> ParseUint s = (of_nat (dec_val s 0), None)"
  using ParseUint_loop_digits [of s 0] by (simp add: ParseUint_def)

lemma ParseUint_overflow:
  "s \<noteq> [] \<Longrightarrow> all_digits s \<Longrightarrow> 2 ^ 64 \<le> dec_val s 0 \<Longrightarrow> ParseUint s = (max_uint64, Some ErrRange)"
  using ParseUint_loop_digits [of s 0] by (simp add: ParseUint_def)

lemma digit_not_sign: "digit_of c \<noteq> None \<Longrightarrow> c \<noteq> CHR ''+'' \<and> c \<noteq> CHR ''-''"
  by (auto simp: digit_of_def)

lemma unat_int_cutoff: "unat int_cutoff = 2 ^ 63"
  by (simp add: int_cutoff_def)

lemma Atoi_digits:
  assumes "s \<noteq> []" "all_digits s" "dec_val s 0 < 2 ^ 63"
  shows "Atoi s = (of_nat (dec_val s 0), None)"
proof -
  have "hd s \<noteq> CHR ''+'' \<and> hd s \<noteq> CHR ''-''"
    using assms(1,2) by (intro digit_not_sign) (cases s, auto simp: all_digits_def)
  moreover have "ParseUint s = (of_nat (dec_val s 0), None)"
    using assms by (intro ParseUint_digits) auto
  moreover have "\<not> int_cutoff \<le> of_nat (dec_val s 0)"
    using assms(3) by (simp add: word_le_nat_alt unat_int_cutoff unat_of_nat_64)
  ultimately show ?thesis using assms(1) by (auto simp: Atoi_def ParseInt_def)
qed

lemma Atoi_neg_digits:
  assumes "s \<noteq> []" "all_digits s" "dec_val s 0 \<le> 2 ^ 63"
  shows "Atoi (CHR ''-'' # s) = (- of_nat (dec_val s 0), None)"
proof -
  have "ParseUint s = (of_nat (dec_val s 0), None)"
    using assms by (intro ParseUint_digits) auto
  moreover have "\<not> int_cutoff < of_nat (dec_val s 0)"
    using assms(3) by (simp add: word_less_nat_alt unat_int_cutoff unat_of_nat_64)
  ultimately show ?thesis using assms(1) by (auto simp: Atoi_def ParseInt_def)
qed

lemma Atoi_overflow:
  assumes "s \<noteq> []" "all_digits s" "2 ^ 63 \<le> dec_val s 0"
  shows "Atoi s = (int_cutoff - 1, Some ErrRange)"
proof -
  have sgn: "hd s \<noteq> CHR ''+'' \<and> hd s \<noteq> CHR ''-''"
    using assms(1,2) by (intro digit_not_sign) (cases s, auto simp: all_digits_def)
  show ?thesis
  proof (cases "dec_val s 0 < 2 ^ 64")
    case True
    then have "int_cutoff \<le> of_nat (dec_val s 0)"
      using assms(3) by (simp add: word_le_nat_alt unat_int_cutoff unat_of_nat_64)
    then show ?thesis
      using True assms sgn ParseUint_digits [of s] by (auto simp: Atoi_def ParseInt_def)
  next
    case False
    then have "ParseUint s = (max_uint64, Some ErrRange)"
      using assms by (intro ParseUint_overflow) auto
    moreover have "int_cutoff \<le> max_uint64"
      by (simp add: max_uint64_def)
    ultimately show ?thesis using assms sgn by (auto simp: Atoi_def ParseInt_def)
  qed
qed

end
