(* ===== verification/MemStore.thy ===== *)
theory MemStore
  imports GoValues GoStrconv
begin

text \<open>
  Model of \<^verbatim>\<open>memstore.go\<close>: the type \<open>Store\<close> (a slice of entries) with its operations.

  A \<open>Store\<close> is a Go slice that starts at the beginning of its backing array: \<open>arr\<close> is the
  whole array (its length is the capacity) and \<open>slen\<close> the length of the slice. \<open>Save\<close> reuses
  the spare slots, \<open>Remove\<close> shifts inside the array and \<open>Reset\<close> only shortens the slice, so
  stale entries stay behind the end; \<open>store_elems\<close> is what the program can see. The capacity
  that \<open>append\<close> chooses when the array is full is not specified by the language: it is the
  parameter \<open>gr\<close> (spare slots as a function of the old length).

  \<open>Entry_Value\<close> copies the value of an immutable entry with package \<open>reflect\<close>, so the getters
  read and extend the memory of \<^verbatim>\<open>GoValues\<close> and can panic.

  Results: the slice operations implement operations on plain entry lists; the locale
  \<open>keyed_store\<close> states what the rest of the program relies on and is interpreted on the slice
  model; an immutable entry is changed by nothing but \<open>SetImmutable\<close>, \<open>Remove\<close> and \<open>Reset\<close>;
  a value read from an immutable entry is a private copy.
\<close>

record Entry =
  Key :: string
  ValueRaw :: val
  immutable :: bool

record Store =
  arr :: "Entry list"
  slen :: nat

definition zero_entry :: Entry where
  "zero_entry = \<lparr>Key = [], ValueRaw = VNil, immutable = False\<rparr>"

definition nil_store :: Store where
  "nil_store = \<lparr>arr = [], slen = 0\<rparr>"

definition store_elems :: "Store \<Rightarrow> Entry list" where
  "store_elems r = take (slen r) (arr r)"

definition Entry_Value :: "Entry \<Rightarrow> mem \<Rightarrow> val outcome \<times> mem" where
  "Entry_Value e m =
     (if immutable e then
        (case reflect_Indirect (ValueRaw e) m of
           None \<Rightarrow> (Panic ''reflect: call of reflect.Value.Type on zero Value'', m)
         | Some (VSlice k a off n c) \<Rightarrow>
             (let (b, m') = mem_alloc (CArr (slice_elems m (VSlice k a off n c)
                                          @ replicate (c - n) (zero_val k))) m
              in (Ret (VSlice k (Some b) 0 n c), m'))
         | Some (VMap a) \<Rightarrow>
             (let (b, m') = mem_alloc (CMap (map_pairs m (VMap a))) m
              in (Ret (VMap (Some b)), m'))
         | Some v \<Rightarrow> (Ret v, m))
      else (Ret (ValueRaw e), m))"

fun key_index :: "string \<Rightarrow> Entry list \<Rightarrow> nat option" where
  "key_index k [] = None"
| "key_index k (e # es) = (if Key e = k then Some 0 else map_option Suc (key_index k es))"

text \<open>What \<open>Save\<close> writes over the entry it finds under the key.\<close>

definition replace_entry :: "val \<Rightarrow> bool \<Rightarrow> Entry \<Rightarrow> Entry" where
  "replace_entry v imm kv =
     (if imm \<and> immutable kv then kv\<lparr>ValueRaw := v, immutable := imm\<rparr>
      else if immutable kv = False then kv\<lparr>ValueRaw := v, immutable := imm\<rparr>
      else kv)"

definition Store_Save ::
  "(nat \<Rightarrow> nat) \<Rightarrow> string \<Rightarrow> val \<Rightarrow> bool \<Rightarrow> Store \<Rightarrow> Store \<times> Entry \<times> bool" where
  "Store_Save gr key v imm r =
     (let args = arr r; n = slen r in
      case key_index key (take n args) of
        Some i \<Rightarrow>
          let kv = replace_entry v imm (args ! i)
          in (r\<lparr>arr := args[i := kv]\<rparr>, kv, False)
      | None \<Rightarrow>
          if n < length args then
            let kv = (args ! n)\<lparr>Key := key, ValueRaw := v, immutable := imm\<rparr>
            in (\<lparr>arr = args[n := kv], slen = n + 1\<rparr>, kv, True)
          else
            let kv = \<lparr>Key = key, ValueRaw = v, immutable = imm\<rparr>
            in (\<lparr>arr = take n args @ kv # replicate (gr n) zero_entry, slen = n + 1\<rparr>, kv, True))"

definition Store_Set :: "(nat \<Rightarrow> nat) \<Rightarrow> string \<Rightarrow> val \<Rightarrow> Store \<Rightarrow> Store \<times> Entry \<times> bool" where
  "Store_Set gr key v r = Store_Save gr key v False r"

definition Store_SetImmutable ::
  "(nat \<Rightarrow> nat) \<Rightarrow> string \<Rightarrow> val \<Rightarrow> Store \<Rightarrow> Store \<times> Entry \<times> bool" where
  "Store_SetImmutable gr key v r = Store_Save gr key v True r"

definition Store_GetDefault :: "string \<Rightarrow> val \<Rightarrow> Store \<Rightarrow> mem \<Rightarrow> val outcome \<times> mem" where
  "Store_GetDefault key def r m =
     (case key_index key (take (slen r) (arr r)) of
        Some i \<Rightarrow> Entry_Value (arr r ! i) m
      | None \<Rightarrow> (Ret def, m))"

definition Store_Get :: "string \<Rightarrow> Store \<Rightarrow> mem \<Rightarrow> val outcome \<times> mem" where
  "Store_Get key r m = Store_GetDefault key VNil r m"

fun visit_loop ::
  "(string \<Rightarrow> val \<Rightarrow> 'a \<Rightarrow> 'a) \<Rightarrow> Entry list \<Rightarrow> mem \<times> 'a \<Rightarrow> unit outcome \<times> mem \<times> 'a" where
  "visit_loop f [] s = (Ret (), s)"
| "visit_loop f (kv # es) (m, a) =
     (case Entry_Value kv m of
        (Ret v, m') \<Rightarrow> visit_loop f es (m', f (Key kv) v a)
      | (Blocked, m') \<Rightarrow> (Blocked, (m', a))
      | (Panic e, m') \<Rightarrow> (Panic e, (m', a)))"

definition Store_Visit ::
  "(string \<Rightarrow> val \<Rightarrow> 'a \<Rightarrow> 'a) \<Rightarrow> Store \<Rightarrow> mem \<times> 'a \<Rightarrow> unit outcome \<times> mem \<times> 'a" where
  "Store_Visit visitor r s = visit_loop visitor (take (slen r) (arr r)) s"

definition Store_GetStringDefault :: "string \<Rightarrow> string \<Rightarrow> Store \<Rightarrow> mem \<Rightarrow> string outcome \<times> mem" where
  "Store_GetStringDefault key def r m =
     bind_out (Store_Get key r m)
       (\<lambda>v m'. (Ret (case v of VNil \<Rightarrow> def | VString s \<Rightarrow> s | _ \<Rightarrow> def), m'))"

definition Store_GetString :: "string \<Rightarrow> Store \<Rightarrow> mem \<Rightarrow> string outcome \<times> mem" where
  "Store_GetString key r m = Store_GetStringDefault key [] r m"

definition Store_GetIntDefault ::
  "string \<Rightarrow> int64 \<Rightarrow> Store \<Rightarrow> mem \<Rightarrow> (int64 \<times> strconv_error option) outcome \<times> mem" where
  "Store_GetIntDefault key def r m =
     bind_out (Store_Get key r m)
       (\<lambda>v m'. (Ret (case v of
            VNil \<Rightarrow> (def, None)
          | VInt i \<Rightarrow> (i, None)
          | VString s \<Rightarrow> (if s = [] then (def, None) else Atoi s)
          | _ \<Rightarrow> (def, None)), m'))"

definition Store_GetInt ::
  "string \<Rightarrow> Store \<Rightarrow> mem \<Rightarrow> (int64 \<times> strconv_error option) outcome \<times> mem" where
  "Store_GetInt key r m = Store_GetIntDefault key 0 r m"

definition Store_GetInt64Default ::
  "string \<Rightarrow> int64 \<Rightarrow> Store \<Rightarrow> mem \<Rightarrow> (int64 \<times> strconv_error option) outcome \<times> mem" where
  "Store_GetInt64Default key def r m =
     bind_out (Store_Get key r m)
       (\<lambda>v m'. (Ret (case v of
            VNil \<Rightarrow> (def, None)
          | VInt64 i \<Rightarrow> (i, None)
          | VString s \<Rightarrow> (if s = [] then (def, None) else ParseInt s)
          | _ \<Rightarrow> (def, None)), m'))"

definition Store_GetInt64 ::
  "string \<Rightarrow> Store \<Rightarrow> mem \<Rightarrow> (int64 \<times> strconv_error option) outcome \<times> mem" where
  "Store_GetInt64 key r m = Store_GetInt64Default key 0 r m"

definition Store_GetBoolDefault ::
  "string \<Rightarrow> bool \<Rightarrow> Store \<Rightarrow> mem \<Rightarrow> (bool \<times> strconv_error option) outcome \<times> mem" where
  "Store_GetBoolDefault key def r m =
     bind_out (Store_Get key r m)
       (\<lambda>v m'. (Ret (case v of
            VNil \<Rightarrow> (def, None)
          | VBool b \<Rightarrow> (b, None)
          | VString s \<Rightarrow> ParseBool s
          | VInt i \<Rightarrow> (if i = 1 then (True, None) else (False, None))
          | _ \<Rightarrow> (def, None)), m'))"

definition Store_GetBool ::
  "string \<Rightarrow> Store \<Rightarrow> mem \<Rightarrow> (bool \<times> strconv_error option) outcome \<times> mem" where
  "Store_GetBool key r m = Store_GetBoolDefault key False r m"

definition Store_Remove :: "string \<Rightarrow> Store \<Rightarrow> Store \<times> bool" where
  "Store_Remove key r =
     (let args = arr r; n = slen r in
      case key_index key (take n args) of
        Some i \<Rightarrow>
          (\<lparr>arr = take i args @ take (n - (i + 1)) (drop (i + 1) args) @ drop (n - 1) args,
            slen = n - 1\<rparr>, True)
      | None \<Rightarrow> (r, False))"

definition Store_Reset :: "Store \<Rightarrow> Store" where
  "Store_Reset r = r\<lparr>slen := 0\<rparr>"

definition Store_Len :: "Store \<Rightarrow> nat" where
  "Store_Len r = slen r"

section \<open>The slice operations implement operations on entry lists\<close>

definition slice_ok :: "Store \<Rightarrow> bool" where
  "slice_ok r = (slen r \<le> length (arr r))"

definition wf_store :: "Store \<Rightarrow> bool" where
  "wf_store r = (slice_ok r \<and> distinct (map Key (store_elems r)))"

definition save_list :: "string \<Rightarrow> val \<Rightarrow> bool \<Rightarrow> Entry list \<Rightarrow> Entry list \<times> Entry \<times> bool" where
  "save_list k v imm es =
     (case key_index k es of
        Some i \<Rightarrow> (es[i := replace_entry v imm (es ! i)], replace_entry v imm (es ! i), False)
      | None \<Rightarrow> (es @ [\<lparr>Key = k, ValueRaw = v, immutable = imm\<rparr>],
                  \<lparr>Key = k, ValueRaw = v, immutable = imm\<rparr>, True))"

definition remove_list :: "string \<Rightarrow> Entry list \<Rightarrow> Entry list \<times> bool" where
  "remove_list k es =
     (case key_index k es of
        Some i \<Rightarrow> (take i es @ drop (Suc i) es, True)
      | None \<Rightarrow> (es, False))"

definition store_lookup :: "Store \<Rightarrow> string \<Rightarrow> Entry option" where
  "store_lookup r k = find (\<lambda>e. Key e = k) (store_elems r)"

lemma key_index_SomeD:
  "key_index k es = Some i \<Longrightarrow> i < length es \<and> Key (es ! i) = k"
  by (induction es arbitrary: i) (auto split: if_splits)

lemma key_index_None_iff: "key_index k es = None \<longleftrightarrow> k \<notin> Key ` set es"
  by (induction es) auto

lemma find_key_index:
  "find (\<lambda>e. Key e = k) es = map_option (\<lambda>i. es ! i) (key_index k es)"
  by (induction es) (auto simp: option.map_comp comp_def)

lemma Key_replace_entry [simp]: "Key (replace_entry v imm e) = Key e"
  by (simp add: replace_entry_def)

lemma length_store_elems: "slice_ok r \<Longrightarrow> length (store_elems r) = slen r"
  by (simp add: store_elems_def slice_ok_def)

lemma nth_store_elems: "i < slen r \<Longrightarrow> store_elems r ! i = arr r ! i"
  by (simp add: store_elems_def)

lemma overwrite_entry:
  "e\<lparr>Key := k, ValueRaw := v, immutable := i\<rparr> = \<lparr>Key = k, ValueRaw = v, immutable = i\<rparr>"
  by (cases e) simp

lemma Store_Save_elems:
  assumes "slice_ok r"
  shows "store_elems (fst (Store_Save gr k v imm r)) = fst (save_list k v imm (store_elems r))
    \<and> snd (Store_Save gr k v imm r) = snd (save_list k v imm (store_elems r))
    \<and> slice_ok (fst (Store_Save gr k v imm r))"
proof (cases "key_index k (take (slen r) (arr r))")
  case None
  with assms show ?thesis
    by (auto simp: Store_Save_def save_list_def store_elems_def slice_ok_def overwrite_entry
        take_write Let_def)
next
  case (Some i)
  then have "i < slen r" using key_index_SomeD [OF Some] by simp
  with Some assms show ?thesis
    by (simp add: Store_Save_def save_list_def store_elems_def slice_ok_def Let_def take_update_swap)
qed

lemma Store_Remove_elems:
  assumes "slice_ok r"
  shows "store_elems (fst (Store_Remove k r)) = fst (remove_list k (store_elems r))
    \<and> snd (Store_Remove k r) = snd (remove_list k (store_elems r))
    \<and> slice_ok (fst (Store_Remove k r))"
proof (cases "key_index k (take (slen r) (arr r))")
  case (Some i)
  then have i: "i < slen r" "slen r \<le> length (arr r)"
    using key_index_SomeD [OF Some] assms by (auto simp: slice_ok_def)
  note shift = take_shift_left [OF i, of "drop (slen r - 1) (arr r)"]
  from Some show ?thesis
    by (simp only: Store_Remove_def remove_list_def store_elems_def slice_ok_def Let_def
        option.case fst_conv snd_conv Store.simps shift) (use i in \<open>simp add: min_def\<close>)
qed (use assms in \<open>simp add: Store_Remove_def remove_list_def store_elems_def Let_def\<close>)

lemma Store_Reset_elems: "store_elems (Store_Reset r) = []" "slice_ok (Store_Reset r)"
  by (simp_all add: Store_Reset_def store_elems_def slice_ok_def)

lemma Store_GetDefault_elems:
  assumes "slice_ok r"
  shows "Store_GetDefault k def r m =
           (case store_lookup r k of Some e \<Rightarrow> Entry_Value e m | None \<Rightarrow> (Ret def, m))"
proof (cases "key_index k (store_elems r)")
  case (Some i)
  then have "i < slen r"
    using assms by (auto dest!: key_index_SomeD simp: length_store_elems)
  with Some show ?thesis
    by (simp add: Store_GetDefault_def store_lookup_def find_key_index nth_store_elems
        flip: store_elems_def)
qed (simp add: Store_GetDefault_def store_lookup_def find_key_index flip: store_elems_def)

lemma Store_Get_lookup:
  "slice_ok r \<Longrightarrow> Store_Get k r m =
     (case store_lookup r k of Some e \<Rightarrow> Entry_Value e m | None \<Rightarrow> (Ret VNil, m))"
  by (simp add: Store_Get_def Store_GetDefault_elems)

section \<open>Keys stay distinct; lookup after each operation\<close>

lemma save_list_keys:
  "map Key (fst (save_list k v imm es)) =
     (if k \<in> Key ` set es then map Key es else map Key es @ [k])"
proof (cases "key_index k es")
  case None
  then have "k \<notin> Key ` set es" by (simp add: key_index_None_iff)
  with None show ?thesis by (simp add: save_list_def)
next
  case (Some i)
  then have "k \<in> Key ` set es" using key_index_None_iff [of k es] by auto
  moreover have "map Key (es[i := replace_entry v imm (es ! i)]) = map Key es"
    by (metis Key_replace_entry list_update_beyond list_update_id map_update not_less)
  ultimately show ?thesis using Some by (simp add: save_list_def)
qed

lemma remove_list_distinct:
  assumes "distinct (map Key es)"
  shows "distinct (map Key (fst (remove_list k es)))"
proof (cases "key_index k es")
  case (Some i)
  have "distinct (map Key (take i es @ drop (Suc i) es))"
    using assms set_take_disj_set_drop_if_distinct [of "map Key es" i "Suc i"]
    by (simp flip: take_map drop_map)
  with Some show ?thesis by (simp add: remove_list_def)
qed (use assms in \<open>simp add: remove_list_def\<close>)

lemma wf_nil_store [simp]: "wf_store nil_store"
  by (simp add: wf_store_def slice_ok_def nil_store_def store_elems_def)

lemma wf_Store_Save [inv_intros]: "wf_store r \<Longrightarrow> wf_store (fst (Store_Save gr k v imm r))"
  by (auto simp: wf_store_def Store_Save_elems save_list_keys)

lemma wf_Store_Remove [inv_intros]: "wf_store r \<Longrightarrow> wf_store (fst (Store_Remove k r))"
  by (simp add: wf_store_def Store_Remove_elems remove_list_distinct)

lemma wf_Store_Reset [inv_intros]: "wf_store (Store_Reset r)"
  by (simp add: wf_store_def Store_Reset_elems)

lemma find_distinct_iff:
  "distinct (map Key es) \<Longrightarrow> find (\<lambda>e. Key e = k) es = Some e \<longleftrightarrow> e \<in> set es \<and> Key e = k"
  by (induction es) (auto simp: image_iff)

lemma find_None_key: "find (\<lambda>e. Key e = k) es = None \<longleftrightarrow> k \<notin> Key ` set es"
  by (induction es) auto

text \<open>
  What a finite map should hold under \<open>k\<close> after a save, stated without the code: the new
  entry, unless an immutable one is in the way of a plain \<open>Set\<close>.
\<close>

definition saved_entry :: "string \<Rightarrow> val \<Rightarrow> bool \<Rightarrow> Entry option \<Rightarrow> Entry" where
  "saved_entry k v imm old =
     (case old of
        None \<Rightarrow> \<lparr>Key = k, ValueRaw = v, immutable = imm\<rparr>
      | Some e \<Rightarrow> if immutable e \<and> \<not> imm then e
                  else \<lparr>Key = k, ValueRaw = v, immutable = imm\<rparr>)"

lemma replace_entry_saved: "replace_entry v imm e = saved_entry (Key e) v imm (Some e)"
  by (cases e) (auto simp: replace_entry_def saved_entry_def)

lemma Key_saved_entry [simp]: "Key (saved_entry (Key e) v imm (Some e)) = Key e"
  by (simp add: saved_entry_def)

lemma find_update_key:
  assumes "i < length es" "Key e = Key (es ! i)" "distinct (map Key es)"
  shows "find (\<lambda>e. Key e = x) (es[i := e]) =
           (if x = Key (es ! i) then Some e else find (\<lambda>e. Key e = x) es)"
  using assms
proof (induction es arbitrary: i)
  case (Cons a es)
  show ?case
  proof (cases i)
    case (Suc j)
    with Cons.prems have "Key a \<noteq> Key (es ! j)" by (auto simp: image_iff)
    with Cons Suc show ?thesis by auto
  qed (use Cons.prems in auto)
qed simp

lemma find_append: "find P (xs @ ys) = (case find P xs of None \<Rightarrow> find P ys | Some x \<Rightarrow> Some x)"
  by (induction xs) auto

lemma save_list_lookup:
  assumes "distinct (map Key es)"
  shows "find (\<lambda>e. Key e = x) (fst (save_list k v imm es)) =
    (if x = k then Some (saved_entry k v imm (find (\<lambda>e. Key e = k) es))
     else find (\<lambda>e. Key e = x) es)"
proof (cases "key_index k es")
  case None
  then have "find (\<lambda>e. Key e = k) es = None" by (simp add: find_key_index)
  with None show ?thesis
    by (auto simp: save_list_def saved_entry_def find_append split: option.splits)
next
  case (Some i)
  then have "find (\<lambda>e. Key e = k) es = Some (es ! i)" by (simp add: find_key_index)
  with Some show ?thesis
    using key_index_SomeD [OF Some] assms
    by (auto simp: save_list_def replace_entry_saved find_update_key)
qed

lemma remove_list_lookup:
  assumes "distinct (map Key es)"
  shows "find (\<lambda>e. Key e = x) (fst (remove_list k es)) =
    (if x = k then None else find (\<lambda>e. Key e = x) es)"
proof (cases "key_index k es")
  case None
  then have "find (\<lambda>e. Key e = k) es = None" by (simp add: find_key_index)
  with None show ?thesis by (simp add: remove_list_def)
next
  case (Some i)
  note i = key_index_SomeD [OF Some]
  have split: "es = take i es @ es ! i # drop (Suc i) es" using i id_take_nth_drop by blast
  then have "map Key es = map Key (take i es) @ Key (es ! i) # map Key (drop (Suc i) es)"
    by (metis list.simps(9) map_append)
  then have "distinct (map Key (take i es) @ Key (es ! i) # map Key (drop (Suc i) es))"
    using assms by metis
  then have k: "k \<notin> Key ` set (take i es @ drop (Suc i) es)"
    using i by auto
  have "find (\<lambda>e. Key e = x) es = find (\<lambda>e. Key e = x) (take i es @ drop (Suc i) es)" if "x \<noteq> k"
    by (subst (1) split) (use that i in \<open>auto simp: find_append split: option.split\<close>)
  moreover have "find (\<lambda>e. Key e = k) (take i es @ drop (Suc i) es) = None"
    using k unfolding find_None_key .
  ultimately show ?thesis using Some by (auto simp: remove_list_def)
qed

lemma store_lookup_Save:
  "wf_store r \<Longrightarrow> store_lookup (fst (Store_Save gr k v imm r)) =
     (store_lookup r)(k \<mapsto> saved_entry k v imm (store_lookup r k))"
  by (auto simp: wf_store_def store_lookup_def Store_Save_elems save_list_lookup fun_eq_iff)

lemma store_lookup_Remove:
  "wf_store r \<Longrightarrow> store_lookup (fst (Store_Remove k r)) = (store_lookup r)(k := None)"
  by (auto simp: wf_store_def store_lookup_def Store_Remove_elems remove_list_lookup fun_eq_iff)

lemma store_lookup_Reset: "store_lookup (Store_Reset r) = Map.empty"
  by (simp add: store_lookup_def Store_Reset_elems fun_eq_iff)

lemma Store_Save_result:
  "slice_ok r \<Longrightarrow> snd (Store_Save gr k v imm r) =
     (saved_entry k v imm (store_lookup r k), store_lookup r k = None)"
  by (auto simp: Store_Save_elems save_list_def replace_entry_saved store_lookup_def find_key_index
      saved_entry_def [of _ _ _ None] dest: key_index_SomeD split: option.split)

lemma Store_Remove_result: "slice_ok r \<Longrightarrow> snd (Store_Remove k r) = (store_lookup r k \<noteq> None)"
  by (simp add: Store_Remove_elems remove_list_def store_lookup_def find_key_index split: option.split)

lemma Store_Len_lookup: "slice_ok r \<Longrightarrow> Store_Len r = 0 \<longleftrightarrow> store_lookup r = Map.empty"
  by (auto simp: Store_Len_def store_lookup_def fun_eq_iff find_None_key
      simp flip: length_store_elems)

lemma dom_store_lookup: "dom (store_lookup r) = Key ` set (store_elems r)"
proof -
  have "k \<in> dom (store_lookup r) \<longleftrightarrow> k \<in> Key ` set (store_elems r)" for k
    using find_None_key [of k "store_elems r"] by (auto simp: store_lookup_def dom_def)
  then show ?thesis by blast
qed

lemma Store_Len_card:
  assumes "wf_store r"
  shows "Store_Len r = card (dom (store_lookup r))"
proof -
  have "card (Key ` set (store_elems r)) = length (map Key (store_elems r))"
    using assms distinct_card [of "map Key (store_elems r)"] by (simp add: wf_store_def)
  with assms show ?thesis
    by (simp add: dom_store_lookup Store_Len_def length_store_elems wf_store_def)
qed

section \<open>The interface the sessions rely on\<close>

definition map_save :: "string \<Rightarrow> val \<Rightarrow> bool \<Rightarrow> (string \<rightharpoonup> Entry) \<Rightarrow> (string \<rightharpoonup> Entry)" where
  "map_save k v imm m = m(k \<mapsto> saved_entry k v imm (m k))"

definition map_remove :: "string \<Rightarrow> (string \<rightharpoonup> Entry) \<Rightarrow> (string \<rightharpoonup> Entry)" where
  "map_remove k m = m(k := None)"

datatype store_cmd = CmdSave string val bool | CmdRemove string | CmdReset

fun store_step ::
  "(string \<Rightarrow> val \<Rightarrow> bool \<Rightarrow> 's \<Rightarrow> 's) \<Rightarrow> (string \<Rightarrow> 's \<Rightarrow> 's) \<Rightarrow> ('s \<Rightarrow> 's) \<Rightarrow> store_cmd \<Rightarrow> 's \<Rightarrow> 's"
where
  "store_step save remove reset (CmdSave k v imm) s = save k v imm s"
| "store_step save remove reset (CmdRemove k) s = remove k s"
| "store_step save remove reset CmdReset s = reset s"

text \<open>The commands that may change an immutable entry under \<open>k\<close>.\<close>

fun overrides :: "string \<Rightarrow> store_cmd \<Rightarrow> bool" where
  "overrides k (CmdSave k' v imm) = (k' = k \<and> imm)"
| "overrides k (CmdRemove k') = (k' = k)"
| "overrides k CmdReset = True"

locale keyed_store =
  fixes invar :: "'s \<Rightarrow> bool"
    and lookup :: "'s \<Rightarrow> string \<rightharpoonup> Entry"
    and save :: "string \<Rightarrow> val \<Rightarrow> bool \<Rightarrow> 's \<Rightarrow> 's"
    and remove :: "string \<Rightarrow> 's \<Rightarrow> 's"
    and reset :: "'s \<Rightarrow> 's"
  assumes invar_save: "invar s \<Longrightarrow> invar (save k v imm s)"
    and invar_remove: "invar s \<Longrightarrow> invar (remove k s)"
    and invar_reset: "invar s \<Longrightarrow> invar (reset s)"
    and lookup_save: "invar s \<Longrightarrow> lookup (save k v imm s) = map_save k v imm (lookup s)"
    and lookup_remove: "invar s \<Longrightarrow> lookup (remove k s) = map_remove k (lookup s)"
    and lookup_reset: "invar s \<Longrightarrow> lookup (reset s) = Map.empty"
begin

lemma step_refines:
  "invar s \<Longrightarrow> invar (store_step save remove reset c s) \<and>
     lookup (store_step save remove reset c s) =
       store_step map_save map_remove (\<lambda>_. Map.empty) c (lookup s)"
  by (cases c) (simp_all add: invar_save invar_remove invar_reset lookup_save lookup_remove lookup_reset)

lemma run_refines:
  "invar s \<Longrightarrow> invar (fold (store_step save remove reset) cs s) \<and>
     lookup (fold (store_step save remove reset) cs s) =
       fold (store_step map_save map_remove (\<lambda>_. Map.empty)) cs (lookup s)"
  by (induction cs arbitrary: s) (simp_all add: step_refines)

lemma step_keeps_immutable:
  "invar s \<Longrightarrow> lookup s k = Some e \<Longrightarrow> immutable e \<Longrightarrow> \<not> overrides k c \<Longrightarrow>
     lookup (store_step save remove reset c s) k = Some e"
  by (cases c)
    (auto simp: lookup_save lookup_remove map_save_def map_remove_def saved_entry_def)

lemma run_keeps_immutable:
  "invar s \<Longrightarrow> lookup s k = Some e \<Longrightarrow> immutable e \<Longrightarrow> (\<And>c. c \<in> set cs \<Longrightarrow> \<not> overrides k c) \<Longrightarrow>
     lookup (fold (store_step save remove reset) cs s) k = Some e"
proof (induction cs arbitrary: s)
  case (Cons c cs)
  have "invar (store_step save remove reset c s)"
    using step_refines [OF Cons.prems(1)] by simp
  moreover have "lookup (store_step save remove reset c s) k = Some e"
    using Cons.prems by (intro step_keeps_immutable) auto
  ultimately show ?case using Cons.prems by (simp add: Cons.IH)
qed simp

end

interpretation slice_store: keyed_store wf_store store_lookup
  "\<lambda>k v imm r. fst (Store_Save gr k v imm r)" "\<lambda>k r. fst (Store_Remove k r)" Store_Reset
  for gr
  by unfold_locales
    (simp_all add: inv_intros store_lookup_Save store_lookup_Remove store_lookup_Reset
      map_save_def map_remove_def)

definition run_store :: "(nat \<Rightarrow> nat) \<Rightarrow> store_cmd list \<Rightarrow> Store \<Rightarrow> Store" where
  "run_store gr cs r =
     fold (store_step (\<lambda>k v imm r. fst (Store_Save gr k v imm r)) (\<lambda>k r. fst (Store_Remove k r))
            Store_Reset) cs r"

text \<open>The finite map that the same commands build.\<close>

definition run_map :: "store_cmd list \<Rightarrow> (string \<rightharpoonup> Entry)" where
  "run_map cs = fold (store_step map_save map_remove (\<lambda>_. Map.empty)) cs Map.empty"

lemma Entry_Value_mutable: "\<not> immutable e \<Longrightarrow> Entry_Value e m = (Ret (ValueRaw e), m)"
  by (simp add: Entry_Value_def)

lemma Entry_Value_copy:
  assumes "immutable e" "reflect_Indirect (ValueRaw e) m = Some w" "wf_val m w"
    "(\<exists>k a off n c. w = VSlice k a off n c) \<or> (\<exists>a. w = VMap a)"
  obtains v c where "Entry_Value e m = (Ret v, m @ [c])" "val_addr v = Some (length m)"
    "contents (m @ [c]) v = contents m w"
  using assms(4)
proof (elim disjE exE)
  fix k a off n c assume w: "w = VSlice k a off n c"
  let ?c = "CArr (slice_elems m w @ replicate (c - n) (zero_val k))"
  have "length (slice_elems m w) = n" using assms(3) w by auto
  then have "contents (m @ [?c]) (VSlice k (Some (length m)) 0 n c) = contents m w"
    using w by (simp add: contents_def)
  then show thesis
    using that [of "VSlice k (Some (length m)) 0 n c" ?c] assms(1,2) w
    by (simp add: Entry_Value_def mem_alloc_def)
next
  fix a assume "w = VMap a"
  then show thesis
    using that [of "VMap (Some (length m))" "CMap (map_pairs m w)"] assms(1,2)
    by (simp add: Entry_Value_def mem_alloc_def contents_def)
qed

text \<open>\<open>Get\<close> under the key of a \<open>SetImmutable\<close> copies what the argument holds by then.\<close>

lemma Get_after_SetImmutable:
  assumes "wf_store r" "wf_val m v" "(\<exists>k a off n c. v = VSlice k a off n c) \<or> (\<exists>a. v = VMap a)"
  shows "\<exists>v' m'. Store_Get key (fst (Store_SetImmutable gr key v r)) m = (Ret v', m') \<and>
           val_addr v' = Some (length m) \<and> contents m' v' = contents m v"
proof -
  let ?e = "\<lparr>Key = key, ValueRaw = v, immutable = True\<rparr>"
  have "slice_ok (fst (Store_Save gr key v True r))"
    using wf_Store_Save [OF assms(1)] by (simp add: wf_store_def)
  then have get: "Store_Get key (fst (Store_SetImmutable gr key v r)) m = Entry_Value ?e m"
    by (simp add: Store_SetImmutable_def Store_Get_lookup store_lookup_Save [OF assms(1)]
        saved_entry_def split: option.split)
  have "reflect_Indirect (ValueRaw ?e) m = Some v" using assms(3) by auto
  then obtain v' c where "Entry_Value ?e m = (Ret v', m @ [c])" "val_addr v' = Some (length m)"
    "contents (m @ [c]) v' = contents m v"
    using Entry_Value_copy [of ?e m v] assms(2,3) by auto
  then show ?thesis using get by auto
qed

lemma visit_loop_invariant:
  assumes "\<And>k v a. P a \<Longrightarrow> P (f k v a)" "P a" "visit_loop f es (m, a) = (r, m', a')"
  shows "P a'"
  using assms(2,3)
proof (induction es arbitrary: m a)
  case (Cons e es)
  then show ?case using assms(1) by (auto split: prod.splits outcome.splits) blast
qed simp

section \<open>Properties\<close>

text \<open>
  C7. A store built from the nil slice by any sequence of \<open>Save\<close> (\<open>Set\<close>, \<open>SetImmutable\<close>),
  \<open>Remove\<close> and \<open>Reset\<close> calls, whatever capacities \<open>append\<close> picks, behaves as the finite map
  that the same calls build, where a save puts the new value and flag under its key unless an
  immutable entry is there and the save is a plain \<open>Set\<close>: the entries are those of the map,
  \<open>Get\<close> answers with the \<open>Value\<close> of the map's entry or with nil, and \<open>Len\<close> is the number of
  keys of the map. Reused slots and shifted entries never show.
\<close>

theorem memstore_refines_map:
  "wf_store (run_store gr cs nil_store) \<and>
   store_lookup (run_store gr cs nil_store) = run_map cs \<and>
   Store_Get k (run_store gr cs nil_store) m =
     (case run_map cs k of Some e \<Rightarrow> Entry_Value e m | None \<Rightarrow> (Ret VNil, m)) \<and>
   Store_Len (run_store gr cs nil_store) = card (dom (run_map cs))"
proof -
  have "store_lookup nil_store = Map.empty"
    by (simp add: store_lookup_def nil_store_def store_elems_def fun_eq_iff)
  then have run: "wf_store (run_store gr cs nil_store)"
    "store_lookup (run_store gr cs nil_store) = run_map cs"
    using slice_store.run_refines [of nil_store gr cs] by (simp_all add: run_store_def run_map_def)
  then show ?thesis
    using Store_Len_card [OF run(1)] by (simp add: Store_Get_lookup wf_store_def)
qed

text \<open>
  An entry that was saved as immutable keeps its value and its flag through every sequence
  of store operations that contains no \<open>SetImmutable\<close> on its key, no removal of its key and no
  \<open>Reset\<close>: a plain \<open>Set\<close> never changes it.
\<close>

theorem immutable_entry_protected:
  assumes "wf_store r" "store_lookup r k = Some e" "immutable e"
    and "\<And>c. c \<in> set cs \<Longrightarrow> \<not> overrides k c"
  shows "store_lookup (run_store gr cs r) k = Some e"
  unfolding run_store_def using assms by (rule slice_store.run_keeps_immutable)

theorem immutable_entry_protected_witness:
  "store_lookup (run_store (\<lambda>_. 1) [CmdSave ''a'' (VInt 2) False, CmdSave ''b'' (VInt 3) True, CmdRemove ''b'']
      (fst (Store_Save (\<lambda>_. 0) ''a'' (VInt 1) True nil_store))) ''a''
    = Some \<lparr>Key = ''a'', ValueRaw = VInt 1, immutable = True\<rparr>"
proof (rule immutable_entry_protected)
  show "wf_store (fst (Store_Save (\<lambda>_. 0) ''a'' (VInt 1) True nil_store))"
    by (intro inv_intros) simp
  show "store_lookup (fst (Store_Save (\<lambda>_. 0) ''a'' (VInt 1) True nil_store)) ''a''
    = Some \<lparr>Key = ''a'', ValueRaw = VInt 1, immutable = True\<rparr>"
    by (simp add: store_lookup_def store_elems_def Store_Save_def nil_store_def Let_def)
qed auto

text \<open>
  \<open>Get\<close> after \<open>Save\<close>: the saved value is read back under its key when the key was free or
  held a mutable entry (through the copying \<open>Value\<close> when it was saved as immutable), a plain
  \<open>Set\<close> on an immutable entry leaves what \<open>Get\<close> returns as it was, and every other key is
  untouched; the flag reports exactly whether the key was new.
\<close>

theorem Store_Get_after_Save:
  assumes "wf_store r"
  shows "((case store_lookup r k of None \<Rightarrow> True | Some e \<Rightarrow> imm \<or> \<not> immutable e) \<longrightarrow>
           Store_Get k (fst (Store_Save gr k v imm r)) m =
             Entry_Value \<lparr>Key = k, ValueRaw = v, immutable = imm\<rparr> m) \<and>
         ((case store_lookup r k of None \<Rightarrow> False | Some e \<Rightarrow> \<not> imm \<and> immutable e) \<longrightarrow>
           Store_Get k (fst (Store_Save gr k v imm r)) m = Store_Get k r m) \<and>
         (k' \<noteq> k \<longrightarrow> Store_Get k' (fst (Store_Save gr k v imm r)) m = Store_Get k' r m) \<and>
         snd (snd (Store_Save gr k v imm r)) = (store_lookup r k = None)"
proof (intro conjI)
  have ok: "slice_ok r" "slice_ok (fst (Store_Save gr k v imm r))"
    using assms wf_Store_Save [OF assms] by (auto simp: wf_store_def)
  note get = Store_Get_lookup [OF ok(1)] Store_Get_lookup [OF ok(2)]
  have key: "store_lookup r k = Some e \<Longrightarrow> Key e = k" for e
    by (auto simp: store_lookup_def find_Some_iff)
  show "(case store_lookup r k of None \<Rightarrow> True | Some e \<Rightarrow> imm \<or> \<not> immutable e) \<longrightarrow>
      Store_Get k (fst (Store_Save gr k v imm r)) m =
        Entry_Value \<lparr>Key = k, ValueRaw = v, immutable = imm\<rparr> m"
    using assms key
    by (auto simp: get store_lookup_Save saved_entry_def split: option.splits
        intro!: arg_cong [where f = "\<lambda>e. Entry_Value e m"] Entry.equality)
  show "(case store_lookup r k of None \<Rightarrow> False | Some e \<Rightarrow> \<not> imm \<and> immutable e) \<longrightarrow>
      Store_Get k (fst (Store_Save gr k v imm r)) m = Store_Get k r m"
    using assms by (auto simp: get store_lookup_Save saved_entry_def split: option.splits)
  show "k' \<noteq> k \<longrightarrow> Store_Get k' (fst (Store_Save gr k v imm r)) m = Store_Get k' r m"
    using assms by (simp add: get store_lookup_Save)
  show "snd (snd (Store_Save gr k v imm r)) = (store_lookup r k = None)"
    using ok by (simp add: Store_Save_result)
qed

theorem Store_Get_after_Save_witness:
  "Store_Get ''a'' (fst (Store_Save (\<lambda>_. 0) ''a'' (VInt 1) False nil_store)) [] = (Ret (VInt 1), [])"
  using Store_Get_after_Save [OF wf_nil_store, where k = "''a''" and imm = False and gr = "\<lambda>_. 0" and v = "VInt 1" and m = "[]"]
  by (simp add: store_lookup_def nil_store_def store_elems_def Entry_Value_def)

text \<open>
  C19. Values read from an immutable entry are private copies: whatever the caller writes through
  the slice or map that \<open>Value\<close> returned (any sequence of index and key assignments), the next
  \<open>Value\<close> returns the same contents as before.
\<close>

theorem immutable_value_private:
  assumes "immutable e" "wf_val m (ValueRaw e)" "reflect_Indirect (ValueRaw e) m = Some w"
    and "wf_val m w" "(\<exists>k a off n c. w = VSlice k a off n c) \<or> (\<exists>a. w = VMap a)"
  shows "\<exists>v m1. Entry_Value e m = (Ret v, m1) \<and> contents m1 v = contents m w \<and>
           (\<forall>ws. \<exists>v2 m3. Entry_Value e (caller_writes v ws m1) = (Ret v2, m3) \<and>
                  contents m3 v2 = contents m w)"
proof -
  obtain v c where v: "Entry_Value e m = (Ret v, m @ [c])" "val_addr v = Some (length m)"
    "contents (m @ [c]) v = contents m w"
    using Entry_Value_copy assms(1,3,4,5) .
  have "\<exists>v2 m3. Entry_Value e (caller_writes v ws (m @ [c])) = (Ret v2, m3) \<and>
      contents m3 v2 = contents m w" for ws
  proof -
    let ?m2 = "caller_writes v ws (m @ [c])"
    have ext: "extends m ?m2" using v(2) by (intro caller_writes_extends) auto
    obtain v2 c2 where "Entry_Value e ?m2 = (Ret v2, ?m2 @ [c2])"
      "contents (?m2 @ [c2]) v2 = contents ?m2 w"
      using Entry_Value_copy [of e ?m2 w] assms extends_Indirect [OF ext] extends_wf_val [OF ext]
      by metis
    then show ?thesis using extends_contents [OF ext assms(4)] by auto
  qed
  with v show ?thesis by blast
qed

theorem immutable_value_private_witness:
  "\<exists>v m1. Entry_Value \<lparr>Key = ''k'', ValueRaw = VSlice KInt (Some 0) 0 2 2, immutable = True\<rparr>
       [CArr [VInt 1, VInt 2]] = (Ret v, m1) \<and>
     contents m1 v = ([VInt 1, VInt 2], []) \<and>
     (\<forall>ws. \<exists>v2 m3. Entry_Value \<lparr>Key = ''k'', ValueRaw = VSlice KInt (Some 0) 0 2 2, immutable = True\<rparr>
         (caller_writes v ws m1) = (Ret v2, m3) \<and> contents m3 v2 = ([VInt 1, VInt 2], []))"
  using immutable_value_private
    [of "\<lparr>Key = ''k'', ValueRaw = VSlice KInt (Some 0) 0 2 2, immutable = True\<rparr>"
      "[CArr [VInt 1, VInt 2]]" "VSlice KInt (Some 0) 0 2 2"]
  by (simp add: contents_def mem_arr_def)

text \<open>
  C35. The copy is made when the entry is read, not when it is saved: a caller that keeps the
  slice or the map it passed to \<open>SetImmutable\<close> and then assigns to an element or a key of its
  own value changes what \<open>Get\<close> returns for the key. After the write \<open>Get\<close> returns a copy
  (under a fresh address) whose contents are the old ones with that assignment made, whatever
  the store held before.
\<close>

theorem immutable_value_aliases_argument:
  assumes "wf_store r"
  shows "(wf_val m (VSlice k (Some a) off n c) \<and> i < n \<longrightarrow>
      (\<exists>v m'. Store_Get key (fst (Store_SetImmutable gr key (VSlice k (Some a) off n c) r))
                (slice_set m (VSlice k (Some a) off n c) i x) = (Ret v, m') \<and>
         val_addr v = Some (length m) \<and>
         slice_elems m' v = (slice_elems m (VSlice k (Some a) off n c))[i := x])) \<and>
    (wf_val m (VMap (Some a)) \<longrightarrow>
      (\<exists>v m'. Store_Get key (fst (Store_SetImmutable gr key (VMap (Some a)) r))
                (map_set m (VMap (Some a)) y x) = (Ret v, m') \<and>
         val_addr v = Some (length m) \<and>
         map_of (map_pairs m' v) = (map_of (map_pairs m (VMap (Some a))))(y \<mapsto> x)))"
proof (intro conjI impI)
  let ?s = "VSlice k (Some a) off n c"
  assume s: "wf_val m ?s \<and> i < n"
  then have "wf_val (slice_set m ?s i x) ?s" by auto
  moreover have "slice_elems (slice_set m ?s i x) ?s = (slice_elems m ?s)[i := x]"
    using s by (auto simp: drop_update_swap take_update_swap)
  ultimately show "\<exists>v m'. Store_Get key (fst (Store_SetImmutable gr key ?s r)) (slice_set m ?s i x) = (Ret v, m') \<and>
      val_addr v = Some (length m) \<and> slice_elems m' v = (slice_elems m ?s)[i := x]"
    using Get_after_SetImmutable [OF assms, of "slice_set m ?s i x" ?s key gr] s
    by (auto simp: contents_def)
next
  let ?p = "VMap (Some a)"
  assume p: "wf_val m ?p"
  then have "wf_val (map_set m ?p y x) ?p" by auto
  moreover have "map_of (map_pairs (map_set m ?p y x) ?p) = (map_of (map_pairs m ?p))(y \<mapsto> x)"
    using p by (simp add: update_conv')
  ultimately show "\<exists>v m'. Store_Get key (fst (Store_SetImmutable gr key ?p r)) (map_set m ?p y x) = (Ret v, m') \<and>
      val_addr v = Some (length m) \<and> map_of (map_pairs m' v) = (map_of (map_pairs m ?p))(y \<mapsto> x)"
    using Get_after_SetImmutable [OF assms, of "map_set m ?p y x" ?p key gr]
    by (auto simp: contents_def)
qed

theorem immutable_value_aliases_argument_witness:
  "(\<exists>v m'. Store_Get ''k'' (fst (Store_SetImmutable (\<lambda>_. 0) ''k'' (VSlice KInt (Some 0) 0 2 2) nil_store))
       (slice_set [CArr [VInt 1, VInt 2]] (VSlice KInt (Some 0) 0 2 2) 1 (VInt 9)) = (Ret v, m') \<and>
     val_addr v = Some 1 \<and> slice_elems m' v = [VInt 1, VInt 9]) \<and>
   (\<exists>v m'. Store_Get ''k'' (fst (Store_SetImmutable (\<lambda>_. 0) ''k'' (VMap (Some 0)) nil_store))
       (map_set [CMap [(VString ''a'', VInt 1)]] (VMap (Some 0)) (VString ''a'') (VInt 9)) = (Ret v, m') \<and>
     val_addr v = Some 1 \<and> map_of (map_pairs m' v) (VString ''a'') = Some (VInt 9))"
proof
  show "\<exists>v m'. Store_Get ''k'' (fst (Store_SetImmutable (\<lambda>_. 0) ''k'' (VSlice KInt (Some 0) 0 2 2) nil_store))
       (slice_set [CArr [VInt 1, VInt 2]] (VSlice KInt (Some 0) 0 2 2) 1 (VInt 9)) = (Ret v, m') \<and>
     val_addr v = Some 1 \<and> slice_elems m' v = [VInt 1, VInt 9]"
    using immutable_value_aliases_argument
      [where m = "[CArr [VInt 1, VInt 2]]" and k = KInt and a = 0 and off = 0 and n = 2 and c = 2
        and i = 1 and key = "''k''" and gr = "\<lambda>_. 0" and x = "VInt 9", OF wf_nil_store, THEN conjunct1]
    by (simp add: mem_arr_def)
  show "\<exists>v m'. Store_Get ''k'' (fst (Store_SetImmutable (\<lambda>_. 0) ''k'' (VMap (Some 0)) nil_store))
       (map_set [CMap [(VString ''a'', VInt 1)]] (VMap (Some 0)) (VString ''a'') (VInt 9)) = (Ret v, m') \<and>
     val_addr v = Some 1 \<and> map_of (map_pairs m' v) (VString ''a'') = Some (VInt 9)"
    using immutable_value_aliases_argument
      [where m = "[CMap [(VString ''a'', VInt 1)]]" and a = 0 and key = "''k''" and gr = "\<lambda>_. 0"
        and y = "VString ''a''" and x = "VInt 9", OF wf_nil_store, THEN conjunct2]
    by fastforce
qed

end
