(* ===== verification/GoTime.thy ===== *)
theory GoTime
  imports Prelude
begin

text \<open>
  The part of package \<open>time\<close> that the sources call. An instant is the number of nanoseconds
  since the zero time (1 January of year 1, UTC), so \<open>IsZero\<close> is \<open>t = 0\<close>. A duration is a
  signed 64-bit number of nanoseconds; \<open>Sub\<close> saturates at its bounds as the library does.
  \<open>Seconds\<close> is a double-precision quotient: the sum of the whole seconds and of the rounded
  fraction, rounded again to 53 bits. \<open>seconds_int\<close> is \<open>int(d.Seconds())\<close> with both roundings
  written out, and the lemmas bound what they can change.
\<close>

type_synonym time = int
type_synonym duration = int

definition Second :: duration where
  "Second = 1000000000"

definition max_duration :: duration where
  "max_duration = 9223372036854775807"

definition min_duration :: duration where
  "min_duration = -9223372036854775808"

definition Time_IsZero :: "time \<Rightarrow> bool" where
  [go_simps]: "Time_IsZero t = (t = 0)"

definition Time_Add :: "time \<Rightarrow> duration \<Rightarrow> time" where
  [go_simps]: "Time_Add t d = t + d"

definition Time_Before :: "time \<Rightarrow> time \<Rightarrow> bool" where
  [go_simps]: "Time_Before t u = (t < u)"

definition Time_After :: "time \<Rightarrow> time \<Rightarrow> bool" where
  [go_simps]: "Time_After t u = (u < t)"

definition Time_Sub :: "time \<Rightarrow> time \<Rightarrow> duration" where
  "Time_Sub t u = max min_duration (min max_duration (t - u))"

text \<open>Rounding of \<open>p / q\<close> to the nearest integer, ties to even, and to 53 significant bits.\<close>

definition round_even :: "nat \<Rightarrow> nat \<Rightarrow> nat" where
  "round_even p q =
     (let n = p div q; r = p mod q
      in if 2 * r < q \<or> (2 * r = q \<and> even n) then n else n + 1)"

function norm_shift :: "nat \<Rightarrow> nat \<Rightarrow> nat" where
  "norm_shift p q = (if p = 0 \<or> q \<le> p then 0 else Suc (norm_shift (2 * p) q))"
  by pat_completeness auto
termination
  by (relation "measure (\<lambda>(p, q). q - p)") auto

declare norm_shift.simps [simp del]

text \<open>\<open>(m, s)\<close> stands for \<open>m / 2 ^ s\<close>; the quotient is below \<open>2 ^ 53\<close> in every use.\<close>

definition float_round :: "nat \<Rightarrow> nat \<Rightarrow> nat \<times> nat" where
  "float_round p q = (let s = norm_shift p (2 ^ 52 * q) in (round_even (p * 2 ^ s) q, s))"

definition seconds_nat :: "nat \<Rightarrow> nat" where
  "seconds_nat d =
     (let sec = d div 1000000000;
          nsec = d mod 1000000000;
          (m1, s1) = float_round nsec 1000000000;
          (m2, s2) = float_round (sec * 2 ^ s1 + m1) (2 ^ s1)
      in m2 div 2 ^ s2)"

definition seconds_int :: "duration \<Rightarrow> int" where
  "seconds_int d = (if 0 \<le> d then int (seconds_nat (nat d)) else - int (seconds_nat (nat (- d))))"

section \<open>Bounds on the rounding\<close>

lemma round_even_ge: "0 < q \<Longrightarrow> n * q \<le> p \<Longrightarrow> n \<le> round_even p q"
proof -
  assume "0 < q" "n * q \<le> p"
  then have "n \<le> p div q" by (simp add: less_eq_div_iff_mult_less_eq)
  then show ?thesis by (simp add: round_even_def Let_def)
qed

lemma round_even_le:
  assumes "0 < q" "p \<le> n * q"
  shows "round_even p q \<le> n"
proof (cases "p = n * q")
  case True
  with assms show ?thesis by (simp add: round_even_def Let_def)
next
  case False
  with assms have "p < n * q" by simp
  then have "p div q < n" using assms(1) by (simp add: div_less_iff_less_mult)
  then show ?thesis by (simp add: round_even_def Let_def)
qed

lemma float_round_ge:
  assumes "0 < q" "n * q \<le> p" "float_round p q = (m, s)"
  shows "n * 2 ^ s \<le> m"
proof -
  have "(n * 2 ^ s) * q \<le> p * 2 ^ s"
    using assms(2) by (metis mult.assoc mult.commute mult_le_mono1)
  then show ?thesis
    using assms(1,3) round_even_ge [of q "n * 2 ^ s" "p * 2 ^ s"]
    by (auto simp: float_round_def Let_def)
qed

lemma float_round_le:
  assumes "0 < q" "p \<le> n * q" "float_round p q = (m, s)"
  shows "m \<le> n * 2 ^ s"
proof -
  have "p * 2 ^ s \<le> (n * 2 ^ s) * q"
    using assms(2) by (metis mult.assoc mult.commute mult_le_mono1)
  then show ?thesis
    using assms(1,3) round_even_le [of q "p * 2 ^ s" "n * 2 ^ s"]
    by (auto simp: float_round_def Let_def)
qed

lemma seconds_nat_bounds:
  "d div 1000000000 \<le> seconds_nat d \<and> seconds_nat d \<le> d div 1000000000 + 1"
proof -
  define sec nsec where "sec = d div 1000000000" and "nsec = d mod 1000000000"
  obtain m1 s1 where f1: "float_round nsec 1000000000 = (m1, s1)"
    by (cases "float_round nsec 1000000000")
  obtain m2 s2 where f2: "float_round (sec * 2 ^ s1 + m1) (2 ^ s1) = (m2, s2)"
    by (cases "float_round (sec * 2 ^ s1 + m1) (2 ^ s1)")
  have "nsec \<le> 1 * 1000000000" by (simp add: nsec_def)
  then have "m1 \<le> 1 * 2 ^ s1"
    using f1 by (intro float_round_le [of 1000000000 nsec 1 m1 s1]) simp_all
  then have "sec * 2 ^ s1 + m1 \<le> (sec + 1) * 2 ^ s1"
    by (simp add: algebra_simps)
  then have "m2 \<le> (sec + 1) * 2 ^ s2"
    using f2 by (intro float_round_le [of "2 ^ s1" "sec * 2 ^ s1 + m1" "sec + 1" m2 s2]) simp_all
  then have hi: "m2 div 2 ^ s2 \<le> sec + 1"
    by (metis div_le_mono nonzero_mult_div_cancel_right power_not_zero zero_neq_numeral)
  have "sec * 2 ^ s2 \<le> m2"
    using f2 by (intro float_round_ge [of "2 ^ s1" sec "sec * 2 ^ s1 + m1" m2 s2]) simp_all
  then have lo: "sec \<le> m2 div 2 ^ s2"
    by (simp add: less_eq_div_iff_mult_less_eq)
  have "seconds_nat d = m2 div 2 ^ s2"
    using f1 f2 by (simp add: seconds_nat_def sec_def nsec_def)
  with lo hi show ?thesis by (simp add: sec_def)
qed

lemma seconds_int_bounds:
  "0 \<le> d \<Longrightarrow> d div Second \<le> seconds_int d \<and> seconds_int d \<le> d div Second + 1"
  using seconds_nat_bounds [of "nat d"]
  by (auto simp: seconds_int_def Second_def nat_div_distrib [symmetric] zdiv_int [symmetric] nat_le_iff)

lemma seconds_nat_whole: "d mod 1000000000 = 0 \<Longrightarrow> seconds_nat d = d div 1000000000"
proof -
  assume z: "d mod 1000000000 = 0"
  define sec where "sec = d div 1000000000"
  obtain m2 s2 where f2: "float_round sec 1 = (m2, s2)" by (cases "float_round sec 1")
  have "float_round 0 1000000000 = (0, 0)"
    by (simp add: float_round_def norm_shift.simps round_even_def)
  then have "seconds_nat d = m2 div 2 ^ s2"
    using z f2 by (simp add: seconds_nat_def sec_def)
  moreover have "m2 = sec * 2 ^ s2"
    using float_round_ge [of 1 sec sec m2 s2] float_round_le [of 1 sec sec m2 s2] f2 by simp
  ultimately show ?thesis by (simp add: sec_def)
qed

lemma seconds_int_whole: "seconds_int (n * Second) = n"
proof (cases "0 \<le> n")
  case True
  then show ?thesis
    by (simp add: seconds_int_def Second_def seconds_nat_whole nat_mult_distrib)
next
  case False
  then have "nat (- (n * Second)) = nat (- n) * 1000000000"
    by (simp add: Second_def nat_mult_distrib [symmetric])
  then show ?thesis
    using False by (simp add: seconds_int_def Second_def seconds_nat_whole)
qed

text \<open>Less than one second is 0 seconds: the fraction is not rounded up to 1.\<close>

lemma norm_shift_reaches: "0 < p \<Longrightarrow> q \<le> p * 2 ^ norm_shift p q"
proof (induction p q rule: norm_shift.induct)
  case (1 p q)
  show ?case
  proof (cases "q \<le> p")
    case False
    then have "norm_shift p q = Suc (norm_shift (2 * p) q)" using "1.prems" by (simp add: norm_shift.simps [of p q])
    then show ?thesis using "1.IH" False "1.prems" by (simp add: ac_simps)
  qed (simp add: norm_shift.simps)
qed

lemma norm_shift_large:
  assumes "0 < p" "p \<le> q"
  shows "2 ^ 52 \<le> (2::nat) ^ norm_shift p (2 ^ 52 * q)"
proof -
  have "2 ^ 52 * q \<le> p * 2 ^ norm_shift p (2 ^ 52 * q)" using norm_shift_reaches [OF assms(1)] .
  also have "\<dots> \<le> q * 2 ^ norm_shift p (2 ^ 52 * q)" using assms(2) by simp
  finally show ?thesis using assms by (simp add: mult.commute)
qed

lemma round_even_upper: "round_even p q * q \<le> p + q"
proof -
  have "round_even p q * q \<le> (p div q + 1) * q" by (intro mult_le_mono1) (simp add: round_even_def Let_def)
  also have "\<dots> \<le> p + q" by (simp add: add_mult_distrib)
  finally show ?thesis .
qed

lemma seconds_nat_small:
  assumes "d < 1000000000"
  shows "seconds_nat d = 0"
proof (cases "d = 0")
  case True
  then show ?thesis using seconds_nat_whole [of 0] by simp
next
  case False
  obtain m1 s1 where f1: "float_round d 1000000000 = (m1, s1)" by (cases "float_round d 1000000000")
  obtain m2 s2 where f2: "float_round m1 (2 ^ s1) = (m2, s2)" by (cases "float_round m1 (2 ^ s1)")
  have s1: "(2::nat) ^ 52 \<le> 2 ^ s1"
    using norm_shift_large [of d 1000000000] False assms f1 by (simp add: float_round_def Let_def)
  have "m1 * 1000000000 \<le> d * 2 ^ s1 + 1000000000"
    using round_even_upper [of "d * 2 ^ s1" 1000000000] f1 by (auto simp: float_round_def Let_def)
  also have "\<dots> \<le> 999999999 * 2 ^ s1 + 1000000000" using assms by simp
  finally have up: "2 ^ s1 \<le> 2000000000 * (2 ^ s1 - m1)" and m1: "m1 < 2 ^ s1" using s1 by simp_all
  have "m2 < 2 ^ s2"
  proof (cases "m1 = 0")
    case True
    then show ?thesis using f2 by (auto simp: float_round_def Let_def round_even_def norm_shift.simps)
  next
    case False
    have s2: "(2000000000::nat) \<le> 2 ^ s2"
      using norm_shift_large [of m1 "2 ^ s1"] False m1 f2 by (auto simp: float_round_def Let_def)
    have "2 ^ s1 \<le> (2 ^ s1 - m1) * 2 ^ s2"
      using order_trans [OF up mult_le_mono1 [OF s2]] by (simp only: mult.commute)
    moreover have "m1 * 2 ^ s2 + (2 ^ s1 - m1) * 2 ^ s2 = 2 ^ s1 * 2 ^ s2"
      using m1 by (simp add: add_mult_distrib [symmetric])
    moreover have "(2 ^ s2 - 1) * 2 ^ s1 = 2 ^ s1 * 2 ^ s2 - (2::nat) ^ s1"
      by (simp only: diff_mult_distrib mult.commute [of "2 ^ s2"] mult_1)
    ultimately have "m1 * 2 ^ s2 \<le> (2 ^ s2 - 1) * 2 ^ s1" by linarith
    then have "round_even (m1 * 2 ^ s2) (2 ^ s1) \<le> 2 ^ s2 - 1" by (intro round_even_le) simp_all
    moreover have "m2 = round_even (m1 * 2 ^ s2) (2 ^ s1)" using f2 by (auto simp: float_round_def Let_def)
    moreover have "0 < (2::nat) ^ s2" by simp
    ultimately show ?thesis by linarith
  qed
  then show ?thesis using f1 f2 assms by (simp add: seconds_nat_def)
qed

lemma seconds_int_small: "d < Second \<Longrightarrow> seconds_int d \<le> 0"
  using seconds_nat_small [of "nat d"] by (auto simp: seconds_int_def Second_def)

lemma Time_Sub_exact:
  "min_duration \<le> t - u \<Longrightarrow> t - u \<le> max_duration \<Longrightarrow> Time_Sub t u = t - u"
  by (simp add: Time_Sub_def)

lemma Time_Sub_range: "min_duration \<le> Time_Sub t u \<and> Time_Sub t u \<le> max_duration"
  by (simp add: Time_Sub_def min_duration_def max_duration_def)

end
