(* ===== verification/LifeTime.thy ===== *)
theory LifeTime
  imports GoTime
begin

text \<open>
  Model of \<^verbatim>\<open>lifetime.go\<close>: the expiration instant of a session and its timer.

  \<open>time.AfterFunc(d, f)\<close> creates a timer object; the timers of the program are a list and a
  \<open>*time.Timer\<close> is an index into it. The only callback the program ever installs is
  \<open>func() { p.Destroy(sid) }\<close>, so a timer records the session id. A timer is due when it is
  active and its deadline is not after the clock; the step that runs the callback of a due
  timer is defined with the provider, whose \<open>Destroy\<close> it calls. Operations read the clock
  once: \<open>now\<close> is the value of every \<open>time.Now()\<close> they make.
\<close>

record timer =
  t_deadline :: time
  t_active :: bool
  t_sid :: string

record LifeTime =
  lt_Time :: time
  lt_timer :: "nat option"

definition zero_lifetime :: LifeTime where
  "zero_lifetime = \<lparr>lt_Time = 0, lt_timer = None\<rparr>"

text \<open>\<open>CookieExpireDelete\<close> of \<^verbatim>\<open>cookie.go\<close>: 10 November 2009, 23:00 UTC.\<close>

definition CookieExpireDelete :: time where
  "CookieExpireDelete = 63393490800 * 1000000000"

definition AfterFunc :: "time \<Rightarrow> duration \<Rightarrow> string \<Rightarrow> timer list \<Rightarrow> nat \<times> timer list" where
  "AfterFunc now d sid ts =
     (length ts, ts @ [\<lparr>t_deadline = Time_Add now d, t_active = True, t_sid = sid\<rparr>])"

definition LifeTime_Begin ::
  "time \<Rightarrow> duration \<Rightarrow> string \<Rightarrow> LifeTime \<Rightarrow> timer list \<Rightarrow> LifeTime \<times> timer list" where
  "LifeTime_Begin now d sid lt ts =
     (if d \<le> 0 then (lt, ts)
      else let (t, ts') = AfterFunc now d sid ts
           in (lt\<lparr>lt_Time := Time_Add now d, lt_timer := Some t\<rparr>, ts'))"

definition LifeTime_Revive ::
  "time \<Rightarrow> string \<Rightarrow> LifeTime \<Rightarrow> timer list \<Rightarrow> LifeTime \<times> timer list" where
  "LifeTime_Revive now sid lt ts =
     (if Time_IsZero (lt_Time lt) then (lt, ts)
      else if Time_After (lt_Time lt) now then
        let d = Time_Sub (lt_Time lt) now; (t, ts') = AfterFunc now d sid ts
        in (lt\<lparr>lt_timer := Some t\<rparr>, ts')
      else (lt, ts))"

definition timer_Reset :: "time \<Rightarrow> duration \<Rightarrow> nat \<Rightarrow> timer list \<Rightarrow> timer list" where
  "timer_Reset now d t ts =
     (if t < length ts
      then ts[t := (ts ! t)\<lparr>t_deadline := Time_Add now d, t_active := True\<rparr>] else ts)"

definition timer_Stop :: "nat \<Rightarrow> timer list \<Rightarrow> timer list" where
  "timer_Stop t ts = (if t < length ts then ts[t := (ts ! t)\<lparr>t_active := False\<rparr>] else ts)"

definition LifeTime_Shift :: "time \<Rightarrow> duration \<Rightarrow> LifeTime \<Rightarrow> timer list \<Rightarrow> timer list" where
  "LifeTime_Shift now d lt ts =
     (case lt_timer lt of
        Some t \<Rightarrow> if d > 0 then timer_Reset now d t ts else ts
      | None \<Rightarrow> ts)"

definition LifeTime_ExpireNow :: "LifeTime \<Rightarrow> timer list \<Rightarrow> LifeTime \<times> timer list" where
  "LifeTime_ExpireNow lt ts =
     (lt\<lparr>lt_Time := CookieExpireDelete\<rparr>,
      case lt_timer lt of None \<Rightarrow> ts | Some t \<Rightarrow> timer_Stop t ts)"

definition LifeTime_HasExpired :: "time \<Rightarrow> LifeTime \<Rightarrow> bool" where
  "LifeTime_HasExpired now lt =
     (if Time_IsZero (lt_Time lt) then False else Time_Before (lt_Time lt) now)"

definition timer_due :: "time \<Rightarrow> timer \<Rightarrow> bool" where
  "timer_due now t = (t_active t \<and> t_deadline t \<le> now)"

section \<open>Lemmas\<close>

lemma length_timer_Reset [simp]: "length (timer_Reset now d t ts) = length ts"
  by (simp add: timer_Reset_def)

lemma length_LifeTime_Shift [simp]: "length (LifeTime_Shift now d lt ts) = length ts"
  by (simp add: LifeTime_Shift_def split: option.split)

lemma LifeTime_Begin_nonpos: "d \<le> 0 \<Longrightarrow> LifeTime_Begin now d sid lt ts = (lt, ts)"
  by (simp add: LifeTime_Begin_def)

lemma LifeTime_Begin_pos:
  "0 < d \<Longrightarrow> LifeTime_Begin now d sid lt ts =
     (lt\<lparr>lt_Time := now + d, lt_timer := Some (length ts)\<rparr>,
      ts @ [\<lparr>t_deadline = now + d, t_active = True, t_sid = sid\<rparr>])"
  by (simp add: LifeTime_Begin_def AfterFunc_def go_simps)

text \<open>
  A revived lifetime of less than 292 years gets a timer that fires exactly at the stored
  instant; a zero or past one gets no timer.
\<close>

lemma LifeTime_Revive_deadline:
  assumes "lt_Time lt \<noteq> 0" "now < lt_Time lt" "lt_Time lt - now \<le> max_duration"
  shows "LifeTime_Revive now sid lt ts =
     (lt\<lparr>lt_timer := Some (length ts)\<rparr>,
      ts @ [\<lparr>t_deadline = lt_Time lt, t_active = True, t_sid = sid\<rparr>])"
proof -
  have "Time_Sub (lt_Time lt) now = lt_Time lt - now"
    using assms by (intro Time_Sub_exact) (auto simp: min_duration_def)
  with assms show ?thesis by (simp add: LifeTime_Revive_def AfterFunc_def go_simps)
qed

lemma LifeTime_Revive_past:
  "lt_Time lt \<le> now \<Longrightarrow> LifeTime_Revive now sid lt ts = (lt, ts)"
  by (simp add: LifeTime_Revive_def go_simps)

text \<open>\<open>Shift\<close> moves the timer and nothing else: the stored instant stays what it was.\<close>

lemma LifeTime_Shift_timer:
  "lt_timer lt = Some t \<Longrightarrow> t < length ts \<Longrightarrow> 0 < d \<Longrightarrow>
     LifeTime_Shift now d lt ts = ts[t := (ts ! t)\<lparr>t_deadline := now + d, t_active := True\<rparr>]"
  by (simp add: LifeTime_Shift_def timer_Reset_def go_simps)

lemma LifeTime_HasExpired_iff: "LifeTime_HasExpired now lt \<longleftrightarrow> lt_Time lt \<noteq> 0 \<and> lt_Time lt < now"
  by (simp add: LifeTime_HasExpired_def go_simps)

end
