(* ===== verification/Database.thy ===== *)
theory Database
  imports MemStore LifeTime
begin

text \<open>
  Model of \<^verbatim>\<open>database.go\<close>: the interface \<open>Database\<close>, the payload that memory actions send to
  the registered databases, and the pool the payloads come from.

  A Go interface value is modelled by the state \<open>'d\<close> of the database together with the record
  \<open>'d dbops\<close> of its methods; the definitions of the provider take that record as an argument.
  \<open>db_Load\<close> may allocate memory for decoded values and may change the database's own state
  (Redis connects on the first \<open>Load\<close>). Each registered database is a separate object.
  The record \<open>Session\<close> of \<^verbatim>\<open>session.go\<close> is declared here because \<open>acquireSyncPayload\<close> takes one.
  \<open>sync.Pool\<close> is a list of released payloads; \<open>Get\<close> takes the last released one, or makes a
  new one.
\<close>

record RemoteStore =
  Values :: Store
  Lifetime :: LifeTime

definition zero_remote :: RemoteStore where
  "zero_remote = \<lparr>Values = nil_store, Lifetime = zero_lifetime\<rparr>"

datatype Action =
  ActionCreate | ActionInsert | ActionUpdate | ActionDelete | ActionClear | ActionDestroy

record SyncPayload =
  SessionID :: string
  PAction :: Action
  PValue :: Entry
  PStore :: RemoteStore

definition zero_payload :: SyncPayload where
  "zero_payload =
     \<lparr>SessionID = [], PAction = ActionCreate, PValue = zero_entry, PStore = zero_remote\<rparr>"

record flashMessage =
  shouldRemove :: bool
  fvalue :: val

record Session =
  s_sid :: string
  s_isNew :: bool
  s_values :: Store
  s_flashes :: "(string \<times> flashMessage) list"
  s_mu :: rwmutex
  s_lifetime :: LifeTime

record 'd dbops =
  db_Load :: "time \<Rightarrow> string \<Rightarrow> mem \<Rightarrow> 'd \<Rightarrow> RemoteStore \<times> mem \<times> 'd"
  db_Sync :: "time \<Rightarrow> mem \<Rightarrow> SyncPayload \<Rightarrow> 'd \<Rightarrow> 'd"

fun spPool_Get :: "SyncPayload list \<Rightarrow> SyncPayload \<times> SyncPayload list" where
  "spPool_Get [] = (zero_payload, [])"
| "spPool_Get (p # ps) = (p, ps)"

definition acquireSyncPayload ::
  "Session \<Rightarrow> Action \<Rightarrow> SyncPayload list \<Rightarrow> SyncPayload \<times> SyncPayload list" where
  "acquireSyncPayload sess act pool =
     (let (p, pool') = spPool_Get pool
      in (p\<lparr>SessionID := s_sid sess,
            PStore := \<lparr>Values = s_values sess, Lifetime = s_lifetime sess\<rparr>,
            PAction := act\<rparr>, pool'))"

definition releaseSyncPayload :: "SyncPayload \<Rightarrow> SyncPayload list \<Rightarrow> SyncPayload list" where
  "releaseSyncPayload p pool =
     p\<lparr>PValue := (PValue p)\<lparr>Key := [], ValueRaw := VNil\<rparr>\<rparr> # pool"

definition syncDatabases ::
  "'d dbops \<Rightarrow> time \<Rightarrow> mem \<Rightarrow> SyncPayload \<Rightarrow> SyncPayload list \<Rightarrow> 'd list \<Rightarrow> 'd list \<times> SyncPayload list" where
  "syncDatabases ops now m payload pool dbs =
     (map (db_Sync ops now m payload) dbs, releaseSyncPayload payload pool)"

section \<open>Pooled payloads carry no key and no value\<close>

definition wf_pool :: "SyncPayload list \<Rightarrow> bool" where
  "wf_pool pool = list_all (\<lambda>p. Key (PValue p) = [] \<and> ValueRaw (PValue p) = VNil) pool"

lemma wf_pool_Nil [simp]: "wf_pool []"
  by (simp add: wf_pool_def)

lemma spPool_Get_blank:
  "wf_pool pool \<Longrightarrow> spPool_Get pool = (p, pool') \<Longrightarrow>
     Key (PValue p) = [] \<and> ValueRaw (PValue p) = VNil \<and> wf_pool pool'"
  by (cases pool) (auto simp: wf_pool_def zero_payload_def zero_entry_def)

lemma acquireSyncPayload_fields:
  assumes "acquireSyncPayload sess act pool = (p, pool')"
  shows "SessionID p = s_sid sess \<and> PAction p = act \<and>
         PStore p = \<lparr>Values = s_values sess, Lifetime = s_lifetime sess\<rparr>"
  using assms by (auto simp: acquireSyncPayload_def split: prod.splits)

lemma acquireSyncPayload_blank:
  assumes "wf_pool pool" "acquireSyncPayload sess act pool = (p, pool')"
  shows "Key (PValue p) = [] \<and> ValueRaw (PValue p) = VNil \<and> wf_pool pool'"
proof -
  obtain q where "spPool_Get pool = (q, pool')" "PValue p = PValue q"
    using assms(2) by (auto simp: acquireSyncPayload_def split: prod.splits)
  with spPool_Get_blank [OF assms(1)] show ?thesis by simp
qed

lemma wf_pool_release [inv_intros, simp]: "wf_pool pool \<Longrightarrow> wf_pool (releaseSyncPayload p pool)"
  by (simp add: wf_pool_def releaseSyncPayload_def)

lemma length_syncDatabases [simp]: "length (fst (syncDatabases ops now m p pool dbs)) = length dbs"
  by (simp add: syncDatabases_def)

end
