(* ===== verification/Session.thy ===== *)
theory Session
  imports Database
begin

text \<open>
  Model of \<^verbatim>\<open>session.go\<close>: the end-user API of one session.

  The state of the program is the record \<open>world\<close>: the clock, the timers, the memory of the
  values, the payload pool, the session objects and the provider. A \<open>*Session\<close> is an index
  into \<open>w_heap\<close>; objects are never freed, as a handler can keep a pointer to a session that
  the provider has dropped. The methods that touch one session and the value memory only are
  functions on \<open>Session \<times> mem\<close>, lifted to the world by \<open>on_session\<close>; \<open>set\<close>, \<open>Delete\<close> and
  \<open>Clear\<close> also send a payload to the databases and are functions on the world.

  Every method takes and releases the session's lock where the code does. \<open>peekFlashMessage\<close>
  returns without unlocking when it finds the message, and a panic inside a getter leaves the
  read lock taken: both are kept.
\<close>

record 'd provider =
  p_mu :: rwmutex
  p_sessions :: "(string \<times> nat) list"
  p_databases :: "'d list"

record 'd world =
  w_now :: time
  w_grow :: "nat \<Rightarrow> nat"
  w_timers :: "timer list"
  w_mem :: mem
  w_pool :: "SyncPayload list"
  w_heap :: "Session list"
  w_provider :: "'d provider"

datatype sess_error = StrconvError strconv_error | IntParseError string string val

section \<open>Methods on one session\<close>

definition Session_ID :: "Session \<Rightarrow> string" where
  "Session_ID s = s_sid s"

definition Session_IsNew :: "Session \<Rightarrow> bool" where
  "Session_IsNew s = s_isNew s"

definition Session_Get :: "string \<Rightarrow> Session \<times> mem \<Rightarrow> val outcome \<times> Session \<times> mem" where
  "Session_Get key = (\<lambda>(s, m).
     case mu_RLock (s_mu s) of
       None \<Rightarrow> (Blocked, s, m)
     | Some mu \<Rightarrow>
         (case Store_Get key (s_values s) m of
            (Ret v, m') \<Rightarrow> (Ret v, s\<lparr>s_mu := mu_RUnlock mu\<rparr>, m')
          | (Blocked, m') \<Rightarrow> (Blocked, s\<lparr>s_mu := mu\<rparr>, m')
          | (Panic e, m') \<Rightarrow> (Panic e, s\<lparr>s_mu := mu\<rparr>, m')))"

definition Session_runFlashGC :: "Session \<times> mem \<Rightarrow> unit outcome \<times> Session \<times> mem" where
  "Session_runFlashGC = (\<lambda>(s, m).
     case mu_Lock (s_mu s) of
       None \<Rightarrow> (Blocked, s, m)
     | Some mu \<Rightarrow>
         (Ret (), s\<lparr>s_flashes := filter (\<lambda>(key, v). \<not> shouldRemove v) (s_flashes s),
                    s_mu := mu_Unlock mu\<rparr>, m))"

definition Session_HasFlash :: "Session \<Rightarrow> bool" where
  "Session_HasFlash s = (0 < length (s_flashes s))"

definition Session_peekFlashMessage ::
  "string \<Rightarrow> Session \<times> mem \<Rightarrow> flashMessage option outcome \<times> Session \<times> mem" where
  "Session_peekFlashMessage key = (\<lambda>(s, m).
     case mu_Lock (s_mu s) of
       None \<Rightarrow> (Blocked, s, m)
     | Some mu \<Rightarrow>
         (case map_of (s_flashes s) key of
            Some fv \<Rightarrow> (Ret (Some fv), s\<lparr>s_mu := mu\<rparr>, m)
          | None \<Rightarrow> (Ret None, s\<lparr>s_mu := mu_Unlock mu\<rparr>, m)))"

definition Session_GetFlash :: "string \<Rightarrow> Session \<times> mem \<Rightarrow> val outcome \<times> Session \<times> mem" where
  "Session_GetFlash key sm =
     bind_out (Session_peekFlashMessage key sm) (\<lambda>r (s, m).
       case r of
         None \<Rightarrow> (Ret VNil, s, m)
       | Some fv \<Rightarrow>
           (Ret (fvalue fv),
            s\<lparr>s_flashes := AList.update key (fv\<lparr>shouldRemove := True\<rparr>) (s_flashes s)\<rparr>, m))"

definition Session_PeekFlash :: "string \<Rightarrow> Session \<times> mem \<Rightarrow> val outcome \<times> Session \<times> mem" where
  "Session_PeekFlash key sm =
     bind_out (Session_peekFlashMessage key sm) (\<lambda>r (s, m).
       case r of None \<Rightarrow> (Ret VNil, s, m) | Some fv \<Rightarrow> (Ret (fvalue fv), s, m))"

definition Session_GetString :: "string \<Rightarrow> Session \<times> mem \<Rightarrow> string outcome \<times> Session \<times> mem" where
  "Session_GetString key sm =
     bind_out (Session_Get key sm) (\<lambda>v sm'. (Ret (case v of VString s \<Rightarrow> s | _ \<Rightarrow> []), sm'))"

definition Session_GetFlashString ::
  "string \<Rightarrow> Session \<times> mem \<Rightarrow> string outcome \<times> Session \<times> mem" where
  "Session_GetFlashString key sm =
     bind_out (Session_GetFlash key sm) (\<lambda>v sm'. (Ret (case v of VString s \<Rightarrow> s | _ \<Rightarrow> []), sm'))"

definition strconv_result ::
  "int64 \<times> strconv_error option \<Rightarrow> int64 \<times> sess_error option" where
  "strconv_result r = (fst r, map_option StrconvError (snd r))"

definition Session_GetInt ::
  "string \<Rightarrow> Session \<times> mem \<Rightarrow> (int64 \<times> sess_error option) outcome \<times> Session \<times> mem" where
  "Session_GetInt key sm =
     bind_out (Session_Get key sm) (\<lambda>v sm'.
       (Ret (case v of
          VInt i \<Rightarrow> (i, None)
        | VString s \<Rightarrow> strconv_result (Atoi s)
        | _ \<Rightarrow> (- 1, Some (IntParseError ''int'' key v))), sm'))"

definition Session_GetInt64 ::
  "string \<Rightarrow> Session \<times> mem \<Rightarrow> (int64 \<times> sess_error option) outcome \<times> Session \<times> mem" where
  "Session_GetInt64 key sm =
     bind_out (Session_Get key sm) (\<lambda>v sm'.
       (Ret (case v of
          VInt64 i \<Rightarrow> (i, None)
        | VInt i \<Rightarrow> (i, None)
        | VString s \<Rightarrow> strconv_result (ParseInt s)
        | _ \<Rightarrow> (- 1, Some (IntParseError ''int64'' key v))), sm'))"

definition Session_GetBoolean ::
  "string \<Rightarrow> Session \<times> mem \<Rightarrow> (bool \<times> sess_error option) outcome \<times> Session \<times> mem" where
  "Session_GetBoolean key sm =
     bind_out (Session_Get key sm) (\<lambda>v sm'.
       (Ret (case v of
          VBool b \<Rightarrow> (b, None)
        | _ \<Rightarrow> (False, Some (IntParseError ''bool'' key v))), sm'))"

definition Session_GetAll ::
  "Session \<times> mem \<Rightarrow> (string \<times> val) list outcome \<times> Session \<times> mem" where
  "Session_GetAll = (\<lambda>(s, m).
     case mu_RLock (s_mu s) of
       None \<Rightarrow> (Blocked, s, m)
     | Some mu \<Rightarrow>
         (case visit_loop AList.update (store_elems (s_values s)) (m, []) of
            (Ret _, m', items) \<Rightarrow> (Ret items, s\<lparr>s_mu := mu_RUnlock mu\<rparr>, m')
          | (Blocked, m', items) \<Rightarrow> (Blocked, s\<lparr>s_mu := mu\<rparr>, m')
          | (Panic e, m', items) \<Rightarrow> (Panic e, s\<lparr>s_mu := mu\<rparr>, m')))"

definition Session_GetFlashes ::
  "Session \<times> mem \<Rightarrow> (string \<times> val) list outcome \<times> Session \<times> mem" where
  "Session_GetFlashes = (\<lambda>(s, m).
     case mu_Lock (s_mu s) of
       None \<Rightarrow> (Blocked, s, m)
     | Some mu \<Rightarrow>
         (Ret (map (\<lambda>(key, v). (key, fvalue v)) (s_flashes s)),
          s\<lparr>s_flashes := map (\<lambda>(key, v). (key, v\<lparr>shouldRemove := True\<rparr>)) (s_flashes s),
            s_mu := mu_Unlock mu\<rparr>, m))"

definition Session_VisitAll ::
  "(string \<Rightarrow> val \<Rightarrow> 'a \<Rightarrow> 'a) \<Rightarrow> Session \<Rightarrow> mem \<times> 'a \<Rightarrow> unit outcome \<times> mem \<times> 'a" where
  "Session_VisitAll cb s ma = Store_Visit cb (s_values s) ma"

definition Session_SetFlash :: "string \<Rightarrow> val \<Rightarrow> Session \<times> mem \<Rightarrow> unit outcome \<times> Session \<times> mem" where
  "Session_SetFlash key v = (\<lambda>(s, m).
     case mu_Lock (s_mu s) of
       None \<Rightarrow> (Blocked, s, m)
     | Some mu \<Rightarrow>
         (Ret (),
          s\<lparr>s_flashes := AList.update key \<lparr>shouldRemove = False, fvalue = v\<rparr> (s_flashes s),
            s_mu := mu_Unlock mu\<rparr>, m))"

definition Session_DeleteFlash :: "string \<Rightarrow> Session \<times> mem \<Rightarrow> unit outcome \<times> Session \<times> mem" where
  "Session_DeleteFlash key = (\<lambda>(s, m).
     case mu_Lock (s_mu s) of
       None \<Rightarrow> (Blocked, s, m)
     | Some mu \<Rightarrow>
         (Ret (), s\<lparr>s_flashes := AList.delete key (s_flashes s), s_mu := mu_Unlock mu\<rparr>, m))"

definition Session_ClearFlashes :: "Session \<times> mem \<Rightarrow> unit outcome \<times> Session \<times> mem" where
  "Session_ClearFlashes = (\<lambda>(s, m).
     case mu_Lock (s_mu s) of
       None \<Rightarrow> (Blocked, s, m)
     | Some mu \<Rightarrow> (Ret (), s\<lparr>s_flashes := [], s_mu := mu_Unlock mu\<rparr>, m))"

section \<open>Methods that update the databases\<close>

definition set_session :: "nat \<Rightarrow> Session \<Rightarrow> 'd world \<Rightarrow> 'd world" where
  "set_session i s w = w\<lparr>w_heap := (w_heap w)[i := s]\<rparr>"

definition on_session ::
  "nat \<Rightarrow> (Session \<times> mem \<Rightarrow> 'a outcome \<times> Session \<times> mem) \<Rightarrow> 'd world \<Rightarrow> 'a outcome \<times> 'd world" where
  "on_session i f w =
     (let (r, s, m) = f (w_heap w ! i, w_mem w) in (r, (set_session i s w)\<lparr>w_mem := m\<rparr>))"

definition sync_world :: "'d dbops \<Rightarrow> SyncPayload \<Rightarrow> SyncPayload list \<Rightarrow> 'd world \<Rightarrow> 'd world" where
  "sync_world ops p pool w =
     (let (dbs, pool') = syncDatabases ops (w_now w) (w_mem w) p pool (p_databases (w_provider w))
      in w\<lparr>w_pool := pool', w_provider := (w_provider w)\<lparr>p_databases := dbs\<rparr>\<rparr>)"

definition Session_set ::
  "'d dbops \<Rightarrow> nat \<Rightarrow> string \<Rightarrow> val \<Rightarrow> bool \<Rightarrow> 'd world \<Rightarrow> unit outcome \<times> 'd world" where
  "Session_set ops i key v imm w =
     (let s = w_heap w ! i in
      case mu_Lock (s_mu s) of
        None \<Rightarrow> (Blocked, w)
      | Some mu \<Rightarrow>
          let isFirst = (Store_Len (s_values s) = 0);
              (vals, entry, isNew) = Store_Save (w_grow w) key v imm (s_values s);
              s' = s\<lparr>s_values := vals, s_isNew := False, s_mu := mu_Unlock mu\<rparr>;
              action = (if \<not> isFirst then (if isNew then ActionInsert else ActionUpdate)
                        else ActionCreate);
              w' = set_session i s' w;
              (p, pool) = acquireSyncPayload s' action (w_pool w')
          in (Ret (), sync_world ops (p\<lparr>PValue := entry\<rparr>) pool w'))"

definition Session_Set ::
  "'d dbops \<Rightarrow> nat \<Rightarrow> string \<Rightarrow> val \<Rightarrow> 'd world \<Rightarrow> unit outcome \<times> 'd world" where
  "Session_Set ops i key v w = Session_set ops i key v False w"

definition Session_SetImmutable ::
  "'d dbops \<Rightarrow> nat \<Rightarrow> string \<Rightarrow> val \<Rightarrow> 'd world \<Rightarrow> unit outcome \<times> 'd world" where
  "Session_SetImmutable ops i key v w = Session_set ops i key v True w"

definition Session_Delete ::
  "'d dbops \<Rightarrow> nat \<Rightarrow> string \<Rightarrow> 'd world \<Rightarrow> bool outcome \<times> 'd world" where
  "Session_Delete ops i key w =
     (let s = w_heap w ! i in
      case mu_Lock (s_mu s) of
        None \<Rightarrow> (Blocked, w)
      | Some mu \<Rightarrow>
          let (vals, removed) = Store_Remove key (s_values s);
              s' = s\<lparr>s_values := vals, s_isNew := (if removed then False else s_isNew s),
                     s_mu := mu_Unlock mu\<rparr>;
              w' = set_session i s' w;
              (p, pool) = acquireSyncPayload s' ActionDelete (w_pool w')
          in (Ret removed,
              sync_world ops (p\<lparr>PValue := zero_entry\<lparr>Key := key\<rparr>\<rparr>) pool w'))"

definition Session_Clear :: "'d dbops \<Rightarrow> nat \<Rightarrow> 'd world \<Rightarrow> unit outcome \<times> 'd world" where
  "Session_Clear ops i w =
     (let s = w_heap w ! i in
      case mu_Lock (s_mu s) of
        None \<Rightarrow> (Blocked, w)
      | Some mu \<Rightarrow>
          let s' = s\<lparr>s_values := Store_Reset (s_values s), s_isNew := False, s_mu := mu_Unlock mu\<rparr>;
              w' = set_session i s' w;
              (p, pool) = acquireSyncPayload s' ActionClear (w_pool w')
          in (Ret (), sync_world ops p pool w'))"

section \<open>Frame lemmas\<close>

lemma sync_world_simps [simp]:
  "w_now (sync_world ops p pool w) = w_now w"
  "w_grow (sync_world ops p pool w) = w_grow w"
  "w_timers (sync_world ops p pool w) = w_timers w"
  "w_mem (sync_world ops p pool w) = w_mem w"
  "w_heap (sync_world ops p pool w) = w_heap w"
  "w_pool (sync_world ops p pool w) = releaseSyncPayload p pool"
  "p_mu (w_provider (sync_world ops p pool w)) = p_mu (w_provider w)"
  "p_sessions (w_provider (sync_world ops p pool w)) = p_sessions (w_provider w)"
  "p_databases (w_provider (sync_world ops p pool w)) =
     map (db_Sync ops (w_now w) (w_mem w) p) (p_databases (w_provider w))"
  by (simp_all add: sync_world_def syncDatabases_def)

lemma set_session_simps [simp]:
  "w_now (set_session i s w) = w_now w"
  "w_grow (set_session i s w) = w_grow w"
  "w_timers (set_session i s w) = w_timers w"
  "w_mem (set_session i s w) = w_mem w"
  "w_pool (set_session i s w) = w_pool w"
  "w_provider (set_session i s w) = w_provider w"
  "w_heap (set_session i s w) = (w_heap w)[i := s]"
  by (simp_all add: set_session_def)

lemma on_session_simps [simp]:
  "w_now (snd (on_session i f w)) = w_now w"
  "w_grow (snd (on_session i f w)) = w_grow w"
  "w_timers (snd (on_session i f w)) = w_timers w"
  "w_pool (snd (on_session i f w)) = w_pool w"
  "w_provider (snd (on_session i f w)) = w_provider w"
  "w_heap (snd (on_session i f w)) = (w_heap w)[i := fst (snd (f (w_heap w ! i, w_mem w)))]"
  "w_mem (snd (on_session i f w)) = snd (snd (f (w_heap w ! i, w_mem w)))"
  "fst (on_session i f w) = fst (f (w_heap w ! i, w_mem w))"
  by (simp_all add: on_session_def Let_def split: prod.splits)

text \<open>The payload that a memory action sends, and the session it leaves behind.\<close>

definition sent_payload :: "Session \<Rightarrow> Action \<Rightarrow> Entry \<Rightarrow> SyncPayload \<Rightarrow> bool" where
  "sent_payload s act e p =
     (SessionID p = s_sid s \<and> PAction p = act \<and> PValue p = e \<and>
      PStore p = \<lparr>Values = s_values s, Lifetime = s_lifetime s\<rparr>)"

definition set_action :: "Store \<Rightarrow> string \<Rightarrow> Action" where
  "set_action r key =
     (if store_lookup r = Map.empty then ActionCreate
      else if store_lookup r key = None then ActionInsert else ActionUpdate)"

definition after_set :: "(nat \<Rightarrow> nat) \<Rightarrow> string \<Rightarrow> val \<Rightarrow> bool \<Rightarrow> Session \<Rightarrow> Session" where
  "after_set gr key v imm s =
     s\<lparr>s_values := fst (Store_Save gr key v imm (s_values s)), s_isNew := False\<rparr>"

definition after_delete :: "string \<Rightarrow> Session \<Rightarrow> Session" where
  "after_delete key s =
     s\<lparr>s_values := fst (Store_Remove key (s_values s)),
       s_isNew := (if store_lookup (s_values s) key \<noteq> None then False else s_isNew s)\<rparr>"

definition after_clear :: "Session \<Rightarrow> Session" where
  "after_clear s = s\<lparr>s_values := Store_Reset (s_values s), s_isNew := False\<rparr>"

lemma Session_set_unlocked:
  fixes w :: "'d world"
  assumes "s_mu (w_heap w ! i) = Unlocked" "slice_ok (s_values (w_heap w ! i))"
  defines "s \<equiv> w_heap w ! i"
  shows "\<exists>p pool. Session_set ops i key v imm w =
       (Ret (), sync_world ops p pool (set_session i (after_set (w_grow w) key v imm s) w)) \<and>
     sent_payload (after_set (w_grow w) key v imm s) (set_action (s_values s) key)
       (saved_entry key v imm (store_lookup (s_values s) key)) p \<and>
     (wf_pool (w_pool w) \<longrightarrow> wf_pool pool)"
proof -
  define s' where "s' = after_set (w_grow w) key v imm s"

  obtain vals e b where save: "Store_Save (w_grow w) key v imm (s_values s) = (vals, e, b)"
    by (cases "Store_Save (w_grow w) key v imm (s_values s)") auto
  have ok: "slice_ok (s_values s)" and unl: "s_mu s = Unlocked"
    using assms(1,2) by (simp_all add: s_def)
  from Store_Save_result [OF ok, of "w_grow w" key v imm] save
  have e: "e = saved_entry key v imm (store_lookup (s_values s) key)"
    "b = (store_lookup (s_values s) key = None)" by simp_all
  have s': "s\<lparr>s_values := vals, s_isNew := False, s_mu := Unlocked\<rparr> = s'"
    using unl save by (simp add: s'_def after_set_def)
  have act: "(if Store_Len (s_values s) \<noteq> 0 then if b then ActionInsert else ActionUpdate
      else ActionCreate) = set_action (s_values s) key"
    using e(2) by (simp add: set_action_def Store_Len_lookup [OF ok])
  obtain p pool where acq:
    "acquireSyncPayload s' (set_action (s_values s) key) (w_pool w) = (p, pool)"
    by (cases "acquireSyncPayload s' (set_action (s_values s) key) (w_pool w)")
  have "Session_set ops i key v imm w =
      (Ret (), sync_world ops (p\<lparr>PValue := e\<rparr>) pool (set_session i s' w))"
    using acq unl by (simp only: Session_set_def s_def [symmetric] save Let_def s' act mu_Lock.simps
        option.case prod.case mu_Unlock.simps set_session_simps)
  moreover have "sent_payload s' (set_action (s_values s) key) e (p\<lparr>PValue := e\<rparr>)"
    using acquireSyncPayload_fields [OF acq] by (simp add: sent_payload_def)
  ultimately show ?thesis
    using e(1) acquireSyncPayload_blank [OF _ acq] unfolding s'_def by blast
qed

lemma Session_Delete_unlocked:
  fixes w :: "'d world"
  assumes "s_mu (w_heap w ! i) = Unlocked" "slice_ok (s_values (w_heap w ! i))"
  defines "s \<equiv> w_heap w ! i"
  shows "\<exists>p pool. Session_Delete ops i key w =
       (Ret (store_lookup (s_values s) key \<noteq> None),
        sync_world ops p pool (set_session i (after_delete key s) w)) \<and>
     sent_payload (after_delete key s) ActionDelete (zero_entry\<lparr>Key := key\<rparr>) p \<and>
     (wf_pool (w_pool w) \<longrightarrow> wf_pool pool)"
proof -
  define removed where "removed = (store_lookup (s_values s) key \<noteq> None)"
  define s' where "s' = after_delete key s"

  obtain vals b where rem: "Store_Remove key (s_values s) = (vals, b)"
    by (cases "Store_Remove key (s_values s)")
  have ok: "slice_ok (s_values s)" and unl: "s_mu s = Unlocked"
    using assms(1,2) by (simp_all add: s_def)
  from Store_Remove_result [OF ok, of key] rem have b: "b = removed"
    by (simp add: removed_def)
  have s': "s\<lparr>s_values := vals, s_isNew := (if removed then False else s_isNew s), s_mu := Unlocked\<rparr> = s'"
    using unl rem by (simp add: s'_def after_delete_def removed_def)
  obtain p pool where acq: "acquireSyncPayload s' ActionDelete (w_pool w) = (p, pool)"
    by (cases "acquireSyncPayload s' ActionDelete (w_pool w)")
  have "Session_Delete ops i key w =
      (Ret removed, sync_world ops (p\<lparr>PValue := zero_entry\<lparr>Key := key\<rparr>\<rparr>) pool (set_session i s' w))"
    using acq unl by (simp only: Session_Delete_def s_def [symmetric] rem Let_def b s' mu_Lock.simps
        option.case prod.case mu_Unlock.simps set_session_simps)
  moreover have "sent_payload s' ActionDelete (zero_entry\<lparr>Key := key\<rparr>) (p\<lparr>PValue := zero_entry\<lparr>Key := key\<rparr>\<rparr>)"
    using acquireSyncPayload_fields [OF acq] by (simp add: sent_payload_def)
  ultimately show ?thesis
    using acquireSyncPayload_blank [OF _ acq] unfolding s'_def removed_def by blast
qed

lemma Session_Clear_unlocked:
  fixes w :: "'d world"
  assumes "s_mu (w_heap w ! i) = Unlocked"
  defines "s \<equiv> w_heap w ! i"
  shows "\<exists>p pool. Session_Clear ops i w =
       (Ret (), sync_world ops p pool (set_session i (after_clear s) w)) \<and>
     sent_payload (after_clear s) ActionClear (PValue p) p \<and>
     (wf_pool (w_pool w) \<longrightarrow> wf_pool pool \<and> Key (PValue p) = [] \<and> ValueRaw (PValue p) = VNil)"
proof -
  define s' where "s' = after_clear s"
  have unl: "s_mu s = Unlocked" using assms(1) by (simp add: s_def)
  have s': "s\<lparr>s_values := Store_Reset (s_values s), s_isNew := False, s_mu := Unlocked\<rparr> = s'"
    using unl by (simp add: s'_def after_clear_def)
  obtain p pool where acq: "acquireSyncPayload s' ActionClear (w_pool w) = (p, pool)"
    by (cases "acquireSyncPayload s' ActionClear (w_pool w)")
  have "Session_Clear ops i w = (Ret (), sync_world ops p pool (set_session i s' w))"
    using acq unl by (simp add: Session_Clear_def s' Let_def flip: s_def)
  moreover have "sent_payload s' ActionClear (PValue p) p"
    using acquireSyncPayload_fields [OF acq] by (simp add: sent_payload_def)
  ultimately show ?thesis using acquireSyncPayload_blank [OF _ acq] unfolding s'_def by blast
qed

lemma Session_update_locked:
  assumes "s_mu (w_heap w ! i) \<noteq> Unlocked"
  shows "Session_set ops i key v imm w = (Blocked, w)" "Session_Delete ops i key w = (Blocked, w)"
    "Session_Clear ops i w = (Blocked, w)"
proof -
  have "mu_Lock (s_mu (w_heap w ! i)) = None" using assms by simp
  then show "Session_set ops i key v imm w = (Blocked, w)" "Session_Delete ops i key w = (Blocked, w)"
    "Session_Clear ops i w = (Blocked, w)"
    by (simp_all only: Session_set_def Session_Delete_def Session_Clear_def Let_def option.case)
qed

lemma Session_Get_unlocked:
  "s_mu s = Unlocked \<Longrightarrow> Store_Get key (s_values s) m = (Ret v, m') \<Longrightarrow>
     Session_Get key (s, m) = (Ret v, s, m')"
  by (simp add: Session_Get_def)

lemma s_mu_simps [simp]:
  "s_mu (after_set gr key v imm s) = s_mu s"
  "s_mu (after_delete key s) = s_mu s"
  "s_mu (after_clear s) = s_mu s"
  by (simp_all add: after_set_def after_delete_def after_clear_def)

lemma s_sid_simps [simp]:
  "s_sid (after_set gr key v imm s) = s_sid s"
  "s_sid (after_delete key s) = s_sid s"
  "s_sid (after_clear s) = s_sid s"
  by (simp_all add: after_set_def after_delete_def after_clear_def)

text \<open>A session whose lock is held for writing: no method that locks gets past it.\<close>

definition stuck :: "Session \<Rightarrow> mem \<Rightarrow> bool" where
  "stuck s m =
     ((\<forall>key. Session_Get key (s, m) = (Blocked, s, m)) \<and>
      (\<forall>key. Session_GetFlash key (s, m) = (Blocked, s, m)) \<and>
      (\<forall>key. Session_PeekFlash key (s, m) = (Blocked, s, m)) \<and>
      (\<forall>key v. Session_SetFlash key v (s, m) = (Blocked, s, m)) \<and>
      (\<forall>key. Session_DeleteFlash key (s, m) = (Blocked, s, m)) \<and>
      Session_GetAll (s, m) = (Blocked, s, m) \<and>
      Session_GetFlashes (s, m) = (Blocked, s, m) \<and>
      Session_ClearFlashes (s, m) = (Blocked, s, m) \<and>
      Session_runFlashGC (s, m) = (Blocked, s, m))"

lemma WLocked_stuck: "s_mu s = WLocked \<Longrightarrow> stuck s m"
  by (simp add: stuck_def Session_Get_def Session_GetFlash_def Session_PeekFlash_def
      Session_peekFlashMessage_def Session_SetFlash_def Session_DeleteFlash_def Session_GetAll_def
      Session_GetFlashes_def Session_ClearFlashes_def Session_runFlashGC_def)

text \<open>
  A sample session, a database that records the payloads it is sent and a world with both, for
  the instances of the theorems.
\<close>

definition sample_session :: Session where
  "sample_session =
     \<lparr>s_sid = ''x'', s_isNew = True, s_values = nil_store,
      s_flashes = [(''k'', \<lparr>shouldRemove = False, fvalue = VInt 1\<rparr>)], s_mu = Unlocked,
      s_lifetime = zero_lifetime\<rparr>"

definition rec_ops :: "SyncPayload list dbops" where
  "rec_ops = \<lparr>db_Load = (\<lambda>now sid m d. (zero_remote, m, d)), db_Sync = (\<lambda>now m p d. p # d)\<rparr>"

definition sample_world :: "SyncPayload list world" where
  "sample_world =
     \<lparr>w_now = 1000, w_grow = (\<lambda>_. 0), w_timers = [], w_mem = [], w_pool = [],
      w_heap = [sample_session],
      w_provider = \<lparr>p_mu = Unlocked, p_sessions = [(''x'', 0)], p_databases = [[]]\<rparr>\<rparr>"

section \<open>Properties\<close>

text \<open>
  C8. \<open>Set\<close> (and \<open>SetImmutable\<close>) on an unlocked session: the call returns, every registered
  database receives one payload with the session's id, the action (create for the first value
  of the session, insert for a new key, update otherwise), the written entry and the whole new
  store, the session is no longer new, and when the key did not hold an immutable entry a
  following \<open>Get\<close> of that key returns the value that \<open>Set\<close> was given.
\<close>

theorem Session_set_stores_and_syncs:
  fixes w :: "'d world"
  assumes "i < length (w_heap w)" "s_mu (w_heap w ! i) = Unlocked" "wf_store (s_values (w_heap w ! i))"
  shows "\<exists>p w'. Session_set ops i key v imm w = (Ret (), w') \<and>
     sent_payload (w_heap w' ! i) (set_action (s_values (w_heap w ! i)) key)
       (saved_entry key v imm (store_lookup (s_values (w_heap w ! i)) key)) p \<and>
     p_databases (w_provider w') =
       map (db_Sync ops (w_now w) (w_mem w) p) (p_databases (w_provider w)) \<and>
     \<not> Session_IsNew (w_heap w' ! i) \<and> s_mu (w_heap w' ! i) = Unlocked \<and>
     ((case store_lookup (s_values (w_heap w ! i)) key of None \<Rightarrow> True | Some e \<Rightarrow> \<not> immutable e) \<and> \<not> imm \<longrightarrow>
       fst (on_session i (Session_Get key) w') = Ret v)"
proof -
  let ?s = "w_heap w ! i"
  let ?s' = "after_set (w_grow w) key v imm ?s"
  have ok: "slice_ok (s_values ?s)" using assms(3) by (simp add: wf_store_def)
  obtain p pool where set:
    "Session_set ops i key v imm w = (Ret (), sync_world ops p pool (set_session i ?s' w))"
    and sent: "sent_payload ?s' (set_action (s_values ?s) key)
       (saved_entry key v imm (store_lookup (s_values ?s) key)) p"
    using Session_set_unlocked [OF assms(2) ok] by blast
  have "Store_Get key (s_values ?s') m = (Ret v, m)"
    if "case store_lookup (s_values ?s) key of None \<Rightarrow> True | Some e \<Rightarrow> \<not> immutable e" "\<not> imm" for m
  proof -
    have "wf_store (s_values ?s')"
      using wf_Store_Save [OF assms(3)] by (simp add: after_set_def)
    then have "slice_ok (s_values ?s')" by (simp add: wf_store_def)
    then show ?thesis
      using that assms(3)
      by (auto simp: Store_Get_lookup after_set_def store_lookup_Save saved_entry_def
          Entry_Value_def split: option.splits)
  qed
  then have "fst (on_session i (Session_Get key) (sync_world ops p pool (set_session i ?s' w))) = Ret v"
    if "case store_lookup (s_values ?s) key of None \<Rightarrow> True | Some e \<Rightarrow> \<not> immutable e" "\<not> imm"
    using that assms(1,2) by (simp add: Session_Get_unlocked)
  then show ?thesis
    using set sent assms(1,2)
    by (intro exI [of _ p] exI [of _ "sync_world ops p pool (set_session i ?s' w)"])
      (auto simp: Session_IsNew_def after_set_def)
qed

theorem Session_set_stores_and_syncs_witness:
  "\<exists>p w'. Session_set rec_ops 0 ''k'' (VInt 1) False sample_world = (Ret (), w') \<and>
     sent_payload (w_heap w' ! 0) (set_action (s_values (w_heap sample_world ! 0)) ''k'')
       (saved_entry ''k'' (VInt 1) False (store_lookup (s_values (w_heap sample_world ! 0)) ''k'')) p \<and>
     p_databases (w_provider w') =
       map (db_Sync rec_ops (w_now sample_world) (w_mem sample_world) p) (p_databases (w_provider sample_world)) \<and>
     \<not> Session_IsNew (w_heap w' ! 0) \<and> s_mu (w_heap w' ! 0) = Unlocked \<and>
     ((case store_lookup (s_values (w_heap sample_world ! 0)) ''k'' of None \<Rightarrow> True | Some e \<Rightarrow> \<not> immutable e)
        \<and> \<not> False \<longrightarrow> fst (on_session 0 (Session_Get ''k'') w') = Ret (VInt 1))"
  by (rule Session_set_stores_and_syncs) (simp_all add: sample_world_def sample_session_def)

text \<open>
  A flash message lives until it has been read: it survives the collection that the next
  requests run as long as nobody reads it, \<open>GetFlashes\<close> delivers it, and the collection of the
  first request after that removes it together with everything that was delivered.
\<close>

theorem flash_delivered_once:
  assumes "s_mu s = Unlocked"
  shows "\<exists>s1 s2 s3 s4 fs.
     Session_SetFlash key v (s, m) = (Ret (), s1, m) \<and>
     Session_runFlashGC (s1, m) = (Ret (), s2, m) \<and>
     Session_GetFlashes (s2, m) = (Ret fs, s3, m) \<and> map_of fs key = Some v \<and>
     Session_runFlashGC (s3, m) = (Ret (), s4, m) \<and> \<not> Session_HasFlash s4 \<and> s_mu s4 = Unlocked"
proof -
  let ?fl = "AList.update key \<lparr>shouldRemove = False, fvalue = v\<rparr> (s_flashes s)"
  let ?kept = "filter (\<lambda>(key, v). \<not> shouldRemove v) ?fl"
  have "map_of (filter (\<lambda>(key, v). \<not> shouldRemove v)
      (AList.update key \<lparr>shouldRemove = False, fvalue = v\<rparr> xs)) key =
      Some \<lparr>shouldRemove = False, fvalue = v\<rparr>" for xs
    by (induction xs) auto
  then have del: "map_of (map (\<lambda>(k, f). (k, fvalue f)) ?kept) key = Some v"
    by (simp add: map_of_map)
  have "filter (\<lambda>(key, v). \<not> shouldRemove v) (map (\<lambda>(key, v). (key, v\<lparr>shouldRemove := True\<rparr>)) xs) = []"
    for xs :: "(string \<times> flashMessage) list"
    by (induction xs) auto
  with del assms show ?thesis
    by (simp add: Session_SetFlash_def Session_runFlashGC_def Session_GetFlashes_def Session_HasFlash_def)
qed

theorem flash_delivered_once_witness:
  "\<exists>s1 s2 s3 s4 fs.
     Session_SetFlash ''n'' (VInt 2) (sample_session, []) = (Ret (), s1, []) \<and>
     Session_runFlashGC (s1, []) = (Ret (), s2, []) \<and>
     Session_GetFlashes (s2, []) = (Ret fs, s3, []) \<and> map_of fs ''n'' = Some (VInt 2) \<and>
     Session_runFlashGC (s3, []) = (Ret (), s4, []) \<and> \<not> Session_HasFlash s4 \<and> s_mu s4 = Unlocked"
  by (rule flash_delivered_once) (simp add: sample_session_def)

text \<open>
  \<open>GetFlash\<close> (and \<open>PeekFlash\<close>) of a message that exists returns its value with the session's
  lock still held, because \<open>peekFlashMessage\<close> returns before it unlocks: from then on every
  method that takes the lock blocks for ever.
\<close>

theorem GetFlash_found_never_unlocks:
  assumes "s_mu s = Unlocked" "map_of (s_flashes s) key = Some fv"
  shows "\<exists>s1 s2. Session_GetFlash key (s, m) = (Ret (fvalue fv), s1, m) \<and> stuck s1 m \<and>
           Session_PeekFlash key (s, m) = (Ret (fvalue fv), s2, m) \<and> stuck s2 m"
  using assms
  by (simp add: Session_GetFlash_def Session_PeekFlash_def Session_peekFlashMessage_def WLocked_stuck)

theorem GetFlash_found_never_unlocks_witness:
  "\<exists>s1 s2. Session_GetFlash ''k'' (sample_session, []) = (Ret (VInt 1), s1, []) \<and> stuck s1 [] \<and>
     Session_PeekFlash ''k'' (sample_session, []) = (Ret (VInt 1), s2, []) \<and> stuck s2 []"
  using GetFlash_found_never_unlocks
    [of sample_session "''k''" "\<lparr>shouldRemove = False, fvalue = VInt 1\<rparr>" "[]"]
  by (simp add: sample_session_def)

end
