(* ===== verification/Provider.thy ===== *)
theory Provider
  imports Session
begin

text \<open>
  Model of \<^verbatim>\<open>provider.go\<close>: the memory manager of the sessions. \<open>p_sessions\<close> maps a session id
  to the session object, \<open>p_databases\<close> are the registered databases.

  \<open>DestroyAll\<close> ranges over a Go map, whose order is not specified: the order is an argument,
  and the theorems hold for every order. \<open>fire_timer\<close> is the runtime running the callback of a
  timer, \<open>p.Destroy(sid)\<close>.
\<close>

definition newProvider :: "'d provider" where
  "newProvider = \<lparr>p_mu = Unlocked, p_sessions = [], p_databases = []\<rparr>"

definition with_provider :: "('d provider \<Rightarrow> 'd provider) \<Rightarrow> 'd world \<Rightarrow> 'd world" where
  "with_provider f w = w\<lparr>w_provider := f (w_provider w)\<rparr>"

definition provider_Lock :: "'d world \<Rightarrow> 'd world option" where
  "provider_Lock w =
     (case mu_Lock (p_mu (w_provider w)) of
        None \<Rightarrow> None
      | Some mu \<Rightarrow> Some (with_provider (\<lambda>p. p\<lparr>p_mu := mu\<rparr>) w))"

definition provider_Unlock :: "'d world \<Rightarrow> 'd world" where
  "provider_Unlock w = with_provider (\<lambda>p. p\<lparr>p_mu := mu_Unlock (p_mu p)\<rparr>) w"

definition RegisterDatabase :: "'d \<Rightarrow> 'd world \<Rightarrow> unit outcome \<times> 'd world" where
  "RegisterDatabase db w =
     (case provider_Lock w of
        None \<Rightarrow> (Blocked, w)
      | Some w1 \<Rightarrow>
          (Ret (), provider_Unlock
             (with_provider (\<lambda>p. p\<lparr>p_databases := p_databases p @ [db]\<rparr>) w1)))"

text \<open>
  One iteration of the loop of \<open>loadSessionFromDB\<close> and the loop. \<open>n\<close> is the number of
  databases; the accumulator holds \<open>firstValidIdx\<close>, the store and the lifetime. Results: the
  new accumulator, the memory, the database (the databases).
\<close>

definition load_body ::
  "'d dbops \<Rightarrow> time \<Rightarrow> (nat \<Rightarrow> nat) \<Rightarrow> string \<Rightarrow> nat \<Rightarrow> 'd \<Rightarrow> nat \<times> Store \<times> LifeTime \<Rightarrow> mem
     \<Rightarrow> (nat \<times> Store \<times> LifeTime) outcome \<times> mem \<times> 'd" where
  "load_body ops now gr sid n d = (\<lambda>(firstValidIdx, store, lifetime) m.
     let (storeDB, m1, d1) = db_Load ops now sid m d in
     if LifeTime_HasExpired now (Lifetime storeDB) then
       (Ret (firstValidIdx + 1, store, lifetime), m1, d1)
     else
       let lifetime1 = (if Time_IsZero (lt_Time lifetime) then Lifetime storeDB else lifetime) in
       if n = firstValidIdx then (Ret (firstValidIdx, Values storeDB, lifetime1), m1, d1)
       else
         (case Store_Visit (\<lambda>key v st. fst (Store_Set gr key v st)) (Values storeDB) (m1, store) of
            (Ret _, m2, store1) \<Rightarrow> (Ret (firstValidIdx, store1, lifetime1), m2, d1)
          | (Blocked, m2, _) \<Rightarrow> (Blocked, m2, d1)
          | (Panic e, m2, _) \<Rightarrow> (Panic e, m2, d1)))"

fun load_loop ::
  "'d dbops \<Rightarrow> time \<Rightarrow> (nat \<Rightarrow> nat) \<Rightarrow> string \<Rightarrow> nat \<Rightarrow> 'd list \<Rightarrow> nat \<times> Store \<times> LifeTime \<Rightarrow> mem
     \<Rightarrow> (nat \<times> Store \<times> LifeTime) outcome \<times> mem \<times> 'd list" where
  "load_loop ops now gr sid n [] acc m = (Ret acc, m, [])"
| "load_loop ops now gr sid n (d # ds) acc m =
     (case load_body ops now gr sid n d acc m of
        (Ret acc1, m1, d1) \<Rightarrow>
          (let (r, m2, ds1) = load_loop ops now gr sid n ds acc1 m1 in (r, m2, d1 # ds1))
      | (Blocked, m1, d1) \<Rightarrow> (Blocked, m1, d1 # ds)
      | (Panic e, m1, d1) \<Rightarrow> (Panic e, m1, d1 # ds))"

definition loadSessionFromDB ::
  "'d dbops \<Rightarrow> string \<Rightarrow> 'd world \<Rightarrow> (Store \<times> LifeTime) outcome \<times> 'd world" where
  "loadSessionFromDB ops sid w =
     (let dbs = p_databases (w_provider w);
          (r, m, dbs') = load_loop ops (w_now w) (w_grow w) sid (length dbs) dbs
                           (1, nil_store, zero_lifetime) (w_mem w);
          w1 = with_provider (\<lambda>p. p\<lparr>p_databases := dbs'\<rparr>) (w\<lparr>w_mem := m\<rparr>)
      in bind_out (r, w1) (\<lambda>(firstValidIdx, store, lifetime) w2. (Ret (store, lifetime), w2)))"

definition newSession ::
  "'d dbops \<Rightarrow> string \<Rightarrow> duration \<Rightarrow> 'd world \<Rightarrow> nat outcome \<times> 'd world" where
  "newSession ops sid expires w =
     bind_out (loadSessionFromDB ops sid w) (\<lambda>(vals, lifetime) w1.
       let (lifetime', ts) =
             (if \<not> Time_IsZero (lt_Time lifetime)
              then LifeTime_Revive (w_now w1) sid lifetime (w_timers w1)
              else LifeTime_Begin (w_now w1) expires sid lifetime (w_timers w1));
           sess = \<lparr>s_sid = sid, s_isNew = False, s_values = vals, s_flashes = [],
                   s_mu = Unlocked, s_lifetime = lifetime'\<rparr>
       in (Ret (length (w_heap w1)), w1\<lparr>w_timers := ts, w_heap := w_heap w1 @ [sess]\<rparr>))"

definition provider_Init ::
  "'d dbops \<Rightarrow> string \<Rightarrow> duration \<Rightarrow> 'd world \<Rightarrow> nat outcome \<times> 'd world" where
  "provider_Init ops sid expires w =
     bind_out (newSession ops sid expires w) (\<lambda>ref w1.
       case provider_Lock w1 of
         None \<Rightarrow> (Blocked, w1)
       | Some w2 \<Rightarrow>
           (Ret ref, provider_Unlock
              (with_provider (\<lambda>p. p\<lparr>p_sessions := AList.update sid ref (p_sessions p)\<rparr>) w2)))"

definition provider_UpdateExpiration ::
  "string \<Rightarrow> duration \<Rightarrow> 'd world \<Rightarrow> bool outcome \<times> 'd world" where
  "provider_UpdateExpiration sid expires w =
     (if expires \<le> 0 then (Ret False, w)
      else
        case provider_Lock w of
          None \<Rightarrow> (Blocked, w)
        | Some w1 \<Rightarrow>
            (let found = map_of (p_sessions (w_provider w1)) sid;
                 w2 = provider_Unlock w1 in
             case found of
               None \<Rightarrow> (Ret False, w2)
             | Some ref \<Rightarrow>
                 (Ret True,
                  w2\<lparr>w_timers := LifeTime_Shift (w_now w2) expires (s_lifetime (w_heap w2 ! ref))
                                   (w_timers w2)\<rparr>)))"

definition provider_Read ::
  "'d dbops \<Rightarrow> string \<Rightarrow> duration \<Rightarrow> 'd world \<Rightarrow> nat outcome \<times> 'd world" where
  "provider_Read ops sid expires w =
     (case provider_Lock w of
        None \<Rightarrow> (Blocked, w)
      | Some w1 \<Rightarrow>
          (case map_of (p_sessions (w_provider w1)) sid of
             Some ref \<Rightarrow>
               bind_out (on_session ref Session_runFlashGC w1) (\<lambda>_ w2. (Ret ref, provider_Unlock w2))
           | None \<Rightarrow> provider_Init ops sid expires (provider_Unlock w1)))"

definition deleteSession :: "'d dbops \<Rightarrow> nat \<Rightarrow> 'd world \<Rightarrow> 'd world" where
  "deleteSession ops ref w =
     (let sess = w_heap w ! ref;
          w1 = with_provider (\<lambda>p. p\<lparr>p_sessions := AList.delete (s_sid sess) (p_sessions p)\<rparr>) w;
          (p, pool) = acquireSyncPayload sess ActionDestroy (w_pool w1)
      in sync_world ops p pool w1)"

definition provider_Destroy :: "'d dbops \<Rightarrow> string \<Rightarrow> 'd world \<Rightarrow> unit outcome \<times> 'd world" where
  "provider_Destroy ops sid w =
     (case provider_Lock w of
        None \<Rightarrow> (Blocked, w)
      | Some w1 \<Rightarrow>
          (Ret (), provider_Unlock
             (case map_of (p_sessions (w_provider w1)) sid of
                Some ref \<Rightarrow> deleteSession ops ref w1
              | None \<Rightarrow> w1)))"

fun destroy_loop :: "'d dbops \<Rightarrow> string list \<Rightarrow> 'd world \<Rightarrow> 'd world" where
  "destroy_loop ops [] w = w"
| "destroy_loop ops (sid # order) w =
     destroy_loop ops order
       (case map_of (p_sessions (w_provider w)) sid of
          Some ref \<Rightarrow> deleteSession ops ref w
        | None \<Rightarrow> w)"

definition provider_DestroyAll ::
  "'d dbops \<Rightarrow> string list \<Rightarrow> 'd world \<Rightarrow> unit outcome \<times> 'd world" where
  "provider_DestroyAll ops order w =
     (case provider_Lock w of
        None \<Rightarrow> (Blocked, w)
      | Some w1 \<Rightarrow> (Ret (), provider_Unlock (destroy_loop ops order w1)))"

definition fire_timer :: "'d dbops \<Rightarrow> nat \<Rightarrow> 'd world \<Rightarrow> unit outcome \<times> 'd world" where
  "fire_timer ops t w =
     (if t < length (w_timers w) \<and> timer_due (w_now w) (w_timers w ! t) then
        provider_Destroy ops (t_sid (w_timers w ! t)) (w\<lparr>w_timers := timer_Stop t (w_timers w)\<rparr>)
      else (Ret (), w))"

section \<open>Frame lemmas\<close>

lemma with_provider_simps [simp]:
  "w_now (with_provider f w) = w_now w"
  "w_grow (with_provider f w) = w_grow w"
  "w_timers (with_provider f w) = w_timers w"
  "w_mem (with_provider f w) = w_mem w"
  "w_pool (with_provider f w) = w_pool w"
  "w_heap (with_provider f w) = w_heap w"
  "w_provider (with_provider f w) = f (w_provider w)"
  by (simp_all add: with_provider_def)

lemma provider_Lock_Some [simp]:
  "provider_Lock w = Some w1 \<longleftrightarrow>
     p_mu (w_provider w) = Unlocked \<and> w1 = with_provider (\<lambda>p. p\<lparr>p_mu := WLocked\<rparr>) w"
  by (auto simp: provider_Lock_def split: option.splits)

lemma provider_Lock_None [simp]: "provider_Lock w = None \<longleftrightarrow> p_mu (w_provider w) \<noteq> Unlocked"
  by (auto simp: provider_Lock_def split: option.splits)

lemma provider_Unlock_simps [simp]:
  "w_now (provider_Unlock w) = w_now w"
  "w_grow (provider_Unlock w) = w_grow w"
  "w_timers (provider_Unlock w) = w_timers w"
  "w_mem (provider_Unlock w) = w_mem w"
  "w_pool (provider_Unlock w) = w_pool w"
  "w_heap (provider_Unlock w) = w_heap w"
  "p_mu (w_provider (provider_Unlock w)) = mu_Unlock (p_mu (w_provider w))"
  "p_sessions (w_provider (provider_Unlock w)) = p_sessions (w_provider w)"
  "p_databases (w_provider (provider_Unlock w)) = p_databases (w_provider w)"
  by (simp_all add: provider_Unlock_def)

text \<open>\<open>deleteSession\<close> touches the session map, the pool and the databases only.\<close>

lemma deleteSession_sent:
  fixes w :: "'d world"
  shows "\<exists>p pool. deleteSession ops ref w =
      sync_world ops p pool
        (with_provider (\<lambda>p. p\<lparr>p_sessions := AList.delete (s_sid (w_heap w ! ref)) (p_sessions p)\<rparr>) w) \<and>
     sent_payload (w_heap w ! ref) ActionDestroy (PValue p) p \<and>
     (wf_pool (w_pool w) \<longrightarrow> wf_pool pool \<and> Key (PValue p) = [] \<and> ValueRaw (PValue p) = VNil)"
proof -
  obtain p pool where acq: "acquireSyncPayload (w_heap w ! ref) ActionDestroy (w_pool w) = (p, pool)"
    by (cases "acquireSyncPayload (w_heap w ! ref) ActionDestroy (w_pool w)")
  then show ?thesis
    using acquireSyncPayload_fields [OF acq] acquireSyncPayload_blank [OF _ acq]
    by (auto simp: deleteSession_def sent_payload_def Let_def)
qed

lemma deleteSession_simps [simp]:
  "w_now (deleteSession ops ref w) = w_now w"
  "w_grow (deleteSession ops ref w) = w_grow w"
  "w_timers (deleteSession ops ref w) = w_timers w"
  "w_mem (deleteSession ops ref w) = w_mem w"
  "w_heap (deleteSession ops ref w) = w_heap w"
  "p_mu (w_provider (deleteSession ops ref w)) = p_mu (w_provider w)"
  "p_sessions (w_provider (deleteSession ops ref w)) =
     AList.delete (s_sid (w_heap w ! ref)) (p_sessions (w_provider w))"
  using deleteSession_sent [of ops ref w] by auto

end
