(* ===== verification/WorldInv.thy ===== *)
theory WorldInv
  imports Provider
begin

text \<open>
  The well-formedness invariant of the program state and its preservation by every operation of
  sessions and provider.

  \<open>wf_world\<close>: the map of the sessions has distinct keys and each key is the id of the object it
  points to; every session object has a well-formed store and flash map, and its timer (if any)
  exists and destroys this session's id; pooled payloads are blank; every database is in a state
  its own invariant allows.

  The locale \<open>wf_database\<close> is what the provider relies on of a database: \<open>Load\<close> returns a store
  with distinct keys and a lifetime without a timer, and \<open>Load\<close> and \<open>Sync\<close> keep the database's
  invariant. It is interpreted by the storage back-ends.
\<close>

definition timers_le :: "timer list \<Rightarrow> timer list \<Rightarrow> bool" where
  "timers_le ts ts' = (length ts \<le> length ts' \<and> (\<forall>t < length ts. t_sid (ts' ! t) = t_sid (ts ! t)))"

definition wf_timer :: "timer list \<Rightarrow> Session \<Rightarrow> bool" where
  "wf_timer ts s =
     (case lt_timer (s_lifetime s) of
        None \<Rightarrow> True | Some t \<Rightarrow> t < length ts \<and> t_sid (ts ! t) = s_sid s)"

definition wf_session :: "timer list \<Rightarrow> Session \<Rightarrow> bool" where
  "wf_session ts s = (wf_store (s_values s) \<and> wf_map (s_flashes s) \<and> wf_timer ts s)"

definition wf_sessions :: "(string \<times> nat) list \<Rightarrow> Session list \<Rightarrow> bool" where
  "wf_sessions m heap = (wf_map m \<and> (\<forall>(k, i) \<in> set m. i < length heap \<and> s_sid (heap ! i) = k))"

definition wf_world :: "('d \<Rightarrow> bool) \<Rightarrow> 'd world \<Rightarrow> bool" where
  "wf_world dbinv w =
     (wf_pool (w_pool w) \<and> list_all (wf_session (w_timers w)) (w_heap w) \<and>
      wf_sessions (p_sessions (w_provider w)) (w_heap w) \<and>
      list_all dbinv (p_databases (w_provider w)))"

section \<open>Timers\<close>

lemma timers_le_refl [simp]: "timers_le ts ts"
  by (simp add: timers_le_def)

lemma timers_le_append [simp]: "timers_le ts (ts @ us)"
  by (simp add: timers_le_def nth_append)

lemma timers_le_update [simp]: "t_sid x = t_sid (ts ! t) \<Longrightarrow> timers_le ts (ts[t := x])"
  by (cases "t < length ts") (auto simp: timers_le_def nth_list_update)

lemma timers_le_Shift [simp]: "timers_le ts (LifeTime_Shift now d lt ts)"
  by (simp add: LifeTime_Shift_def timer_Reset_def split: option.split)

lemma timers_le_Stop [simp]: "timers_le ts (timer_Stop t ts)"
  by (simp add: timer_Stop_def)

lemma timers_le_Begin [simp]: "timers_le ts (snd (LifeTime_Begin now d sid lt ts))"
  by (simp add: LifeTime_Begin_def AfterFunc_def)

lemma timers_le_Revive [simp]: "timers_le ts (snd (LifeTime_Revive now sid lt ts))"
  by (simp add: LifeTime_Revive_def AfterFunc_def Let_def)

lemma wf_timer_mono: "timers_le ts ts' \<Longrightarrow> wf_timer ts s \<Longrightarrow> wf_timer ts' s"
  by (auto simp: wf_timer_def timers_le_def split: option.splits)

lemma wf_session_mono: "timers_le ts ts' \<Longrightarrow> wf_session ts s \<Longrightarrow> wf_session ts' s"
  by (auto simp: wf_session_def intro: wf_timer_mono)

lemma wf_heap_mono:
  "timers_le ts ts' \<Longrightarrow> list_all (wf_session ts) h \<Longrightarrow> list_all (wf_session ts') h"
  by (auto simp: list_all_iff intro: wf_session_mono)

section \<open>Sessions\<close>

lemma wf_sessions_delete: "wf_sessions m h \<Longrightarrow> wf_sessions (AList.delete k m) h"
  by (auto simp: wf_sessions_def AList.delete_eq)

lemma wf_sessions_heap_update:
  "wf_sessions m h \<Longrightarrow> s_sid s = s_sid (h ! i) \<Longrightarrow> wf_sessions m (h[i := s])"
  by (cases "i < length h") (auto simp: wf_sessions_def nth_list_update)

lemma wf_sessions_heap_append: "wf_sessions m h \<Longrightarrow> wf_sessions m (h @ hs)"
  by (fastforce simp: wf_sessions_def nth_append)

lemma wf_sessions_insert:
  "wf_sessions m h \<Longrightarrow> i < length h \<Longrightarrow> s_sid (h ! i) = k \<Longrightarrow> wf_sessions (AList.update k i m) h"
  using set_alist_update [of k i m] by (fastforce simp: wf_sessions_def)

lemma wf_sessions_lookup:
  "wf_sessions m h \<Longrightarrow> map_of m k = Some i \<Longrightarrow> i < length h \<and> s_sid (h ! i) = k"
  by (auto simp: wf_sessions_def dest!: map_of_SomeD)

section \<open>Preservation by the session methods\<close>

text \<open>A method on one session that keeps the session well-formed and its id.\<close>

definition keeps_session :: "(Session \<times> mem \<Rightarrow> 'a outcome \<times> Session \<times> mem) \<Rightarrow> bool" where
  "keeps_session f =
     (\<forall>ts s m. wf_session ts s \<longrightarrow>
        wf_session ts (fst (snd (f (s, m)))) \<and> s_sid (fst (snd (f (s, m)))) = s_sid s)"

lemma wf_session_mu [simp]: "wf_session ts (s\<lparr>s_mu := mu\<rparr>) = wf_session ts s"
  by (simp add: wf_session_def wf_timer_def split: option.split)

lemma wf_session_flashes [simp]:
  "wf_session ts (s\<lparr>s_flashes := fl\<rparr>) = (wf_store (s_values s) \<and> wf_map fl \<and> wf_timer ts s)"
  by (simp add: wf_session_def wf_timer_def split: option.split)

lemma wf_timer_simps [simp]:
  "wf_timer ts (s\<lparr>s_values := vs\<rparr>) = wf_timer ts s"
  "wf_timer ts (s\<lparr>s_isNew := b\<rparr>) = wf_timer ts s"
  "wf_timer ts (s\<lparr>s_mu := mu\<rparr>) = wf_timer ts s"
  "wf_timer ts (s\<lparr>s_flashes := fl\<rparr>) = wf_timer ts s"
  by (simp_all add: wf_timer_def split: option.split)

lemma keeps_session_bind:
  assumes "keeps_session f" "\<And>a. keeps_session (\<lambda>sm. g a sm)"
  shows "keeps_session (\<lambda>sm. bind_out (f sm) g)"
  unfolding keeps_session_def
proof (intro allI impI)
  fix ts s m assume wf: "wf_session ts s"
  obtain r s' m' where f: "f (s, m) = (r, s', m')" by (cases "f (s, m)") auto
  have s': "wf_session ts s'" "s_sid s' = s_sid s"
    using assms(1) wf f unfolding keeps_session_def by (metis fst_conv snd_conv)+
  show "wf_session ts (fst (snd (bind_out (f (s, m)) g))) \<and>
      s_sid (fst (snd (bind_out (f (s, m)) g))) = s_sid s"
    using f s' assms(2) unfolding keeps_session_def by (cases r) simp_all
qed

lemma keeps_session_Get [inv_intros]: "keeps_session (Session_Get key)"
  by (simp add: keeps_session_def Session_Get_def split: option.split prod.split outcome.split)

lemma keeps_session_runFlashGC [inv_intros]: "keeps_session Session_runFlashGC"
  by (auto simp: keeps_session_def Session_runFlashGC_def wf_session_def split: option.split)

lemma keeps_session_peek [inv_intros]: "keeps_session (Session_peekFlashMessage key)"
  by (simp add: keeps_session_def Session_peekFlashMessage_def split: option.split)

lemma keeps_session_id: "(\<And>sm. snd (f sm) = sm) \<Longrightarrow> keeps_session f"
  by (simp add: keeps_session_def)

lemma keeps_session_GetFlash [inv_intros]: "keeps_session (Session_GetFlash key)"
  unfolding Session_GetFlash_def
  by (intro keeps_session_bind inv_intros)
    (auto simp: keeps_session_def wf_session_def split: option.split)

lemma keeps_session_PeekFlash [inv_intros]: "keeps_session (Session_PeekFlash key)"
  unfolding Session_PeekFlash_def
  by (intro keeps_session_bind inv_intros keeps_session_id) (auto split: option.split prod.split)

lemma keeps_session_GetString [inv_intros]: "keeps_session (Session_GetString key)"
  unfolding Session_GetString_def by (intro keeps_session_bind inv_intros keeps_session_id) simp

lemma keeps_session_GetFlashString [inv_intros]: "keeps_session (Session_GetFlashString key)"
  unfolding Session_GetFlashString_def
  by (intro keeps_session_bind inv_intros keeps_session_id) simp

lemma keeps_session_GetInt [inv_intros]: "keeps_session (Session_GetInt key)"
  unfolding Session_GetInt_def by (intro keeps_session_bind inv_intros keeps_session_id) simp

lemma keeps_session_GetInt64 [inv_intros]: "keeps_session (Session_GetInt64 key)"
  unfolding Session_GetInt64_def by (intro keeps_session_bind inv_intros keeps_session_id) simp

lemma keeps_session_GetBoolean [inv_intros]: "keeps_session (Session_GetBoolean key)"
  unfolding Session_GetBoolean_def by (intro keeps_session_bind inv_intros keeps_session_id) simp

lemma keeps_session_GetAll [inv_intros]: "keeps_session Session_GetAll"
  by (simp add: keeps_session_def Session_GetAll_def split: option.split prod.split outcome.split)

lemma keeps_session_GetFlashes [inv_intros]: "keeps_session Session_GetFlashes"
  by (auto simp: keeps_session_def Session_GetFlashes_def wf_session_def split: option.split)

lemma keeps_session_SetFlash [inv_intros]: "keeps_session (Session_SetFlash key v)"
  by (auto simp: keeps_session_def Session_SetFlash_def wf_session_def split: option.split)

lemma keeps_session_DeleteFlash [inv_intros]: "keeps_session (Session_DeleteFlash key)"
  by (auto simp: keeps_session_def Session_DeleteFlash_def wf_session_def split: option.split)

lemma keeps_session_ClearFlashes [inv_intros]: "keeps_session Session_ClearFlashes"
  by (auto simp: keeps_session_def Session_ClearFlashes_def wf_session_def split: option.split)

lemma wf_session_after [simp]:
  "wf_session ts s \<Longrightarrow> wf_session ts (after_set gr key v imm s)"
  "wf_session ts s \<Longrightarrow> wf_session ts (after_delete key s)"
  "wf_session ts s \<Longrightarrow> wf_session ts (after_clear s)"
  by (auto simp: wf_session_def after_set_def after_delete_def after_clear_def intro: inv_intros)

lemma wf_set_session:
  assumes "wf_world dbinv w" "wf_session (w_timers w) s" "s_sid s = s_sid (w_heap w ! i)"
  shows "wf_world dbinv (set_session i s w)"
  using assms
  by (auto simp: wf_world_def wf_sessions_heap_update list_all_iff dest!: set_update_subset_insert [THEN subsetD])

lemma wf_on_session [inv_intros]:
  assumes "wf_world dbinv w" "i < length (w_heap w)" "keeps_session f"
  shows "wf_world dbinv (snd (on_session i f w))"
proof -
  obtain r s m where f: "f (w_heap w ! i, w_mem w) = (r, s, m)"
    by (cases "f (w_heap w ! i, w_mem w)") auto
  have "wf_session (w_timers w) (w_heap w ! i)"
    using assms(1,2) by (simp add: wf_world_def list_all_length)
  then have "wf_session (w_timers w) s" "s_sid s = s_sid (w_heap w ! i)"
    using assms(3) f unfolding keeps_session_def by (metis fst_conv snd_conv)+
  then have "wf_world dbinv (set_session i s w)" using assms(1) by (rule wf_set_session [rotated])
  then show ?thesis using f by (simp add: on_session_def wf_world_def)
qed

section \<open>Preservation by the operations that reach the databases\<close>

locale wf_database =
  fixes ops :: "'d dbops" and dbinv :: "'d \<Rightarrow> bool"
  assumes load_wf: "dbinv d \<Longrightarrow> db_Load ops now sid m d = (r, m', d') \<Longrightarrow>
      wf_store (Values r) \<and> lt_timer (Lifetime r) = None \<and> dbinv d'"
    and sync_wf: "dbinv d \<Longrightarrow> wf_store (Values (PStore p)) \<Longrightarrow> dbinv (db_Sync ops now m p d)"
begin

lemma wf_sync_world:
  assumes "wf_world dbinv w" "wf_pool pool" "wf_store (Values (PStore p))"
  shows "wf_world dbinv (sync_world ops p pool w)"
  using assms by (auto simp: wf_world_def list_all_iff sync_wf)

lemma wf_sync_session:
  assumes "wf_world dbinv w" "wf_session (w_timers w) s" "s_sid s = s_sid (w_heap w ! i)"
    "sent_payload s act e p" "wf_pool pool"
  shows "wf_world dbinv (sync_world ops p pool (set_session i s w))"
proof (rule wf_sync_world)
  show "wf_world dbinv (set_session i s w)" using assms by (intro wf_set_session)
  show "wf_store (Values (PStore p))" using assms(2,4) by (simp add: sent_payload_def wf_session_def)
qed (rule assms)

lemma wf_Session_set:
  assumes "wf_world dbinv w" "i < length (w_heap w)"
  shows "wf_world dbinv (snd (Session_set ops i key v imm w))"
proof (cases "s_mu (w_heap w ! i) = Unlocked")
  case True
  have wf: "wf_session (w_timers w) (w_heap w ! i)" "wf_pool (w_pool w)"
    using assms by (auto simp: wf_world_def list_all_length)
  then have "slice_ok (s_values (w_heap w ! i))" by (simp add: wf_session_def wf_store_def)
  from Session_set_unlocked [OF True this, of ops key v imm] wf assms(1) show ?thesis
    by (auto intro!: wf_sync_session)
next
  case False
  then show ?thesis using assms(1) by (simp add: Session_update_locked)
qed

lemma wf_Session_Delete:
  assumes "wf_world dbinv w" "i < length (w_heap w)"
  shows "wf_world dbinv (snd (Session_Delete ops i key w))"
proof (cases "s_mu (w_heap w ! i) = Unlocked")
  case True
  have wf: "wf_session (w_timers w) (w_heap w ! i)" "wf_pool (w_pool w)"
    using assms by (auto simp: wf_world_def list_all_length)
  then have "slice_ok (s_values (w_heap w ! i))" by (simp add: wf_session_def wf_store_def)
  from Session_Delete_unlocked [OF True this, of ops key] wf assms(1) show ?thesis
    by (auto intro!: wf_sync_session)
next
  case False
  then show ?thesis using assms(1) by (simp add: Session_update_locked)
qed

lemma wf_Session_Clear:
  assumes "wf_world dbinv w" "i < length (w_heap w)"
  shows "wf_world dbinv (snd (Session_Clear ops i w))"
proof (cases "s_mu (w_heap w ! i) = Unlocked")
  case True
  have wf: "wf_session (w_timers w) (w_heap w ! i)" "wf_pool (w_pool w)"
    using assms by (auto simp: wf_world_def list_all_length)
  from Session_Clear_unlocked [OF True, of ops] wf assms(1) show ?thesis
    by (auto intro!: wf_sync_session)
next
  case False
  then show ?thesis using assms(1) by (simp add: Session_update_locked)
qed

lemma wf_load_body:
  assumes "dbinv d" "wf_store store" "lt_timer lifetime = None"
    "load_body ops now gr sid n d (f, store, lifetime) m = (r, m', d')"
  shows "dbinv d' \<and> (\<forall>f' st lt. r = Ret (f', st, lt) \<longrightarrow> wf_store st \<and> lt_timer lt = None)"
proof -
  obtain storeDB m1 d1 where load: "db_Load ops now sid m d = (storeDB, m1, d1)"
    by (cases "db_Load ops now sid m d") auto
  have d1: "wf_store (Values storeDB)" "lt_timer (Lifetime storeDB) = None" "dbinv d1"
    using load_wf [OF _ load] assms(1) by auto
  obtain rv m2 store1 where vis:
    "Store_Visit (\<lambda>key v st. fst (Store_Set gr key v st)) (Values storeDB) (m1, store) = (rv, m2, store1)"
    by (cases "Store_Visit (\<lambda>key v st. fst (Store_Set gr key v st)) (Values storeDB) (m1, store)") auto
  have "wf_store store1"
    using vis unfolding Store_Visit_def Store_Set_def
    by (rule visit_loop_invariant [where P = wf_store and a = store, rotated 2])
      (auto intro: wf_Store_Save assms(2))
  with assms d1 load vis show ?thesis
    by (cases rv) (auto simp: load_body_def Let_def split: if_splits)
qed

lemma wf_load_loop:
  assumes "list_all dbinv ds" "wf_store (fst (snd acc))" "lt_timer (snd (snd acc)) = None"
    "load_loop ops now gr sid n ds acc m = (r, m', ds')"
  shows "list_all dbinv ds' \<and> (\<forall>f' st lt. r = Ret (f', st, lt) \<longrightarrow> wf_store st \<and> lt_timer lt = None)"
  using assms
proof (induction ds arbitrary: acc m r m' ds')
  case (Cons d ds)
  obtain f st lt where acc: "acc = (f, st, lt)" by (cases acc) auto
  obtain rb m1 d1 where body: "load_body ops now gr sid n d acc m = (rb, m1, d1)"
    by (cases "load_body ops now gr sid n d acc m") auto
  have b: "dbinv d1 \<and> (\<forall>f' st lt. rb = Ret (f', st, lt) \<longrightarrow> wf_store st \<and> lt_timer lt = None)"
    by (rule wf_load_body [OF _ _ _ body [unfolded acc]]) (use Cons.prems acc in auto)
  show ?case
  proof (cases rb)
    case (Ret acc1)
    obtain r2 m2 ds2 where rest: "load_loop ops now gr sid n ds acc1 m1 = (r2, m2, ds2)"
      by (cases "load_loop ops now gr sid n ds acc1 m1") auto
    have "wf_store (fst (snd acc1))" "lt_timer (snd (snd acc1)) = None"
      using b Ret by (cases acc1; simp)+
    from Cons.IH [OF _ this rest] have
      "list_all dbinv ds2 \<and> (\<forall>f' st lt. r2 = Ret (f', st, lt) \<longrightarrow> wf_store st \<and> lt_timer lt = None)"
      using Cons.prems(1) by simp
    then show ?thesis
      using Cons.prems(4) b body Ret rest by auto
  qed (use b Cons.prems(1,4) body in auto)
qed auto

end

section \<open>Preservation by the provider\<close>

lemma wf_provider_mu [simp]:
  "wf_world dbinv (with_provider (\<lambda>p. p\<lparr>p_mu := mu\<rparr>) w) = wf_world dbinv w"
  by (simp add: wf_world_def)

lemma wf_provider_Unlock [simp]: "wf_world dbinv (provider_Unlock w) = wf_world dbinv w"
  by (simp add: wf_world_def)

lemma wf_world_timers:
  "wf_world dbinv w \<Longrightarrow> timers_le (w_timers w) ts \<Longrightarrow> wf_world dbinv (w\<lparr>w_timers := ts\<rparr>)"
  by (auto simp: wf_world_def intro: wf_heap_mono)

lemma wf_world_now: "wf_world dbinv (w\<lparr>w_now := t\<rparr>) = wf_world dbinv w"
  by (simp add: wf_world_def)

text \<open>The lifetime a new session starts with, and the timers after it.\<close>

definition start_lifetime ::
  "time \<Rightarrow> duration \<Rightarrow> string \<Rightarrow> LifeTime \<Rightarrow> timer list \<Rightarrow> LifeTime \<times> timer list" where
  "start_lifetime now expires sid lifetime ts =
     (if \<not> Time_IsZero (lt_Time lifetime) then LifeTime_Revive now sid lifetime ts
      else LifeTime_Begin now expires sid lifetime ts)"

lemma start_lifetime_cases:
  assumes "lt_timer lt = None" "start_lifetime now expires sid lt ts = (lt', ts')"
  shows "lt_timer lt' = None \<and> ts' = ts \<or>
    lt_timer lt' = Some (length ts) \<and> (\<exists>d. ts' = ts @ [\<lparr>t_deadline = d, t_active = True, t_sid = sid\<rparr>])"
  using assms
  by (auto simp: start_lifetime_def LifeTime_Revive_def LifeTime_Begin_def AfterFunc_def Let_def
      split: if_splits)

lemma start_lifetime_wf:
  assumes "lt_timer lt = None" "start_lifetime now expires sid lt ts = (lt', ts')"
    "s_lifetime s = lt'" "s_sid s = sid"
  shows "timers_le ts ts' \<and> wf_timer ts' s"
  using start_lifetime_cases [OF assms(1,2)] assms(3,4) by (auto simp: wf_timer_def)

context wf_database
begin

lemma wf_loadSessionFromDB:
  assumes "wf_world dbinv w" "loadSessionFromDB ops sid w = (r, w')"
  shows "wf_world dbinv w' \<and> (\<forall>st lt. r = Ret (st, lt) \<longrightarrow> wf_store st \<and> lt_timer lt = None)"
proof -
  let ?dbs = "p_databases (w_provider w)"
  obtain rl m dbs' where loop: "load_loop ops (w_now w) (w_grow w) sid (length ?dbs) ?dbs
      (1, nil_store, zero_lifetime) (w_mem w) = (rl, m, dbs')"
    by (cases "load_loop ops (w_now w) (w_grow w) sid (length ?dbs) ?dbs
      (1, nil_store, zero_lifetime) (w_mem w)") auto
  have "list_all dbinv dbs' \<and> (\<forall>f st lt. rl = Ret (f, st, lt) \<longrightarrow> wf_store st \<and> lt_timer lt = None)"
    by (rule wf_load_loop [OF _ _ _ loop])
      (use assms(1) in \<open>auto simp: wf_world_def zero_lifetime_def\<close>)
  with assms loop show ?thesis
    by (cases rl) (auto simp: loadSessionFromDB_def Let_def wf_world_def)
qed

lemma wf_newSession:
  assumes "wf_world dbinv w" "newSession ops sid expires w = (r, w')"
  shows "wf_world dbinv w' \<and> (\<forall>ref. r = Ret ref \<longrightarrow> ref < length (w_heap w') \<and> s_sid (w_heap w' ! ref) = sid)"
proof -
  obtain rl w1 where load: "loadSessionFromDB ops sid w = (rl, w1)"
    by (cases "loadSessionFromDB ops sid w")
  note wf1 = wf_loadSessionFromDB [OF assms(1) load]
  show ?thesis
  proof (cases rl)
    case (Ret p)
    obtain vals lt where p: "p = (vals, lt)" by (cases p)
    obtain lt' ts where st: "start_lifetime (w_now w1) expires sid lt (w_timers w1) = (lt', ts)"
      by (cases "start_lifetime (w_now w1) expires sid lt (w_timers w1)")
    define s where "s = \<lparr>s_sid = sid, s_isNew = False, s_values = vals, s_flashes = [],
      s_mu = Unlocked, s_lifetime = lt'\<rparr>"
    have eq: "r = Ret (length (w_heap w1))" "w' = w1\<lparr>w_timers := ts, w_heap := w_heap w1 @ [s]\<rparr>"
      using assms(2) load Ret p st
      by (auto simp: newSession_def s_def start_lifetime_def [symmetric] Let_def)
    have "timers_le (w_timers w1) ts" "wf_timer ts s"
      using start_lifetime_wf [OF _ st, of s] wf1 Ret p by (auto simp: s_def)
    moreover have "wf_session ts s"
      using calculation(2) wf1 Ret p by (simp add: wf_session_def s_def)
    ultimately show ?thesis
      using wf1 eq by (auto simp: wf_world_def s_def wf_sessions_heap_append intro: wf_heap_mono)
  qed (use assms(2) load wf1 in \<open>auto simp: newSession_def\<close>)
qed

lemma wf_provider_Init:
  assumes "wf_world dbinv w" "provider_Init ops sid expires w = (r, w')"
  shows "wf_world dbinv w' \<and> (\<forall>ref. r = Ret ref \<longrightarrow> ref < length (w_heap w') \<and> s_sid (w_heap w' ! ref) = sid)"
proof -
  obtain rn w1 where new: "newSession ops sid expires w = (rn, w1)"
    by (cases "newSession ops sid expires w")
  note wf1 = wf_newSession [OF assms(1) new]
  show ?thesis
  proof (cases "\<exists>ref. rn = Ret ref \<and> p_mu (w_provider w1) = Unlocked")
    case True
    then obtain ref where ref: "rn = Ret ref" "p_mu (w_provider w1) = Unlocked" by blast
    have "provider_Lock w1 = Some (with_provider (\<lambda>p. p\<lparr>p_mu := WLocked\<rparr>) w1)"
      using ref(2) by simp
    then show ?thesis
      using assms(2) new ref wf1
      by (auto simp: provider_Init_def wf_world_def simp del: provider_Lock_Some intro: wf_sessions_insert)
  next
    case False
    then show ?thesis
      using assms(2) new wf1 by (cases rn) (auto simp: provider_Init_def split: option.splits)
  qed
qed

lemma wf_provider_Read:
  assumes "wf_world dbinv w" "provider_Read ops sid expires w = (r, w')"
  shows "wf_world dbinv w' \<and> (\<forall>ref. r = Ret ref \<longrightarrow> ref < length (w_heap w') \<and> s_sid (w_heap w' ! ref) = sid)"
proof (cases "p_mu (w_provider w) = Unlocked")
  case True
  define w1 where "w1 = with_provider (\<lambda>p. p\<lparr>p_mu := WLocked\<rparr>) w"
  have lock: "provider_Lock w = Some w1" using True by (simp add: w1_def)
  have wf1: "wf_world dbinv w1" using assms(1) by (simp add: w1_def)
  show ?thesis
  proof (cases "map_of (p_sessions (w_provider w1)) sid")
    case None
    then have "provider_Init ops sid expires (provider_Unlock w1) = (r, w')"
      using assms(2) lock by (simp add: provider_Read_def del: provider_Lock_Some)
    then show ?thesis using wf_provider_Init [of "provider_Unlock w1"] wf1 by simp
  next
    case (Some ref)
    have ref: "ref < length (w_heap w1)" "s_sid (w_heap w1 ! ref) = sid"
      using wf_sessions_lookup [OF _ Some] wf1 by (auto simp: wf_world_def)
    obtain rg w2 where gc: "on_session ref Session_runFlashGC w1 = (rg, w2)"
      by (cases "on_session ref Session_runFlashGC w1")
    have wf2: "wf_world dbinv w2"
      using wf_on_session [OF wf1 ref(1) keeps_session_runFlashGC] gc by simp
    have "w_heap w2 = (w_heap w1)[ref := fst (snd (Session_runFlashGC (w_heap w1 ! ref, w_mem w1)))]"
      using gc on_session_simps(6) [of ref Session_runFlashGC w1] by simp
    moreover have "s_sid (fst (snd (Session_runFlashGC (w_heap w1 ! ref, w_mem w1)))) = sid"
      using ref(2) by (simp add: Session_runFlashGC_def split: option.split)
    ultimately have "ref < length (w_heap w2) \<and> s_sid (w_heap w2 ! ref) = sid"
      using ref(1) by simp
    then show ?thesis
      using assms(2) lock Some gc wf2
      by (cases rg) (auto simp: provider_Read_def simp del: provider_Lock_Some)
  qed
next
  case False
  then have "provider_Lock w = None" by simp
  then show ?thesis
    using assms by (simp add: provider_Read_def del: provider_Lock_None)
qed

lemma wf_deleteSession:
  assumes "wf_world dbinv w" "ref < length (w_heap w)"
  shows "wf_world dbinv (deleteSession ops ref w)"
proof -
  obtain p pool where del: "deleteSession ops ref w = sync_world ops p pool
      (with_provider (\<lambda>p. p\<lparr>p_sessions := AList.delete (s_sid (w_heap w ! ref)) (p_sessions p)\<rparr>) w)"
    "sent_payload (w_heap w ! ref) ActionDestroy (PValue p) p" "wf_pool pool"
    using deleteSession_sent [of ops ref w] assms(1) by (auto simp: wf_world_def)
  have "wf_session (w_timers w) (w_heap w ! ref)"
    using assms by (simp add: wf_world_def list_all_length)
  then have "wf_store (Values (PStore p))"
    using del(2) by (simp add: sent_payload_def wf_session_def)
  moreover have "wf_world dbinv
      (with_provider (\<lambda>p. p\<lparr>p_sessions := AList.delete (s_sid (w_heap w ! ref)) (p_sessions p)\<rparr>) w)"
    using assms(1) by (simp add: wf_world_def wf_sessions_delete)
  ultimately show ?thesis using del by (simp add: wf_sync_world)
qed

lemma wf_destroy_found:
  assumes "wf_world dbinv w"
  shows "wf_world dbinv (case map_of (p_sessions (w_provider w)) sid of
      Some ref \<Rightarrow> deleteSession ops ref w | None \<Rightarrow> w)"
proof (cases "map_of (p_sessions (w_provider w)) sid")
  case (Some ref)
  then have "ref < length (w_heap w)"
    using assms wf_sessions_lookup by (auto simp: wf_world_def)
  with Some show ?thesis using assms by (simp add: wf_deleteSession)
qed (use assms in simp)

lemma wf_destroy_loop: "wf_world dbinv w \<Longrightarrow> wf_world dbinv (destroy_loop ops order w)"
  by (induction order arbitrary: w) (simp_all add: wf_destroy_found)

lemma wf_provider_Destroy:
  assumes "wf_world dbinv w"
  shows "wf_world dbinv (snd (provider_Destroy ops sid w))"
  using assms wf_destroy_found [of "with_provider (\<lambda>p. p\<lparr>p_mu := WLocked\<rparr>) w" sid]
  by (auto simp: provider_Destroy_def split: option.split)

lemma wf_provider_DestroyAll:
  assumes "wf_world dbinv w"
  shows "wf_world dbinv (snd (provider_DestroyAll ops order w))"
  using assms by (auto simp: provider_DestroyAll_def wf_destroy_loop split: option.split)

lemma wf_fire_timer:
  assumes "wf_world dbinv w"
  shows "wf_world dbinv (snd (fire_timer ops t w))"
  using assms by (auto simp: fire_timer_def intro!: wf_provider_Destroy wf_world_timers)

lemma wf_RegisterDatabase:
  assumes "wf_world dbinv w" "dbinv db"
  shows "wf_world dbinv (snd (RegisterDatabase db w))"
  using assms by (auto simp: RegisterDatabase_def wf_world_def split: option.split)

lemma wf_UpdateExpiration:
  assumes "wf_world dbinv w"
  shows "wf_world dbinv (snd (provider_UpdateExpiration sid expires w))"
  using assms by (auto simp: provider_UpdateExpiration_def Let_def intro!: wf_world_timers split: option.split)

end

end
