(* ===== verification/Gob.thy ===== *)
theory Gob
  imports Database
begin

text \<open>
  Model of the serialisation in \<^verbatim>\<open>database.go\<close> and \<^verbatim>\<open>memstore.go\<close> (\<open>RemoteStore.Serialize\<close>,
  \<open>DecodeRemoteStore\<close>, \<open>GobEncode\<close>, \<open>GobSerialize\<close>) over package \<open>encoding/gob\<close>.

  The bytes are not modelled: a \<open>blob\<close> is what they hold. \<open>gval\<close> is the value tree that gob sends:
  pointers are flattened, a slice is its elements, a map its keys and their values. An interface value can be
  sent only if its type is registered: the scalar types and slices of them are, every other type
  only if the application registers it, which is the parameter \<open>reg\<close>. A nil pointer inside an
  interface and an unregistered type are errors; then the bytes written so far hold no value
  (\<open>GobBroken\<close>), and decoding them is an error too. Nested values are followed to a depth of one
  more than the number of cells in memory, which every acyclic value respects (gob does not
  terminate on cyclic ones).

  Three things do not survive: the unexported \<open>immutable\<close> flag of an entry, the unexported timer
  of a lifetime, and the sharing of slices, maps and pointers.
\<close>

datatype gval =
    GNil
  | GString string
  | GInt "64 word"
  | GInt64 "64 word"
  | GFloat32 "32 word"
  | GFloat64 "64 word"
  | GBool bool
  | GSlice elem_kind "gval list"
  | GMap "gval list" "gval list"
  | GOther nat

datatype gtype = TSlice elem_kind | TMap | TOther nat

definition registered :: "(gtype \<Rightarrow> bool) \<Rightarrow> gtype \<Rightarrow> bool" where
  "registered reg t =
     (case t of TSlice KString \<Rightarrow> True | TSlice KInt \<Rightarrow> True | TSlice KInt64 \<Rightarrow> True
      | TSlice KBool \<Rightarrow> True | _ \<Rightarrow> reg t)"

fun freeze :: "(gtype \<Rightarrow> bool) \<Rightarrow> mem \<Rightarrow> nat \<Rightarrow> val \<Rightarrow> gval option" where
  "freeze reg m 0 v = None"
| "freeze reg m (Suc n) VNil = Some GNil"
| "freeze reg m (Suc n) (VString s) = Some (GString s)"
| "freeze reg m (Suc n) (VInt i) = Some (GInt i)"
| "freeze reg m (Suc n) (VInt64 i) = Some (GInt64 i)"
| "freeze reg m (Suc n) (VFloat32 f) = Some (GFloat32 f)"
| "freeze reg m (Suc n) (VFloat64 f) = Some (GFloat64 f)"
| "freeze reg m (Suc n) (VBool b) = Some (GBool b)"
| "freeze reg m (Suc n) (VPtr None) = None"
| "freeze reg m (Suc n) (VPtr (Some a)) =
     (if a < length m then
        (case m ! a of CVar x \<Rightarrow> (if x = VNil then None else freeze reg m n x) | _ \<Rightarrow> None)
      else None)"
| "freeze reg m (Suc n) (VSlice k None off l c) =
     (if registered reg (TSlice k) then Some (GSlice k []) else None)"
| "freeze reg m (Suc n) (VSlice k (Some a) off l c) =
     (if registered reg (TSlice k) \<and> a < length m then
        map_option (GSlice k) (those (map (freeze reg m n) (slice_elems m (VSlice k (Some a) off l c))))
      else None)"
| "freeze reg m (Suc n) (VMap None) = (if registered reg TMap then Some (GMap [] []) else None)"
| "freeze reg m (Suc n) (VMap (Some a)) =
     (if registered reg TMap \<and> a < length m then
        (case (those (map (freeze reg m n) (map fst (map_pairs m (VMap (Some a))))),
               those (map (freeze reg m n) (map snd (map_pairs m (VMap (Some a)))))) of
           (Some ks, Some xs) \<Rightarrow> Some (GMap ks xs)
         | _ \<Rightarrow> None)
      else None)"
| "freeze reg m (Suc n) (VOther i) = (if registered reg (TOther i) then Some (GOther i) else None)"

fun thaw :: "gval \<Rightarrow> mem \<Rightarrow> val \<times> mem"
  and thaw_list :: "gval list \<Rightarrow> mem \<Rightarrow> val list \<times> mem" where
  "thaw GNil m = (VNil, m)"
| "thaw (GString s) m = (VString s, m)"
| "thaw (GInt i) m = (VInt i, m)"
| "thaw (GInt64 i) m = (VInt64 i, m)"
| "thaw (GFloat32 f) m = (VFloat32 f, m)"
| "thaw (GFloat64 f) m = (VFloat64 f, m)"
| "thaw (GBool b) m = (VBool b, m)"
| "thaw (GOther i) m = (VOther i, m)"
| "thaw (GSlice k gs) m =
     (let (vs, m1) = thaw_list gs m; (a, m2) = mem_alloc (CArr vs) m1
      in (VSlice k (Some a) 0 (length gs) (length gs), m2))"
| "thaw (GMap ks gs) m =
     (let (vs, m1) = thaw_list ks m; (xs, m2) = thaw_list gs m1; (a, m3) = mem_alloc (CMap (zip vs xs)) m2
      in (VMap (Some a), m3))"
| "thaw_list [] m = ([], m)"
| "thaw_list (g # gs) m =
     (let (v, m1) = thaw g m; (vs, m2) = thaw_list gs m1 in (v # vs, m2))"

section \<open>Stores\<close>

datatype blob = GobBytes "(string \<times> gval) list" time | GobBroken

definition gob_depth :: "mem \<Rightarrow> nat" where
  "gob_depth m = Suc (length m)"

definition gob_entries :: "(gtype \<Rightarrow> bool) \<Rightarrow> mem \<Rightarrow> Store \<Rightarrow> (string \<times> gval) list option" where
  "gob_entries reg m st =
     those (map (\<lambda>e. map_option (Pair (Key e)) (freeze reg m (gob_depth m) (ValueRaw e))) (store_elems st))"

text \<open>The result is the bytes written and whether there was an error.\<close>

definition RemoteStore_Serialize :: "(gtype \<Rightarrow> bool) \<Rightarrow> mem \<Rightarrow> RemoteStore \<Rightarrow> blob \<times> bool" where
  "RemoteStore_Serialize reg m rs =
     (case gob_entries reg m (Values rs) of
        None \<Rightarrow> (GobBroken, True)
      | Some es \<Rightarrow> (GobBytes es (lt_Time (Lifetime rs)), False))"

text \<open>
  \<open>GobEncode\<close> sends a store without a lifetime to a writer, \<open>GobSerialize\<close> to a buffer, and \<open>Serialize\<close> of a
  store drops the error. \<open>None\<close> stands for an error and the incomplete bytes.
\<close>

definition GobEncode :: "(gtype \<Rightarrow> bool) \<Rightarrow> mem \<Rightarrow> Store \<Rightarrow> (string \<times> gval) list option" where
  "GobEncode reg m store = gob_entries reg m store"

definition GobSerialize :: "(gtype \<Rightarrow> bool) \<Rightarrow> mem \<Rightarrow> Store \<Rightarrow> (string \<times> gval) list option" where
  "GobSerialize reg m store = GobEncode reg m store"

definition Store_Serialize :: "(gtype \<Rightarrow> bool) \<Rightarrow> mem \<Rightarrow> Store \<Rightarrow> (string \<times> gval) list option" where
  "Store_Serialize reg m r = GobSerialize reg m r"

fun thaw_entries :: "(string \<times> gval) list \<Rightarrow> mem \<Rightarrow> Entry list \<times> mem" where
  "thaw_entries [] m = ([], m)"
| "thaw_entries ((k, g) # es) m =
     (let (v, m1) = thaw g m; (rest, m2) = thaw_entries es m1
      in (\<lparr>Key = k, ValueRaw = v, immutable = False\<rparr> # rest, m2))"

definition DecodeRemoteStore :: "blob \<Rightarrow> mem \<Rightarrow> RemoteStore \<times> bool \<times> mem" where
  "DecodeRemoteStore b m =
     (case b of
        GobBroken \<Rightarrow> (zero_remote, True, m)
      | GobBytes es t \<Rightarrow>
          (let (entries, m1) = thaw_entries es m
           in (\<lparr>Values = \<lparr>arr = entries, slen = length entries\<rparr>,
                Lifetime = \<lparr>lt_Time = t, lt_timer = None\<rparr>\<rparr>, False, m1)))"

section \<open>Freezing and thawing\<close>

lemma those_Some_iff: "those xs = Some ys \<longleftrightarrow> list_all2 (\<lambda>x y. x = Some y) xs ys"
  by (induction xs arbitrary: ys) (auto simp: list_all2_Cons1 split: option.splits)

lemma those_map_Some_iff: "those (map f xs) = Some ys \<longleftrightarrow> list_all2 (\<lambda>x y. f x = Some y) xs ys"
  by (simp add: those_Some_iff list_all2_map1)

lemma list_all2_SomeD: "list_all2 (\<lambda>x y. f x = Some y) xs ys \<Longrightarrow> y \<in> set ys \<Longrightarrow> \<exists>x\<in>set xs. f x = Some y"
  by (fastforce simp: list_all2_conv_all_nth in_set_conv_nth)

fun wf_gval :: "(gtype \<Rightarrow> bool) \<Rightarrow> gval \<Rightarrow> bool" where
  "wf_gval reg (GSlice k gs) = (registered reg (TSlice k) \<and> (\<forall>g\<in>set gs. wf_gval reg g))"
| "wf_gval reg (GMap ks gs) =
     (registered reg TMap \<and> length ks = length gs \<and> (\<forall>g\<in>set ks. wf_gval reg g) \<and> (\<forall>g\<in>set gs. wf_gval reg g))"
| "wf_gval reg (GOther i) = registered reg (TOther i)"
| "wf_gval reg g = True"

lemma freeze_wf: "freeze reg m n v = Some g \<Longrightarrow> wf_gval reg g"
proof (induction n arbitrary: v g)
  case (Suc n)
  have elems: "\<forall>g\<in>set gs. wf_gval reg g" if "those (map (freeze reg m n) xs) = Some gs" for xs gs
    using that Suc.IH list_all2_SomeD [of "freeze reg m n" xs gs] unfolding those_map_Some_iff by blast
  show ?case
  proof (cases v)
    case (VMap a)
    then show ?thesis
      using Suc.prems elems
      by (cases a) (auto simp del: map_map split: if_splits option.splits,
        auto simp del: map_map simp: those_map_Some_iff dest!: list_all2_lengthD)
  next
    case (VPtr a)
    then show ?thesis
      using Suc.prems Suc.IH by (cases a) (auto split: if_splits cell.splits)
  next
    case (VSlice k a off l c)
    then show ?thesis
      using Suc.prems elems by (cases a) (auto split: if_splits)
  qed (use Suc.prems in \<open>auto split: if_splits\<close>)
qed simp

lemma freeze_mono: "freeze reg m n v = Some g \<Longrightarrow> n \<le> n' \<Longrightarrow> freeze reg (m @ cs) n' v = Some g"
proof (induction n arbitrary: v g n')
  case (Suc n)
  from Suc.prems(2) obtain k where n': "n' = Suc k" "n \<le> k" by (cases n') auto
  have elems: "those (map (freeze reg (m @ cs) k) xs) = Some gs"
    if "those (map (freeze reg m n) xs) = Some gs" for xs gs
    using that Suc.IH [OF _ n'(2)] by (auto simp: those_map_Some_iff elim: list_all2_mono)
  show ?case
  proof (cases v)
    case (VMap a)
    then show ?thesis
      using Suc.prems elems n' by (cases a) (auto simp del: map_map split: if_splits option.splits)
  next
    case (VPtr a)
    then show ?thesis
      using Suc.prems Suc.IH n' by (cases a) (auto simp: nth_append split: if_splits cell.splits)
  next
    case (VSlice kd a off l c)
    then show ?thesis
      using Suc.prems elems n' by (cases a) (auto split: if_splits)
  qed (use Suc.prems n' in auto)
qed simp

lemma length_thaw_list [simp]: "length (fst (thaw_list gs m)) = length gs"
  by (induction gs arbitrary: m) (auto split: prod.splits, metis fst_conv)

lemma freeze_list_mono:
  assumes "list_all2 (\<lambda>v g. freeze reg m n v = Some g) vs gs" "n \<le> n'"
  shows "list_all2 (\<lambda>v g. freeze reg (m @ cs) n' v = Some g) vs gs"
  using assms(1) by (rule list_all2_mono) (rule freeze_mono [OF _ assms(2)])

text \<open>Thawing only adds cells, and the value it builds freezes to what it was built from.\<close>

lemma thaw_freeze:
  "wf_gval reg g \<Longrightarrow> \<exists>cs. snd (thaw g m) = m @ cs \<and>
     freeze reg (m @ cs) (Suc (length cs)) (fst (thaw g m)) = Some g"
  "\<forall>g\<in>set gs. wf_gval reg g \<Longrightarrow> \<exists>cs. snd (thaw_list gs m) = m @ cs \<and>
     list_all2 (\<lambda>v g. freeze reg (m @ cs) (Suc (length cs)) v = Some g) (fst (thaw_list gs m)) gs"
proof (induction g m and gs m rule: thaw_thaw_list.induct)
  case (9 k gs m)
  then obtain cs where cs: "snd (thaw_list gs m) = m @ cs"
    "list_all2 (\<lambda>v g. freeze reg (m @ cs) (Suc (length cs)) v = Some g) (fst (thaw_list gs m)) gs" by auto
  let ?vs = "fst (thaw_list gs m)"
  have "list_all2 (\<lambda>v g. freeze reg ((m @ cs) @ [CArr ?vs]) (Suc (length cs)) v = Some g) ?vs gs"
    using cs(2) by (rule freeze_list_mono) simp
  then have "those (map (freeze reg (m @ cs @ [CArr ?vs]) (Suc (length cs))) ?vs) = Some gs"
    by (simp add: those_map_Some_iff)
  then show ?case
    using cs(1) 9(2) mem_arr_new [of "m @ cs" ?vs]
    by (intro exI [of _ "cs @ [CArr ?vs]"]) (simp add: case_prod_beta mem_alloc_def)
next
  case (10 ks gs m)
  let ?ks = "fst (thaw_list ks m)"
  from 10 obtain cs1 where k: "snd (thaw_list ks m) = m @ cs1"
    "list_all2 (\<lambda>v g. freeze reg (m @ cs1) (Suc (length cs1)) v = Some g) ?ks ks" by auto
  let ?xs = "fst (thaw_list gs (m @ cs1))"
  from 10(2) [OF prod.collapse] 10(3) k(1) obtain cs2 where x: "snd (thaw_list gs (m @ cs1)) = (m @ cs1) @ cs2"
    "list_all2 (\<lambda>v g. freeze reg ((m @ cs1) @ cs2) (Suc (length cs2)) v = Some g) ?xs gs" by auto
  let ?c = "CMap (zip ?ks ?xs)" and ?n = "Suc (length cs1 + length cs2)"
  have "list_all2 (\<lambda>v g. freeze reg ((m @ cs1) @ (cs2 @ [?c])) ?n v = Some g) ?ks ks"
    using k(2) by (rule freeze_list_mono) simp
  moreover have "list_all2 (\<lambda>v g. freeze reg (((m @ cs1) @ cs2) @ [?c]) ?n v = Some g) ?xs gs"
    using x(2) by (rule freeze_list_mono) simp
  ultimately have "those (map (freeze reg (m @ cs1 @ cs2 @ [?c]) ?n) ?ks) = Some ks"
    "those (map (freeze reg (m @ cs1 @ cs2 @ [?c]) ?n) ?xs) = Some gs"
    by (simp_all add: those_map_Some_iff)
  moreover have "map fst (zip ?ks ?xs) = ?ks" "map snd (zip ?ks ?xs) = ?xs"
    using 10(3) by simp_all
  ultimately show ?case
    using k(1) x(1) 10(3) mem_map_new [of "m @ cs1 @ cs2" "zip ?ks ?xs"]
    by (intro exI [of _ "cs1 @ cs2 @ [?c]"]) (simp add: case_prod_beta mem_alloc_def)
next
  case (12 g gs m)
  let ?v = "fst (thaw g m)"
  from 12 obtain cs1 where v: "snd (thaw g m) = m @ cs1"
    "freeze reg (m @ cs1) (Suc (length cs1)) ?v = Some g" by auto
  let ?xs = "fst (thaw_list gs (m @ cs1))"
  from 12(2) [OF prod.collapse] 12(3) v(1) obtain cs2 where x: "snd (thaw_list gs (m @ cs1)) = (m @ cs1) @ cs2"
    "list_all2 (\<lambda>v g. freeze reg ((m @ cs1) @ cs2) (Suc (length cs2)) v = Some g) ?xs gs" by auto
  have "freeze reg ((m @ cs1) @ cs2) (Suc (length cs1 + length cs2)) ?v = Some g"
    by (rule freeze_mono [OF v(2)]) simp
  moreover have "list_all2 (\<lambda>v g. freeze reg (((m @ cs1) @ cs2) @ []) (Suc (length cs1 + length cs2)) v = Some g) ?xs gs"
    using x(2) by (rule freeze_list_mono) simp
  ultimately show ?case
    using v(1) x(1) by (intro exI [of _ "cs1 @ cs2"]) (simp add: case_prod_beta)
qed simp_all

section \<open>Stores\<close>

definition wf_entries :: "(gtype \<Rightarrow> bool) \<Rightarrow> (string \<times> gval) list \<Rightarrow> bool" where
  "wf_entries reg es = (\<forall>(k, g)\<in>set es. wf_gval reg g)"

text \<open>The entry of a store that belongs to a sent key and value.\<close>

definition sent_as :: "(gtype \<Rightarrow> bool) \<Rightarrow> mem \<Rightarrow> nat \<Rightarrow> Entry \<Rightarrow> string \<times> gval \<Rightarrow> bool" where
  "sent_as reg m n e p = (Key e = fst p \<and> freeze reg m n (ValueRaw e) = Some (snd p))"

lemma sent_as_mono: "sent_as reg m n e p \<Longrightarrow> n \<le> n' \<Longrightarrow> sent_as reg (m @ cs) n' e p"
  unfolding sent_as_def using freeze_mono by blast

lemma sent_all_mono:
  "list_all2 (sent_as reg m n) es ps \<Longrightarrow> n \<le> n' \<Longrightarrow> list_all2 (sent_as reg (m @ cs) n') es ps"
  by (erule list_all2_mono) (rule sent_as_mono)

lemma sent_as_new:
  "sent_as reg m n \<lparr>Key = k, ValueRaw = v, immutable = b\<rparr> (k, g) \<longleftrightarrow> freeze reg m n v = Some g"
  by (simp add: sent_as_def)

lemma thaw_entries_spec:
  assumes "wf_entries reg es"
  shows "\<exists>cs. snd (thaw_entries es m) = m @ cs \<and> list_all (\<lambda>e. \<not> immutable e) (fst (thaw_entries es m)) \<and>
     list_all2 (sent_as reg (m @ cs) (Suc (length cs))) (fst (thaw_entries es m)) es"
  using assms
proof (induction es arbitrary: m)
  case (Cons p es)
  obtain k g where p: "p = (k, g)" by (cases p)
  have wf: "wf_gval reg g" "wf_entries reg es" using Cons.prems p by (auto simp: wf_entries_def)
  obtain cs1 where v: "snd (thaw g m) = m @ cs1"
    "freeze reg (m @ cs1) (Suc (length cs1)) (fst (thaw g m)) = Some g"
    using thaw_freeze(1) [OF wf(1)] by blast
  let ?es = "fst (thaw_entries es (m @ cs1))"
  obtain cs2 where es: "snd (thaw_entries es (m @ cs1)) = (m @ cs1) @ cs2" "list_all (\<lambda>e. \<not> immutable e) ?es"
    "list_all2 (sent_as reg ((m @ cs1) @ cs2) (Suc (length cs2))) ?es es"
    using Cons.IH [OF wf(2)] by blast
  have "list_all2 (sent_as reg (((m @ cs1) @ cs2) @ []) (Suc (length cs1 + length cs2))) ?es es"
    using es(3) by (rule sent_all_mono) simp
  moreover have "freeze reg ((m @ cs1) @ cs2) (Suc (length cs1 + length cs2)) (fst (thaw g m)) = Some g"
    using v(2) by (rule freeze_mono) simp
  ultimately show ?case
    using v(1) es(1,2) p by (intro exI [of _ "cs1 @ cs2"]) (simp add: case_prod_beta sent_as_new)
qed simp

lemma gob_entries_Some_iff:
  "gob_entries reg m st = Some es \<longleftrightarrow> list_all2 (sent_as reg m (gob_depth m)) (store_elems st) es"
proof -
  have eq: "(map_option (Pair (Key e)) x = Some p) = (Key e = fst p \<and> x = Some (snd p))" for e x and p :: "string \<times> gval"
    by (cases p) auto
  show ?thesis unfolding gob_entries_def those_map_Some_iff sent_as_def [abs_def] eq by (rule refl)
qed

lemma wf_entries_gob: "gob_entries reg m st = Some es \<Longrightarrow> wf_entries reg es"
  unfolding wf_entries_def gob_entries_Some_iff
  by (fastforce simp: list_all2_conv_all_nth in_set_conv_nth sent_as_def dest: freeze_wf)

lemma gob_entries_keys: "gob_entries reg m st = Some es \<Longrightarrow> map fst es = map Key (store_elems st)"
  unfolding gob_entries_Some_iff by (induction rule: list_all2_induct) (auto simp: sent_as_def)

lemma DecodeRemoteStore_broken [simp]: "DecodeRemoteStore GobBroken m = (zero_remote, True, m)"
  by (simp add: DecodeRemoteStore_def)

text \<open>Decoding the bytes of well-formed entries.\<close>

lemma DecodeRemoteStore_bytes:
  assumes "wf_entries reg es" "DecodeRemoteStore (GobBytes es t) m = (rs, err, m')"
  shows "\<not> err \<and> Lifetime rs = \<lparr>lt_Time = t, lt_timer = None\<rparr> \<and> slice_ok (Values rs) \<and>
     map Key (store_elems (Values rs)) = map fst es \<and>
     list_all (\<lambda>e. \<not> immutable e) (store_elems (Values rs)) \<and> gob_entries reg m' (Values rs) = Some es \<and>
     (\<exists>cs. m' = m @ cs)"
proof -
  let ?es = "fst (thaw_entries es m)"
  obtain cs where cs: "snd (thaw_entries es m) = m @ cs" "list_all (\<lambda>e. \<not> immutable e) ?es"
    "list_all2 (sent_as reg (m @ cs) (Suc (length cs))) ?es es"
    using thaw_entries_spec [OF assms(1)] by blast
  have dec: "rs = \<lparr>Values = \<lparr>arr = ?es, slen = length ?es\<rparr>, Lifetime = \<lparr>lt_Time = t, lt_timer = None\<rparr>\<rparr>"
    "\<not> err" "m' = m @ cs"
    using assms(2) cs(1) by (auto simp: DecodeRemoteStore_def case_prod_beta)
  have st: "store_elems (Values rs) = ?es" "slice_ok (Values rs)"
    by (simp_all add: dec(1) store_elems_def slice_ok_def)
  have "list_all2 (sent_as reg ((m @ cs) @ []) (gob_depth (m @ cs))) ?es es"
    using cs(3) by (rule sent_all_mono) (simp add: gob_depth_def)
  then have "gob_entries reg m' (Values rs) = Some es"
    by (simp add: gob_entries_Some_iff st(1) dec(3))
  then show ?thesis using dec st cs(2) gob_entries_keys [of reg m' "Values rs" es] by auto
qed

section \<open>Properties\<close>



end
