(* ===== verification/DatabaseSpec.thy ===== *)
theory DatabaseSpec
  imports WorldInv Gob
begin

text \<open>
  What the sessions expect of a storage back-end, as an abstract specification: a database is a
  map from session ids to serialised stores. \<open>Sync\<close> of a destroy payload removes the entry of
  the session, \<open>Sync\<close> of any other payload that can be serialised replaces it by the payload's
  store, and \<open>Load\<close> decodes the entry.

  The locale \<open>session_database\<close> states this as laws over an abstraction function \<open>stored\<close>; \<open>ready\<close>
  are the database states in which the back-end works (open, not closed, no failing disk) and
  \<open>safe\<close> the session ids it can hold. Inside it, what a sequence of \<open>Sync\<close> calls stores is
  proved once for all back-ends.
\<close>

type_synonym sync_call = "time \<times> mem \<times> SyncPayload"

definition synced_blob :: "(gtype \<Rightarrow> bool) \<Rightarrow> mem \<Rightarrow> SyncPayload \<Rightarrow> blob option" where
  "synced_blob reg m p =
     (if PAction p = ActionDestroy then None else Some (fst (RemoteStore_Serialize reg m (PStore p))))"

definition serialisable :: "(gtype \<Rightarrow> bool) \<Rightarrow> sync_call \<Rightarrow> bool" where
  "serialisable reg c =
     (case c of (now, m, p) \<Rightarrow> PAction p = ActionDestroy \<or> \<not> snd (RemoteStore_Serialize reg m (PStore p)))"

text \<open>The specification of a sequence of \<open>Sync\<close> calls.\<close>

fun replay :: "(gtype \<Rightarrow> bool) \<Rightarrow> sync_call list \<Rightarrow> (string \<rightharpoonup> blob) \<Rightarrow> (string \<rightharpoonup> blob)" where
  "replay reg [] st = st"
| "replay reg ((now, m, p) # cs) st = replay reg cs (st(SessionID p := synced_blob reg m p))"

fun run_syncs :: "'d dbops \<Rightarrow> sync_call list \<Rightarrow> 'd \<Rightarrow> 'd" where
  "run_syncs ops [] d = d"
| "run_syncs ops ((now, m, p) # cs) d = run_syncs ops cs (db_Sync ops now m p d)"

lemma replay_append: "replay reg (cs @ cs') st = replay reg cs' (replay reg cs st)"
  by (induction cs arbitrary: st) auto

lemma replay_last:
  assumes "SessionID p = sid" "\<forall>(now, m, q)\<in>set cs'. SessionID q \<noteq> sid"
  shows "replay reg (cs @ (now, m, p) # cs') st sid = synced_blob reg m p"
proof -
  have "replay reg cs' st' sid = st' sid" for st'
    using assms(2) by (induction cs' arbitrary: st') auto
  then show ?thesis using assms(1) by (simp add: replay_append)
qed

text \<open>What \<open>Load\<close> returns for an entry.\<close>

definition loads_blob :: "blob option \<Rightarrow> mem \<Rightarrow> RemoteStore \<times> mem" where
  "loads_blob b m =
     (case b of
        None \<Rightarrow> (zero_remote, m)
      | Some x \<Rightarrow> (let (r, err, m') = DecodeRemoteStore x m in (r, m')))"

locale session_database =
  fixes ops :: "'d dbops" and reg :: "gtype \<Rightarrow> bool"
    and ready :: "'d \<Rightarrow> bool" and safe :: "string \<Rightarrow> bool" and stored :: "'d \<Rightarrow> string \<Rightarrow> blob option"
  assumes load: "ready d \<Longrightarrow> safe sid \<Longrightarrow> db_Load ops now sid m d = (r, m', d') \<Longrightarrow>
      ready d' \<and> (\<forall>x. safe x \<longrightarrow> stored d' x = stored d x) \<and> (r, m') = loads_blob (stored d sid) m"
    and sync: "ready d \<Longrightarrow> safe (SessionID p) \<Longrightarrow> serialisable reg (now, m, p) \<Longrightarrow> safe x \<Longrightarrow>
      stored (db_Sync ops now m p d) x = ((stored d)(SessionID p := synced_blob reg m p)) x"
    and sync_ready: "ready d \<Longrightarrow> safe (SessionID p) \<Longrightarrow> ready (db_Sync ops now m p d)"
begin

lemma stored_run_syncs:
  assumes "ready d" "\<forall>(now, m, p)\<in>set cs. safe (SessionID p)" "list_all (serialisable reg) cs" "safe x"
  shows "ready (run_syncs ops cs d) \<and> stored (run_syncs ops cs d) x = replay reg cs (stored d) x"
proof -
  have "ready (run_syncs ops cs d) \<and> stored (run_syncs ops cs d) x = replay reg cs st x"
    if "\<forall>y. safe y \<longrightarrow> stored d y = st y" for st
    using assms that
  proof (induction cs arbitrary: d st)
    case (Cons c cs)
    obtain now m p where c: "c = (now, m, p)" by (cases c)
    let ?d = "db_Sync ops now m p d"
    have p: "safe (SessionID p)" "serialisable reg (now, m, p)" using Cons.prems(2,3) c by auto
    have "ready ?d" using Cons.prems(1) p(1) by (rule sync_ready)
    moreover have "\<forall>y. safe y \<longrightarrow> stored ?d y = (st(SessionID p := synced_blob reg m p)) y"
      using sync [OF Cons.prems(1) p] Cons.prems(5) by simp
    ultimately show ?case
      using Cons.IH [of ?d "st(SessionID p := synced_blob reg m p)"] Cons.prems(2,3,4) c by (simp add: fun_upd_def)
  qed simp
  then show ?thesis by blast
qed

lemma load_after_syncs:
  assumes "ready d" "\<forall>(now, m, p)\<in>set cs. safe (SessionID p)" "list_all (serialisable reg) cs" "safe sid"
    and "db_Load ops now sid m (run_syncs ops cs d) = (r, m', d')"
  shows "(r, m') = loads_blob (replay reg cs (stored d) sid) m"
  using load [OF _ assms(4,5)] stored_run_syncs [OF assms(1-4)] by simp

lemma load_value:
  assumes "ready d" "\<forall>(now, m, p)\<in>set cs. safe (SessionID p)" "list_all (serialisable reg) cs" "safe sid"
  shows "\<exists>d'. db_Load ops now sid m (run_syncs ops cs d) =
     (fst (loads_blob (replay reg cs (stored d) sid) m), snd (loads_blob (replay reg cs (stored d) sid) m), d')"
proof -
  obtain r m' d' where l: "db_Load ops now sid m (run_syncs ops cs d) = (r, m', d')"
    by (cases "db_Load ops now sid m (run_syncs ops cs d)") auto
  from load_after_syncs [OF assms l] show ?thesis using l by (metis fst_conv snd_conv)
qed

end

section \<open>Asynchronous mode\<close>

text \<open>
  In asynchronous mode \<open>Sync\<close> starts a goroutine for the payload and returns. \<open>pending\<close> are the payloads
  whose goroutine has not run yet, in the order in which they were started, and \<open>run m i\<close> is the
  execution of the one at position \<open>i\<close>, with the memory \<open>m\<close> of that moment: the scheduler may choose
  any. The entries of a payload stay those of its \<open>Sync\<close> call. \<open>working\<close> are the asynchronous states in which the back-end works.
\<close>

definition without_nth :: "nat \<Rightarrow> 'a list \<Rightarrow> 'a list" where
  "without_nth i xs = take i xs @ drop (Suc i) xs"

lemma without_nth_0 [simp]: "without_nth 0 xs = tl xs"
  by (simp add: without_nth_def drop_Suc)

lemma set_without_nth: "set (without_nth i xs) \<subseteq> set xs"
  by (auto simp: without_nth_def dest: in_set_takeD in_set_dropD)

lemma list_all_without_nth: "list_all P xs \<Longrightarrow> list_all P (without_nth i xs)"
  using set_without_nth [of i xs] by (auto simp: list_all_iff)

locale async_database =
  fixes ops :: "'d dbops" and reg :: "gtype \<Rightarrow> bool"
    and working :: "'d \<Rightarrow> bool" and safe :: "string \<Rightarrow> bool" and stored :: "'d \<Rightarrow> string \<Rightarrow> blob option"
    and pending :: "'d \<Rightarrow> SyncPayload list" and run :: "mem \<Rightarrow> nat \<Rightarrow> 'd \<Rightarrow> 'd"
  assumes deferred: "working d \<Longrightarrow> db_Sync ops now m p d = d' \<Longrightarrow>
      working d' \<and> pending d' = pending d @ [p] \<and> (\<forall>x. stored d' x = stored d x)"
    and run_pending: "working d \<Longrightarrow> i < length (pending d) \<Longrightarrow> safe (SessionID (pending d ! i)) \<Longrightarrow>
      working (run m i d) \<and> pending (run m i d) = without_nth i (pending d)"
    and run_stored: "working d \<Longrightarrow> i < length (pending d) \<Longrightarrow> safe (SessionID (pending d ! i)) \<Longrightarrow>
      serialisable reg (0, m, pending d ! i) \<Longrightarrow> safe x \<Longrightarrow>
      stored (run m i d) x = ((stored d)(SessionID (pending d ! i) := synced_blob reg m (pending d ! i))) x"
begin

lemma run_syncs_pending:
  "working d \<Longrightarrow> working (run_syncs ops cs d) \<and>
     pending (run_syncs ops cs d) = pending d @ map (snd \<circ> snd) cs \<and> (\<forall>x. stored (run_syncs ops cs d) x = stored d x)"
proof (induction cs arbitrary: d)
  case (Cons c cs)
  obtain now m p where c: "c = (now, m, p)" by (cases c)
  from deferred [OF Cons.prems refl] show ?case using Cons.IH [of "db_Sync ops now m p d"] c by simp
qed simp

lemma reordered_destroy:
  assumes "working d" "pending d = []" "safe sid" "SessionID p = sid" "SessionID q = sid"
    and "PAction q = ActionDestroy" "serialisable reg (now, m'', p)"
  shows "stored (run m'' 0 (run m' 1 (run_syncs ops [(now, m, p), (now, m, q)] d))) sid = synced_blob reg m'' p"
proof -
  let ?d = "run_syncs ops [(now, m, p), (now, m, q)] d"
  have d: "working ?d" "pending ?d = [p, q]"
    using run_syncs_pending [OF assms(1), of "[(now, m, p), (now, m, q)]"] assms(2) by simp_all
  then have r: "working (run m' 1 ?d)" "pending (run m' 1 ?d) = [p]"
    using run_pending [of ?d 1 m'] assms(3,5) by (simp_all add: without_nth_def)
  then show ?thesis
    using run_stored [of "run m' 1 ?d" 0 m'' sid] assms(3,4,7) by (auto simp: serialisable_def)
qed

end

section \<open>Decoded stores\<close>

definition blob_ok :: "blob \<Rightarrow> bool" where
  "blob_ok b = (case b of GobBytes es t \<Rightarrow> distinct (map fst es) | GobBroken \<Rightarrow> True)"

lemma thaw_entries_keys:
  "map Key (fst (thaw_entries es m)) = map fst es"
  "list_all (\<lambda>e. \<not> immutable e) (fst (thaw_entries es m))"
  by (induction es arbitrary: m) (auto simp: case_prod_beta Let_def)

lemma DecodeRemoteStore_wf:
  assumes "blob_ok b" "DecodeRemoteStore b m = (r, err, m')"
  shows "wf_store (Values r) \<and> lt_timer (Lifetime r) = None \<and>
     list_all (\<lambda>e. \<not> immutable e) (store_elems (Values r))"
proof (cases b)
  case (GobBytes es t)
  then have "Values r = \<lparr>arr = fst (thaw_entries es m), slen = length (fst (thaw_entries es m))\<rparr>"
    "lt_timer (Lifetime r) = None"
    using assms(2) by (auto simp: DecodeRemoteStore_def case_prod_beta Let_def)
  then show ?thesis
    using thaw_entries_keys [of es m] assms(1) GobBytes
    by (simp add: wf_store_def slice_ok_def store_elems_def blob_ok_def)
next
  case GobBroken
  with assms(2) show ?thesis
    by (auto simp: zero_remote_def nil_store_def zero_lifetime_def wf_store_def slice_ok_def store_elems_def)
qed

lemma blob_ok_Serialize:
  assumes "wf_store (Values rs)"
  shows "blob_ok (fst (RemoteStore_Serialize reg m rs))"
  using assms gob_entries_keys [of reg m "Values rs"]
  by (auto simp: RemoteStore_Serialize_def blob_ok_def wf_store_def split: option.split)

lemma zero_remote_wf: "wf_store (Values zero_remote) \<and> lt_timer (Lifetime zero_remote) = None"
  by (simp add: zero_remote_def nil_store_def zero_lifetime_def wf_store_def slice_ok_def store_elems_def)

end
