(* ===== verification/Uuid.thy ===== *)
theory Uuid
  imports Prelude
begin

unbundle bit_operations_syntax

text \<open>
  Model of the part of the vendored \<^verbatim>\<open>satori/go.uuid\<close> that generates the default session ids:
  \<open>NewV4\<close>, \<open>SetVersion\<close>, \<open>SetVariant\<close>, \<open>Version\<close>, \<open>Variant\<close> and \<open>String\<close>. A \<open>UUID\<close> is a list of
  16 bytes. The random source is an argument: \<open>None\<close> is a failed \<open>rand.Read\<close>, on which
  \<open>safeRandom\<close> panics.
\<close>

type_synonym byte = "8 word"
type_synonym UUID = "byte list"

datatype variant = VariantNCS | VariantRFC4122 | VariantMicrosoft | VariantFuture

definition hex_digit :: "byte \<Rightarrow> char" where
  "hex_digit b = ''0123456789abcdef'' ! unat b"

definition hex_byte :: "byte \<Rightarrow> string" where
  "hex_byte b = [hex_digit (drop_bit 4 b), hex_digit (b AND 15)]"

text \<open>\<open>hex.Encode\<close>\<close>

definition hex_Encode :: "byte list \<Rightarrow> string" where
  "hex_Encode bs = concat (map hex_byte bs)"

definition safeRandom :: "byte list option \<Rightarrow> byte list outcome" where
  "safeRandom rnd = (case rnd of None \<Rightarrow> Panic ''crypto/rand: read failed'' | Some bs \<Rightarrow> Ret bs)"

definition UUID_Version :: "UUID \<Rightarrow> byte" where
  "UUID_Version u = drop_bit 4 (u ! 6)"

definition UUID_Variant :: "UUID \<Rightarrow> variant" where
  "UUID_Variant u =
     (if (u ! 8) AND 0x80 = 0 then VariantNCS
      else if ((u ! 8) AND 0xc0) OR 0x80 = 0x80 then VariantRFC4122
      else if ((u ! 8) AND 0xe0) OR 0xc0 = 0xc0 then VariantMicrosoft
      else VariantFuture)"

definition UUID_SetVersion :: "byte \<Rightarrow> UUID \<Rightarrow> UUID" where
  "UUID_SetVersion v u = u[6 := ((u ! 6) AND 0x0f) OR push_bit 4 v]"

definition UUID_SetVariant :: "UUID \<Rightarrow> UUID" where
  "UUID_SetVariant u = u[8 := ((u ! 8) AND 0xbf) OR 0x80]"

definition UUID_String :: "UUID \<Rightarrow> string" where
  "UUID_String u =
     hex_Encode (take 4 u) @ [CHR ''-''] @
     hex_Encode (take 2 (drop 4 u)) @ [CHR ''-''] @
     hex_Encode (take 2 (drop 6 u)) @ [CHR ''-''] @
     hex_Encode (take 2 (drop 8 u)) @ [CHR ''-''] @
     hex_Encode (drop 10 u)"

definition NewV4 :: "byte list option \<Rightarrow> UUID outcome" where
  "NewV4 rnd =
     (case safeRandom rnd of
        Ret u \<Rightarrow> Ret (UUID_SetVariant (UUID_SetVersion 4 u))
      | Blocked \<Rightarrow> Blocked
      | Panic e \<Rightarrow> Panic e)"

section \<open>Lemmas\<close>

lemma length_hex_Encode [simp]: "length (hex_Encode bs) = 2 * length bs"
  by (induction bs) (simp_all add: hex_Encode_def hex_byte_def)

lemma length_UUID_String: "length u = 16 \<Longrightarrow> length (UUID_String u) = 36"
  by (simp add: UUID_String_def)

lemma hex_digit_table: "n < 16 \<Longrightarrow> ''0123456789abcdef'' ! n \<in> set ''0123456789abcdef''"
  by (intro nth_mem) simp

lemma nibble_bounds: "unat (drop_bit 4 (b :: byte)) < 16" "unat (b AND 15 :: byte) < 16"
proof -
  have "unat (drop_bit 4 b) = unat b div 16"
    by (simp add: drop_bit_eq_div unat_div)
  moreover have "unat b < 256" by (rule order.strict_trans2 [OF unsigned_less]) simp
  ultimately show "unat (drop_bit 4 b) < 16" by (simp add: less_mult_imp_div_less)
  have "b AND 15 \<le> 15" by (rule word_and_le1)
  then show "unat (b AND 15) < 16" by (simp add: word_le_nat_alt)
qed

lemma hex_digit_inj: "unat a < 16 \<Longrightarrow> unat b < 16 \<Longrightarrow> hex_digit a = hex_digit b \<Longrightarrow> a = b"
proof -
  assume "unat a < 16" "unat b < 16" "hex_digit a = hex_digit b"
  moreover have "distinct ''0123456789abcdef''" by simp
  ultimately have "unat a = unat b"
    unfolding hex_digit_def by (subst (asm) nth_eq_iff_index_eq) auto
  then show ?thesis by (simp add: word_unat_eq_iff)
qed

lemma nibbles_eq:
  fixes a b :: byte
  assumes "drop_bit 4 a = drop_bit 4 b" "a AND 15 = b AND 15"
  shows "a = b"
proof (rule bit_word_eqI)
  fix n assume "n < LENGTH(8)"
  show "bit a n = bit b n"
  proof (cases "n < 4")
    case True
    then have "bit (15 :: byte) n" by (auto simp: less_Suc_eq numeral_eq_Suc)
    with assms(2) show ?thesis by (metis bit_and_iff)
  next
    case False
    then have "bit a n = bit (drop_bit 4 a) (n - 4)" "bit b n = bit (drop_bit 4 b) (n - 4)"
      by (simp_all add: bit_drop_bit_eq)
    with assms(1) show ?thesis by simp
  qed
qed

lemma hex_byte_inj: "hex_byte a = hex_byte b \<Longrightarrow> a = b"
proof -
  assume "hex_byte a = hex_byte b"
  then have "hex_digit (drop_bit 4 a) = hex_digit (drop_bit 4 b)"
    "hex_digit (a AND 15) = hex_digit (b AND 15)"
    by (simp_all add: hex_byte_def)
  then have "drop_bit 4 a = drop_bit 4 b" "a AND 15 = b AND 15"
    using hex_digit_inj nibble_bounds by blast+
  then show ?thesis by (rule nibbles_eq)
qed

lemma hex_Encode_Cons: "hex_Encode (b # bs) = hex_byte b @ hex_Encode bs"
  by (simp add: hex_Encode_def)

lemma hex_Encode_inj: "length a = length b \<Longrightarrow> hex_Encode a = hex_Encode b \<Longrightarrow> a = b"
proof (induction a b rule: list_induct2)
  case (Cons x xs y ys)
  then have "hex_byte x = hex_byte y \<and> hex_Encode xs = hex_Encode ys"
    by (simp add: hex_Encode_Cons hex_byte_def)
  then show ?case using Cons.IH hex_byte_inj by blast
qed simp

text \<open>The bits that \<open>SetVersion\<close> and \<open>SetVariant\<close> fix.\<close>

lemma version_bits: "drop_bit 4 (((b :: byte) AND 0x0f) OR push_bit 4 4) = 4"
proof (rule bit_word_eqI)
  fix n assume n: "n < LENGTH(8)"
  have "n = 0 \<or> n = 1 \<or> n = 2 \<or> n = 3 \<or> n = 4 \<or> n = 5 \<or> n = 6 \<or> n = 7" using n by (simp, arith)
  then show "bit (drop_bit 4 ((b AND 0x0f) OR push_bit 4 4)) n = bit (4 :: byte) n"
    by (elim disjE) (simp_all add: bit_drop_bit_eq bit_or_iff bit_and_iff bit_push_bit_iff)
qed

lemma variant_bits:
  fixes b :: byte
  shows "(b AND 0xbf OR 0x80) AND 0x80 \<noteq> 0" "((b AND 0xbf OR 0x80) AND 0xc0) OR 0x80 = 0x80"
proof -
  have "bit ((b AND 0xbf OR 0x80) AND 0x80) 7" by (simp add: bit_and_iff bit_or_iff)
  then show "(b AND 0xbf OR 0x80) AND 0x80 \<noteq> 0" by auto
  show "((b AND 0xbf OR 0x80) AND 0xc0) OR 0x80 = 0x80"
  proof (rule bit_word_eqI)
    fix n assume n: "n < LENGTH(8)"
    have "n = 0 \<or> n = 1 \<or> n = 2 \<or> n = 3 \<or> n = 4 \<or> n = 5 \<or> n = 6 \<or> n = 7" using n by (simp, arith)
    then show "bit (((b AND 0xbf OR 0x80) AND 0xc0) OR 0x80) n = bit (0x80 :: byte) n"
      by (elim disjE) (simp_all add: bit_or_iff bit_and_iff)
  qed
qed

lemma UUID_String_inj:
  assumes "length u = 16" "length v = 16" "UUID_String u = UUID_String v"
  shows "u = v"
proof -
  have pieces: "hex_Encode (take 4 u) = hex_Encode (take 4 v) \<and>
      hex_Encode (take 2 (drop 4 u)) = hex_Encode (take 2 (drop 4 v)) \<and>
      hex_Encode (take 2 (drop 6 u)) = hex_Encode (take 2 (drop 6 v)) \<and>
      hex_Encode (take 2 (drop 8 u)) = hex_Encode (take 2 (drop 8 v)) \<and>
      hex_Encode (drop 10 u) = hex_Encode (drop 10 v)"
    using assms by (simp add: UUID_String_def)
  have split: "w = take 4 w @ take 2 (drop 4 w) @ take 2 (drop 6 w) @ take 2 (drop 8 w) @ drop 10 w"
    for w :: UUID
  proof -
    have "drop 4 w = take 2 (drop 4 w) @ drop 6 w" using append_take_drop_id [of 2 "drop 4 w"] by simp
    moreover have "drop 6 w = take 2 (drop 6 w) @ drop 8 w" using append_take_drop_id [of 2 "drop 6 w"] by simp
    moreover have "drop 8 w = take 2 (drop 8 w) @ drop 10 w" using append_take_drop_id [of 2 "drop 8 w"] by simp
    ultimately show ?thesis using append_take_drop_id [of 4 w] by metis
  qed
  have "take 4 u = take 4 v" "take 2 (drop 4 u) = take 2 (drop 4 v)" "take 2 (drop 6 u) = take 2 (drop 6 v)"
    "take 2 (drop 8 u) = take 2 (drop 8 v)" "drop 10 u = drop 10 v"
    using pieces assms(1,2) by (auto intro: hex_Encode_inj)
  then show ?thesis using split [of u] split [of v] by simp
qed

text \<open>
  Two byte strings agree on the 122 bits that \<open>SetVersion\<close> and \<open>SetVariant\<close> leave alone: all
  bytes but two, the low half of byte 6 and the low six bits of byte 8.
\<close>

definition same_random :: "byte list \<Rightarrow> byte list \<Rightarrow> bool" where
  "same_random a b =
     ((\<forall>i < 16. i \<noteq> 6 \<and> i \<noteq> 8 \<longrightarrow> a ! i = b ! i) \<and>
      (a ! 6) AND 0x0f = (b ! 6) AND 0x0f \<and> (a ! 8) AND 0x3f = (b ! 8) AND 0x3f)"

lemma same_random_sym: "same_random a b \<Longrightarrow> same_random b a"
  by (simp add: same_random_def)

lemma same_random_trans: "same_random a b \<Longrightarrow> same_random b c \<Longrightarrow> same_random a c"
  by (simp add: same_random_def)

lemma random_bits:
  fixes b :: byte
  shows "((b AND 0x0f) OR 0x40) AND 0x0f = b AND 0x0f" "(b AND 0xbf OR 0x80) AND 0x3f = b AND 0x3f"
    "b AND 0xbf OR 0x80 = (b AND 0x3f) OR 0x80"
proof -
  have bytes: "n = 0 \<or> n = 1 \<or> n = 2 \<or> n = 3 \<or> n = 4 \<or> n = 5 \<or> n = 6 \<or> n = 7" if "n < LENGTH(8)" for n
    using that by (simp, arith)
  show "((b AND 0x0f) OR 0x40) AND 0x0f = b AND 0x0f"
    by (rule bit_word_eqI, drule bytes, elim disjE) (simp_all add: bit_or_iff bit_and_iff)
  show "(b AND 0xbf OR 0x80) AND 0x3f = b AND 0x3f"
    by (rule bit_word_eqI, drule bytes, elim disjE) (simp_all add: bit_or_iff bit_and_iff)
  show "b AND 0xbf OR 0x80 = (b AND 0x3f) OR 0x80"
    by (rule bit_word_eqI, drule bytes, elim disjE) (simp_all add: bit_or_iff bit_and_iff)
qed

lemma length_v4: "length (UUID_SetVariant (UUID_SetVersion v u)) = length u"
  by (simp add: UUID_SetVariant_def UUID_SetVersion_def)

lemma nth_v4:
  assumes "length rnd = 16" "i < 16"
  shows "UUID_SetVariant (UUID_SetVersion 4 rnd) ! i =
    (if i = 6 then (rnd ! 6 AND 0x0f) OR 0x40
     else if i = 8 then (rnd ! 8 AND 0xbf) OR 0x80 else rnd ! i)"
  using assms by (simp add: UUID_SetVariant_def UUID_SetVersion_def nth_list_update)

lemma same_random_v4: "length rnd = 16 \<Longrightarrow> same_random (UUID_SetVariant (UUID_SetVersion 4 rnd)) rnd"
  by (simp add: same_random_def nth_v4 random_bits(1,2))

lemma v4_eq_iff:
  assumes "length a = 16" "length b = 16"
  shows "UUID_SetVariant (UUID_SetVersion 4 a) = UUID_SetVariant (UUID_SetVersion 4 b) \<longleftrightarrow> same_random a b"
proof
  assume "same_random a b"
  then show "UUID_SetVariant (UUID_SetVersion 4 a) = UUID_SetVariant (UUID_SetVersion 4 b)"
    using assms
    by (intro nth_equalityI) (auto simp: nth_v4 same_random_def random_bits(3) length_v4)
qed (metis assms same_random_v4 same_random_sym same_random_trans)

section \<open>Properties\<close>

text \<open>
  C22. The default session id: from any 16 random bytes \<open>NewV4\<close> returns a UUID of version 4 and
  RFC 4122 variant whose text form has 36 characters. The UUID carries all random bits but the
  six that version and variant fix, and two ids (the text forms) are equal exactly when the
  random bytes they were made from agree on those 122 bits: ids collide only when the random
  source does. A failed random source is a panic.
\<close>

theorem NewV4_session_id:
  assumes "length rnd = 16" "length rnd' = 16"
  shows "NewV4 None = Panic ''crypto/rand: read failed'' \<and>
   (\<exists>u u'. NewV4 (Some rnd) = Ret u \<and> NewV4 (Some rnd') = Ret u' \<and>
     length u = 16 \<and> UUID_Version u = 4 \<and> UUID_Variant u = VariantRFC4122 \<and>
     length (UUID_String u) = 36 \<and> same_random u rnd \<and>
     (UUID_String u = UUID_String u' \<longleftrightarrow> same_random rnd rnd') \<and>
     (\<forall>v. length v = 16 \<and> UUID_String v = UUID_String u \<longrightarrow> v = u))"
proof -
  let ?v4 = "\<lambda>r. UUID_SetVariant (UUID_SetVersion 4 r)"
  have len: "length (?v4 rnd) = 16" "length (?v4 rnd') = 16"
    using assms by (simp_all add: length_v4)
  have "UUID_Version (?v4 rnd) = 4"
    using assms version_bits by (simp add: UUID_Version_def UUID_SetVariant_def UUID_SetVersion_def)
  moreover have "UUID_Variant (?v4 rnd) = VariantRFC4122"
    using assms variant_bits by (simp add: UUID_Variant_def UUID_SetVariant_def UUID_SetVersion_def)
  moreover have "UUID_String (?v4 rnd) = UUID_String (?v4 rnd') \<longleftrightarrow> same_random rnd rnd'"
    using v4_eq_iff [OF assms] UUID_String_inj [OF len] by auto
  ultimately show ?thesis
    using len(1) length_UUID_String UUID_String_inj same_random_v4 [OF assms(1)]
    by (auto simp: NewV4_def safeRandom_def)
qed

theorem NewV4_session_id_witness:
  "\<exists>u u'. NewV4 (Some (replicate 16 0xff)) = Ret u \<and> NewV4 (Some (replicate 16 0)) = Ret u' \<and>
     UUID_Version u = 4 \<and> u ! 0 = 0xff \<and> UUID_String u \<noteq> UUID_String u'"
proof -
  have "\<not> same_random (replicate 16 0xff) (replicate 16 0)"
    unfolding same_random_def by (auto intro!: exI [of _ 0])
  moreover have "u ! 0 = 0xff" if "same_random u (replicate 16 0xff)" for u
  proof -
    have "u ! 0 = replicate 16 0xff ! 0" using that unfolding same_random_def by simp
    then show ?thesis by simp
  qed
  ultimately show ?thesis
    using NewV4_session_id [of "replicate 16 0xff" "replicate 16 0"] by auto
qed

end
