(* ===== verification/Config.thy ===== *)
theory Config
  imports Uuid GoTime
begin

text \<open>
  Model of \<^verbatim>\<open>config.go\<close>.

  \<open>Encode\<close>, \<open>Decode\<close> and \<open>SessionIDGenerator\<close> are functions of the user of the package. They
  need not be pure (a cookie encoder draws a random initialisation vector, a generator draws a
  new id), so each takes the number of calls to user functions made so far. \<open>Encode\<close> returns
  \<open>None\<close> for an error; \<open>Decode\<close> returns \<open>None\<close> for an error, and otherwise what it left in the
  pointer \<open>*string\<close> it was given: \<open>Some None\<close> is a pointer left nil.
  The default generator is \<open>uuid.NewV4().String()\<close>; \<open>rand\<close> is what the random source delivers
  to the n-th call, \<open>None\<close> when reading from it fails.
\<close>

record Config =
  Cookie :: string
  CookieSecureTLS :: bool
  Encode :: "(nat \<Rightarrow> string \<Rightarrow> string \<Rightarrow> string option) option"
  Decode :: "(nat \<Rightarrow> string \<Rightarrow> string \<Rightarrow> string option option) option"
  Expires :: duration
  SessionIDGenerator :: "(nat \<Rightarrow> string outcome) option"
  DisableSubdomainPersistence :: bool

definition DefaultCookieName :: string where
  "DefaultCookieName = ''gosessionid''"

definition zero_config :: Config where
  "zero_config = \<lparr>Cookie = [], CookieSecureTLS = False, Encode = None, Decode = None, Expires = 0,
     SessionIDGenerator = None, DisableSubdomainPersistence = False\<rparr>"

definition default_generator :: "(nat \<Rightarrow> byte list option) \<Rightarrow> nat \<Rightarrow> string outcome" where
  "default_generator rand n =
     (case NewV4 (rand n) of
        Ret u \<Rightarrow> Ret (UUID_String u)
      | Blocked \<Rightarrow> Blocked
      | Panic e \<Rightarrow> Panic e)"

definition Config_Validate :: "(nat \<Rightarrow> byte list option) \<Rightarrow> Config \<Rightarrow> Config" where
  "Config_Validate rand c =
     (let c1 = (if Cookie c = [] then c\<lparr>Cookie := DefaultCookieName\<rparr> else c)
      in if SessionIDGenerator c1 = None
         then c1\<lparr>SessionIDGenerator := Some (default_generator rand)\<rparr> else c1)"

lemma Config_Validate_simps [simp]:
  "Cookie (Config_Validate rand c) = (if Cookie c = [] then DefaultCookieName else Cookie c)"
  "Encode (Config_Validate rand c) = Encode c"
  "Decode (Config_Validate rand c) = Decode c"
  "Expires (Config_Validate rand c) = Expires c"
  "CookieSecureTLS (Config_Validate rand c) = CookieSecureTLS c"
  "DisableSubdomainPersistence (Config_Validate rand c) = DisableSubdomainPersistence c"
  "SessionIDGenerator (Config_Validate rand c) =
     (if SessionIDGenerator c = None then Some (default_generator rand) else SessionIDGenerator c)"
  by (simp_all add: Config_Validate_def Let_def)

lemma Config_Validate_idem: "Config_Validate rand (Config_Validate rand' c) = Config_Validate rand' c"
  by (simp add: Config_Validate_def Let_def DefaultCookieName_def)

end
