(* ===== verification/GoHttp.thy ===== *)
theory GoHttp
  imports Prelude GoTime
begin

text \<open>
  What the sources use of package \<open>net/http\<close>: reading the \<open>Cookie\<close> header of a request
  (\<open>Request.Cookie\<close>) and adding a cookie to a response (\<open>http.SetCookie\<close>), and of package
  \<open>strings\<close>: \<open>TrimSpace\<close> and \<open>Split\<close>.

  A response is the list of the cookies set on it. \<open>SetCookie\<close> drops a cookie with an invalid
  name; the value goes through \<open>sanitizeCookieValue\<close> on its way to the client. The text form of
  the other attributes is not modelled.
\<close>

section \<open>Strings\<close>

text \<open>The UTF-8 encodings of the runes for which \<open>unicode.IsSpace\<close> holds.\<close>

definition white_space :: "string list" where
  "white_space =
     map (\<lambda>n. [char_of n]) [9::nat, 10, 11, 12, 13, 32] @
     map (map char_of) [[0xC2::nat, 0x85], [0xC2, 0xA0], [0xE1, 0x9A, 0x80], [0xE2, 0x80, 0xA8],
       [0xE2, 0x80, 0xA9], [0xE2, 0x80, 0xAF], [0xE2, 0x81, 0x9F], [0xE3, 0x80, 0x80]] @
     map (\<lambda>n. map char_of [0xE2::nat, 0x80, n]) [0x80..<0x8B]"

fun trim_left :: "string list \<Rightarrow> string \<Rightarrow> string" where
  "trim_left ws [] = []"
| "trim_left ws (c # cs) =
     (case find (\<lambda>sp. sp \<noteq> [] \<and> take (length sp) (c # cs) = sp) ws of
        None \<Rightarrow> c # cs
      | Some sp \<Rightarrow> trim_left ws (drop (length sp - 1) cs))"

definition TrimSpace :: "string \<Rightarrow> string" where
  "TrimSpace s = rev (trim_left (map rev white_space) (rev (trim_left white_space s)))"

fun SplitByte :: "char \<Rightarrow> string \<Rightarrow> string list" where
  "SplitByte c [] = [[]]"
| "SplitByte c (x # xs) =
     (if x = c then [] # SplitByte c xs
      else (case SplitByte c xs of [] \<Rightarrow> [[x]] | p # ps \<Rightarrow> (x # p) # ps))"

section \<open>Cookies\<close>

definition isToken :: "char \<Rightarrow> bool" where
  "isToken c =
     (let n = of_char c :: nat in
      48 \<le> n \<and> n \<le> 57 \<or> 65 \<le> n \<and> n \<le> 90 \<or> 97 \<le> n \<and> n \<le> 122 \<or> c \<in> set ''!#$%&*+-.^_|~'' \<or>
      n = 39 \<or> n = 96)"

definition isCookieNameValid :: "string \<Rightarrow> bool" where
  "isCookieNameValid s = (s \<noteq> [] \<and> list_all isToken s)"

definition validCookieValueByte :: "char \<Rightarrow> bool" where
  "validCookieValueByte c =
     (let n = of_char c :: nat in 0x20 \<le> n \<and> n < 0x7f \<and> n \<noteq> 34 \<and> n \<noteq> 59 \<and> n \<noteq> 92)"

definition parseCookieValue :: "string \<Rightarrow> string option" where
  "parseCookieValue raw =
     (let s = (if 1 < length raw \<and> hd raw = CHR 0x22 \<and> last raw = CHR 0x22
               then butlast (tl raw) else raw)
      in if list_all validCookieValueByte s then Some s else None)"

definition sanitizeCookieValue :: "string \<Rightarrow> string" where
  "sanitizeCookieValue v =
     (let s = filter validCookieValueByte v
      in if CHR '' '' \<in> set s \<or> CHR '','' \<in> set s then CHR 0x22 # s @ [CHR 0x22] else s)"

text \<open>One part of a \<open>Cookie\<close> line, between two semicolons.\<close>

definition read_cookie_part :: "string \<Rightarrow> string \<Rightarrow> (string \<times> string) option" where
  "read_cookie_part flt part0 =
     (let part = TrimSpace part0 in
      if part = [] then None
      else
        let j = IndexByte part (CHR ''='');
            (name, v) = (if 0 \<le> j then (take (nat j) part, drop (nat j + 1) part) else (part, []))
        in if \<not> isCookieNameValid name \<or> (flt \<noteq> [] \<and> flt \<noteq> name) then None
           else map_option (Pair name) (parseCookieValue v))"

definition readCookies :: "string list \<Rightarrow> string \<Rightarrow> (string \<times> string) list" where
  "readCookies lines flt =
     concat (map (\<lambda>line. List.map_filter (read_cookie_part flt)
                           (SplitByte (CHR '';'') (TrimSpace line))) lines)"

text \<open>
  A request: the \<open>Cookie\<close> header lines, \<open>r.URL.Host\<close>, whether \<open>r.TLS\<close> is set; and
  \<open>r_elapsed\<close>, the time that passes between two readings of the clock while it is served.
\<close>

record http_request =
  r_Cookie :: "string list"
  r_URL_Host :: string
  r_TLS :: bool
  r_elapsed :: duration

record http_cookie =
  c_Name :: string
  c_Value :: string
  c_Path :: string
  c_Domain :: string
  c_Expires :: time
  c_MaxAge :: int
  c_Secure :: bool
  c_HttpOnly :: bool

definition zero_cookie :: http_cookie where
  "zero_cookie = \<lparr>c_Name = [], c_Value = [], c_Path = [], c_Domain = [], c_Expires = 0, c_MaxAge = 0,
     c_Secure = False, c_HttpOnly = False\<rparr>"

definition Request_Cookie :: "http_request \<Rightarrow> string \<Rightarrow> http_cookie option" where
  "Request_Cookie r name =
     (case readCookies (r_Cookie r) name of
        [] \<Rightarrow> None
      | (n, v) # _ \<Rightarrow> Some (zero_cookie\<lparr>c_Name := n, c_Value := v\<rparr>))"

definition SetCookie :: "http_cookie \<Rightarrow> http_cookie list \<Rightarrow> http_cookie list" where
  "SetCookie c hdr =
     (if isCookieNameValid (c_Name c)
      then hdr @ [c\<lparr>c_Value := sanitizeCookieValue (c_Value c)\<rparr>] else hdr)"

section \<open>A cookie comes back as it was sent\<close>

definition plain_byte :: "char \<Rightarrow> bool" where
  "plain_byte c = (let n = of_char c :: nat in 0x21 \<le> n \<and> n < 0x7f \<and> n \<noteq> 34 \<and> n \<noteq> 44 \<and> n \<noteq> 59 \<and> n \<noteq> 92)"

definition plain_value :: "string \<Rightarrow> bool" where
  "plain_value v = list_all plain_byte v"

lemma plain_byte_valid: "plain_byte c \<Longrightarrow> validCookieValueByte c"
  by (auto simp: plain_byte_def validCookieValueByte_def Let_def)

lemma plain_byte_neq: "plain_byte c \<Longrightarrow> c \<noteq> CHR '' '' \<and> c \<noteq> CHR '','' \<and> c \<noteq> CHR 0x22 \<and> c \<noteq> CHR '';''"
  by (auto simp: plain_byte_def Let_def)

lemma sanitizeCookieValue_plain: "plain_value v \<Longrightarrow> sanitizeCookieValue v = v"
proof -
  assume p: "plain_value v"
  then have "filter validCookieValueByte v = v"
    by (simp add: plain_value_def list_all_iff filter_id_conv plain_byte_valid)
  moreover have "CHR '' '' \<notin> set v" "CHR '','' \<notin> set v"
    using p plain_byte_neq by (auto simp: plain_value_def list_all_iff)
  ultimately show ?thesis by (simp add: sanitizeCookieValue_def Let_def)
qed

lemma parseCookieValue_plain: "plain_value v \<Longrightarrow> parseCookieValue v = Some v"
proof -
  assume p: "plain_value v"
  then have "\<not> (1 < length v \<and> hd v = CHR 0x22 \<and> last v = CHR 0x22)"
    using plain_byte_neq by (cases v) (auto simp: plain_value_def)
  then show ?thesis
    using p plain_byte_valid by (auto simp: parseCookieValue_def plain_value_def list_all_iff Let_def)
qed

lemma token_plain: "isToken c \<Longrightarrow> plain_byte c \<and> c \<noteq> CHR ''=''"
  by (auto simp: isToken_def plain_byte_def Let_def)

lemma white_space_start:
  "sp \<in> set white_space \<Longrightarrow> \<not> plain_byte (hd sp) \<and> \<not> plain_byte (last sp) \<and> sp \<noteq> []"
  by (auto simp: white_space_def plain_byte_def Let_def)

lemma trim_left_plain:
  assumes "\<forall>sp\<in>set ws. sp \<noteq> [] \<and> \<not> plain_byte (hd sp)" "plain_byte c"
  shows "trim_left ws (c # cs) = c # cs"
proof -
  have "find (\<lambda>sp. sp \<noteq> [] \<and> take (length sp) (c # cs) = sp) ws = None"
    using assms by (auto simp: find_None_iff) (metis hd_take list.sel(1) length_greater_0_conv)
  then show ?thesis by simp
qed

lemma TrimSpace_plain: "s \<noteq> [] \<Longrightarrow> plain_byte (hd s) \<Longrightarrow> plain_byte (last s) \<Longrightarrow> TrimSpace s = s"
proof -
  assume s: "s \<noteq> []" "plain_byte (hd s)" "plain_byte (last s)"
  have l: "trim_left white_space s = s"
    using s white_space_start by (cases s) (auto simp: trim_left_plain simp del: trim_left.simps)
  obtain c cs where r: "rev s = c # cs" "c = last s" using s(1) by (cases "rev s") (auto simp: last_rev hd_rev [symmetric])
  have "trim_left (map rev white_space) (rev s) = rev s"
    unfolding r(1) using s(3) white_space_start r(2)
    by (intro trim_left_plain) (auto simp: hd_rev)
  with l show ?thesis by (simp add: TrimSpace_def)
qed

lemma SplitByte_none: "c \<notin> set s \<Longrightarrow> SplitByte c s = [s]"
  by (induction s) auto

lemma IndexByte_append: "c \<notin> set u \<Longrightarrow> IndexByte (u @ c # v) c = int (length u)"
  by (induction u) (auto simp: Let_def)

text \<open>The \<open>Cookie\<close> line with which a client returns a cookie.\<close>

definition cookie_line :: "string \<Rightarrow> string \<Rightarrow> string" where
  "cookie_line name v = name @ CHR ''='' # v"

lemma readCookies_line:
  assumes "isCookieNameValid name" "plain_value v"
  shows "readCookies [cookie_line name v] name = [(name, v)]"
proof -
  let ?l = "cookie_line name v"
  have n: "name \<noteq> []" "list_all isToken name" using assms(1) by (simp_all add: isCookieNameValid_def)
  then have pn: "\<forall>c\<in>set name. plain_byte c \<and> c \<noteq> CHR ''=''" using token_plain by (auto simp: list_all_iff)
  have pl: "\<forall>c\<in>set ?l. plain_byte c"
    using pn assms(2) by (auto simp: cookie_line_def plain_value_def list_all_iff plain_byte_def Let_def)
  have ne: "?l \<noteq> []" by (simp add: cookie_line_def)
  have trim: "TrimSpace ?l = ?l" using pl ne by (intro TrimSpace_plain) auto
  have split: "SplitByte (CHR '';'') ?l = [?l]" using pl plain_byte_neq by (intro SplitByte_none) blast
  have idx: "IndexByte ?l (CHR ''='') = int (length name)"
    using pn by (auto simp: cookie_line_def intro: IndexByte_append)
  have "read_cookie_part name ?l = Some (name, v)"
    using assms ne idx parseCookieValue_plain
    by (simp add: read_cookie_part_def trim Let_def) (simp add: cookie_line_def)
  then show ?thesis by (simp add: readCookies_def trim split map_filter_simps)
qed

end
