(* ===== verification/Cookie.thy ===== *)
theory Cookie
  imports GoHttp GoStrconv LifeTime
begin

text \<open>
  Model of \<^verbatim>\<open>cookie.go\<close>: cookies of \<open>net/http\<close> and of \<open>fasthttp\<close>, and which host names may be
  the domain of a cookie.

  Package \<open>fasthttp\<close> is not part of the sources: the record \<open>fasthttp\<close> holds the functions of it
  that the program calls, over a type \<open>'c\<close> of request contexts and a type \<open>'k\<close> of cookies.
\<close>

section \<open>net/http\<close>

definition GetCookie :: "http_request \<Rightarrow> string \<Rightarrow> string" where
  "GetCookie r name = (case Request_Cookie r name of None \<Rightarrow> [] | Some c \<Rightarrow> c_Value c)"

definition AddCookie :: "http_cookie \<Rightarrow> http_cookie list \<Rightarrow> http_cookie list" where
  "AddCookie cookie w = SetCookie cookie w"

definition RemoveCookie :: "http_request \<Rightarrow> string \<Rightarrow> http_cookie list \<Rightarrow> http_cookie list" where
  "RemoveCookie r name w =
     (case Request_Cookie r name of
        None \<Rightarrow> w
      | Some c \<Rightarrow>
          AddCookie (c\<lparr>c_Expires := CookieExpireDelete, c_MaxAge := -1, c_Value := [], c_Path := ''/''\<rparr>) w)"

section \<open>fasthttp\<close>

record ('c, 'k) fasthttp =
  fh_Request_Cookie :: "'c \<Rightarrow> string \<Rightarrow> string option"
  fh_Request_DelCookie :: "string \<Rightarrow> 'c \<Rightarrow> 'c"
  fh_Response_SetCookie :: "'k \<Rightarrow> 'c \<Rightarrow> 'c"
  fh_Response_DelCookie :: "string \<Rightarrow> 'c \<Rightarrow> 'c"
  fh_Host :: "'c \<Rightarrow> string"
  fh_IsTLS :: "'c \<Rightarrow> bool"
  fh_AcquireCookie :: 'k
  fh_SetKey :: "string \<Rightarrow> 'k \<Rightarrow> 'k"
  fh_SetValue :: "string \<Rightarrow> 'k \<Rightarrow> 'k"
  fh_Value :: "'k \<Rightarrow> string"
  fh_SetPath :: "string \<Rightarrow> 'k \<Rightarrow> 'k"
  fh_SetDomain :: "string \<Rightarrow> 'k \<Rightarrow> 'k"
  fh_SetHTTPOnly :: "bool \<Rightarrow> 'k \<Rightarrow> 'k"
  fh_SetSecure :: "bool \<Rightarrow> 'k \<Rightarrow> 'k"
  fh_SetExpire :: "time \<Rightarrow> 'k \<Rightarrow> 'k"

definition GetCookieFasthttp :: "('c, 'k) fasthttp \<Rightarrow> 'c \<Rightarrow> string \<Rightarrow> string" where
  "GetCookieFasthttp fh ctx name =
     (case fh_Request_Cookie fh ctx name of None \<Rightarrow> [] | Some bcookie \<Rightarrow> bcookie)"

definition AddCookieFasthttp :: "('c, 'k) fasthttp \<Rightarrow> 'k \<Rightarrow> 'c \<Rightarrow> 'c" where
  "AddCookieFasthttp fh cookie ctx = fh_Response_SetCookie fh cookie ctx"

definition RemoveCookieFasthttp :: "('c, 'k) fasthttp \<Rightarrow> time \<Rightarrow> string \<Rightarrow> 'c \<Rightarrow> 'c" where
  "RemoveCookieFasthttp fh now name ctx =
     (let ctx1 = fh_Response_DelCookie fh name ctx;
          cookie = fh_SetHTTPOnly fh True (fh_SetPath fh ''/'' (fh_SetValue fh []
                     (fh_SetKey fh name (fh_AcquireCookie fh))));
          exp = Time_Add now (- 60 * 1000000000);
          ctx2 = AddCookieFasthttp fh (fh_SetExpire fh exp cookie) ctx1
      in fh_Request_DelCookie fh name ctx2)"

section \<open>Domains\<close>

definition IsValidCookieDomain :: "string \<Rightarrow> bool" where
  "IsValidCookieDomain domain =
     (if domain = ''0.0.0.0'' \<or> domain = ''127.0.0.1'' then False
      else
        let dotLen = CountByte domain (CHR ''.'') in
        if dotLen = 0 then False
        else if 3 \<le> dotLen then
          (let lastDotIdx = LastIndexByte domain (CHR ''.'') in
           if lastDotIdx \<noteq> -1 \<and> int (length domain) > lastDotIdx + 1 \<and>
              snd (Atoi (drop (nat (lastDotIdx + 1)) domain)) = None
           then False else True)
        else True)"

section \<open>Lemmas\<close>

lemma GetCookie_line:
  "isCookieNameValid name \<Longrightarrow> plain_value v \<Longrightarrow> r_Cookie r = [cookie_line name v] \<Longrightarrow>
     GetCookie r name = v"
  by (simp add: GetCookie_def Request_Cookie_def readCookies_line)

lemma GetCookie_none [simp]: "r_Cookie r = [] \<Longrightarrow> GetCookie r name = []"
  by (simp add: GetCookie_def Request_Cookie_def readCookies_def)

end
