(* ===== verification/Manager.thy ===== *)
theory Manager
  imports WorldInv Config Cookie
begin

text \<open>
  Model of \<^verbatim>\<open>sessions.go\<close>: the manager that ties cookies to sessions.

  \<open>m_world\<close> holds the provider (with the sessions, timers and databases), \<open>m_calls\<close> counts the
  calls to the user's functions in the configuration, and \<open>m_unlimited\<close> is the package variable
  \<open>CookieExpireUnlimited\<close> of \<^verbatim>\<open>cookie.go\<close>, computed when the program starts. A handler is a
  function on the response and the manager; \<open>'d\<close> is the type of the databases.
\<close>

record 'd Sessions =
  m_config :: Config
  m_world :: "'d world"
  m_calls :: nat
  m_unlimited :: time

definition New :: "(nat \<Rightarrow> byte list option) \<Rightarrow> time \<Rightarrow> (nat \<Rightarrow> nat) \<Rightarrow> time \<Rightarrow> Config \<Rightarrow> 'd Sessions" where
  "New rand now gr unlimited cfg =
     \<lparr>m_config = Config_Validate rand cfg,
      m_world = \<lparr>w_now = now, w_grow = gr, w_timers = [], w_mem = [], w_pool = [], w_heap = [],
                 w_provider = newProvider\<rparr>,
      m_calls = 0, m_unlimited = unlimited\<rparr>"

text \<open>Calls into the provider, and calls of a user function.\<close>

definition on_world ::
  "('d world \<Rightarrow> 'a outcome \<times> 'd world) \<Rightarrow> 'd Sessions \<Rightarrow> 'a outcome \<times> 'd Sessions" where
  "on_world f s = (let (r, w) = f (m_world s) in (r, s\<lparr>m_world := w\<rparr>))"

definition user_call :: "(nat \<Rightarrow> 'a) \<Rightarrow> 'd Sessions \<Rightarrow> 'a \<times> 'd Sessions" where
  "user_call f s = (f (m_calls s), s\<lparr>m_calls := Suc (m_calls s)\<rparr>)"

text \<open>An operation on the manager, as one on the response (or request context) and the manager.\<close>

definition in_request ::
  "('s \<Rightarrow> 'a outcome \<times> 's) \<Rightarrow> 'r \<times> 's \<Rightarrow> 'a outcome \<times> 'r \<times> 's" where
  "in_request f = (\<lambda>(w, s). let (r, s') = f s in (r, w, s'))"

definition UseDatabase :: "'d \<Rightarrow> 'd Sessions \<Rightarrow> unit outcome \<times> 'd Sessions" where
  "UseDatabase db = on_world (RegisterDatabase db)"

section \<open>The cookie value\<close>

definition decodeCookieValue :: "string \<Rightarrow> 'd Sessions \<Rightarrow> string outcome \<times> 'd Sessions" where
  "decodeCookieValue cookieValue s =
     (if cookieValue = [] then (Ret [], s)
      else
        case Decode (m_config s) of
          None \<Rightarrow> (Ret cookieValue, s)
        | Some decode \<Rightarrow>
            (let (r, s1) = user_call (\<lambda>n. decode n (Cookie (m_config s)) cookieValue) s in
             case r of
               None \<Rightarrow> (Ret [], s1)
             | Some (Some v) \<Rightarrow> (Ret v, s1)
             | Some None \<Rightarrow> (Panic ''nil pointer dereference'', s1)))"

definition encodeCookieValue :: "string \<Rightarrow> 'd Sessions \<Rightarrow> string \<times> 'd Sessions" where
  "encodeCookieValue cookieValue s =
     (case Encode (m_config s) of
        None \<Rightarrow> (cookieValue, s)
      | Some encode \<Rightarrow>
          (let (r, s1) = user_call (\<lambda>n. encode n (Cookie (m_config s)) cookieValue) s in
           case r of None \<Rightarrow> ([], s1) | Some newVal \<Rightarrow> (newVal, s1)))"

definition SessionIDGenerator_call :: "'d Sessions \<Rightarrow> string outcome \<times> 'd Sessions" where
  "SessionIDGenerator_call s =
     (case SessionIDGenerator (m_config s) of
        None \<Rightarrow> (Panic ''nil function'', s)
      | Some gen \<Rightarrow> user_call gen s)"

section \<open>The cookie\<close>

text \<open>
  The part of \<open>updateCookie\<close> and \<open>updateCookieFasthttp\<close> that derives the domain from the host:
  \<open>None\<close> when no domain is set. A Go slice expression \<open>s[0:i]\<close> is \<open>take\<close> and \<open>s[i:]\<close> is
  \<open>drop\<close>; the indices come from \<open>IndexByte\<close> and \<open>LastIndexByte\<close> and are in range.
\<close>

definition strip_port :: "string \<Rightarrow> string" where
  "strip_port requestDomain =
     (let portIdx = IndexByte requestDomain (CHR '':'') in
      if portIdx > 0 then take (nat portIdx) requestDomain else requestDomain)"

definition reduce_domain :: "string \<Rightarrow> string" where
  "reduce_domain requestDomain =
     (let dotIdx = LastIndexByte requestDomain (CHR ''.'') in
      if dotIdx > 0 then
        let s = take (nat dotIdx) requestDomain;
            secondDotIdx = LastIndexByte s (CHR ''.'');
            s1 = (if secondDotIdx > 0 then drop (nat secondDotIdx + 1) s else s);
            subdomainSuff = LastIndexByte requestDomain (CHR ''.'')
        in if subdomainSuff > int (length s1)
           then Replace1 requestDomain (take (nat subdomainSuff) requestDomain) s1
           else requestDomain
      else requestDomain)"

definition cookie_domain :: "bool \<Rightarrow> string \<Rightarrow> string option" where
  "cookie_domain disabled host =
     (if disabled then None
      else
        let requestDomain = strip_port host in
        if IsValidCookieDomain requestDomain then Some (CHR ''.'' # reduce_domain requestDomain)
        else None)"

definition updateCookie ::
  "http_request \<Rightarrow> string \<Rightarrow> duration \<Rightarrow> http_cookie list \<times> 'd Sessions \<Rightarrow> http_cookie list \<times> 'd Sessions" where
  "updateCookie r sid expires = (\<lambda>(w, s).
     let cfg = m_config s; now = w_now (m_world s);
         cookie = zero_cookie\<lparr>c_Name := Cookie cfg, c_Value := sid, c_Path := ''/''\<rparr>;
         cookie1 = (case cookie_domain (DisableSubdomainPersistence cfg) (r_URL_Host r) of
                      None \<Rightarrow> cookie | Some d \<Rightarrow> cookie\<lparr>c_Domain := d\<rparr>);
         cookie2 = cookie1\<lparr>c_HttpOnly := True\<rparr>;
         cookie3 = (if expires \<ge> 0 then
                      let e = (if expires = 0 then m_unlimited s else Time_Add now expires)
                      in cookie2\<lparr>c_Expires := e,
                           c_MaxAge := seconds_int (Time_Sub e (Time_Add now (r_elapsed r)))\<rparr>
                    else cookie2);
         cookie4 = (if r_TLS r \<and> CookieSecureTLS cfg then cookie3\<lparr>c_Secure := True\<rparr> else cookie3);
         (v, s1) = encodeCookieValue (c_Value cookie4) s
     in (AddCookie (cookie4\<lparr>c_Value := v\<rparr>) w, s1))"

definition updateCookieFasthttp ::
  "('c, 'k) fasthttp \<Rightarrow> string \<Rightarrow> duration \<Rightarrow> 'c \<times> 'd Sessions \<Rightarrow> 'c \<times> 'd Sessions" where
  "updateCookieFasthttp fh sid expires = (\<lambda>(ctx, s).
     let cfg = m_config s; now = w_now (m_world s);
         cookie = fh_SetPath fh ''/'' (fh_SetValue fh sid (fh_SetKey fh (Cookie cfg) (fh_AcquireCookie fh)));
         cookie1 = (case cookie_domain (DisableSubdomainPersistence cfg) (fh_Host fh ctx) of
                      None \<Rightarrow> cookie | Some d \<Rightarrow> fh_SetDomain fh d cookie);
         cookie2 = fh_SetHTTPOnly fh True cookie1;
         cookie3 = (if expires \<ge> 0 then
                      if expires = 0 then fh_SetExpire fh (m_unlimited s) cookie2
                      else fh_SetExpire fh (Time_Add now expires) cookie2
                    else cookie2);
         cookie4 = (if fh_IsTLS fh ctx \<and> CookieSecureTLS cfg then fh_SetSecure fh True cookie3 else cookie3);
         (v, s1) = encodeCookieValue (fh_Value fh cookie4) s
     in (AddCookieFasthttp fh (fh_SetValue fh v cookie4) ctx, s1))"

section \<open>Requests\<close>

text \<open>\<open>sess.isNew = sess.values.Len() == 0\<close>\<close>

definition mark_new :: "nat \<Rightarrow> 'd world \<Rightarrow> 'd world" where
  "mark_new ref w =
     (let sess = w_heap w ! ref
      in set_session ref (sess\<lparr>s_isNew := (Store_Len (s_values sess) = 0)\<rparr>) w)"

text \<open>
  The body of \<open>Start\<close> and \<open>StartFasthttp\<close>, which differ in how they read the cookie and in the
  function that writes it.
\<close>

definition start_with ::
  "'d dbops \<Rightarrow> string \<Rightarrow> (string \<Rightarrow> duration \<Rightarrow> 'r \<times> 'd Sessions \<Rightarrow> 'r \<times> 'd Sessions) \<Rightarrow> 'r \<times> 'd Sessions
     \<Rightarrow> nat outcome \<times> 'r \<times> 'd Sessions" where
  "start_with ops raw update ws =
     bind_out (in_request (decodeCookieValue raw) ws) (\<lambda>cookieValue ws1.
       let expires = Expires (m_config (snd ws1)) in
       if cookieValue = [] then
         bind_out (in_request SessionIDGenerator_call ws1) (\<lambda>sid ws2.
           bind_out (in_request (on_world (provider_Init ops sid expires)) ws2) (\<lambda>sess (w, s).
             (Ret sess, update sid expires (w, s\<lparr>m_world := mark_new sess (m_world s)\<rparr>))))
       else in_request (on_world (provider_Read ops cookieValue expires)) ws1)"

definition Start ::
  "'d dbops \<Rightarrow> http_request \<Rightarrow> http_cookie list \<times> 'd Sessions \<Rightarrow> nat outcome \<times> http_cookie list \<times> 'd Sessions" where
  "Start ops r ws = start_with ops (GetCookie r (Cookie (m_config (snd ws)))) (updateCookie r) ws"

definition StartFasthttp ::
  "'d dbops \<Rightarrow> ('c, 'k) fasthttp \<Rightarrow> 'c \<times> 'd Sessions \<Rightarrow> nat outcome \<times> 'c \<times> 'd Sessions" where
  "StartFasthttp ops fh ws =
     start_with ops (GetCookieFasthttp fh (fst ws) (Cookie (m_config (snd ws)))) (updateCookieFasthttp fh) ws"

definition update_expiration_with ::
  "string \<Rightarrow> (string \<Rightarrow> duration \<Rightarrow> 'r \<times> 'd Sessions \<Rightarrow> 'r \<times> 'd Sessions) \<Rightarrow> duration \<Rightarrow> 'r \<times> 'd Sessions
     \<Rightarrow> unit outcome \<times> 'r \<times> 'd Sessions" where
  "update_expiration_with raw update expires ws =
     bind_out (in_request (decodeCookieValue raw) ws) (\<lambda>cookieValue ws1.
       if cookieValue \<noteq> [] then
         bind_out (in_request (on_world (provider_UpdateExpiration cookieValue expires)) ws1)
           (\<lambda>ok ws2. (Ret (), if ok then update cookieValue expires ws2 else ws2))
       else (Ret (), ws1))"

definition UpdateExpiration ::
  "http_request \<Rightarrow> duration \<Rightarrow> http_cookie list \<times> 'd Sessions \<Rightarrow> unit outcome \<times> http_cookie list \<times> 'd Sessions" where
  "UpdateExpiration r expires ws =
     update_expiration_with (GetCookie r (Cookie (m_config (snd ws)))) (updateCookie r) expires ws"

definition UpdateExpirationFasthttp ::
  "('c, 'k) fasthttp \<Rightarrow> duration \<Rightarrow> 'c \<times> 'd Sessions \<Rightarrow> unit outcome \<times> 'c \<times> 'd Sessions" where
  "UpdateExpirationFasthttp fh expires ws =
     update_expiration_with (GetCookieFasthttp fh (fst ws) (Cookie (m_config (snd ws))))
       (updateCookieFasthttp fh) expires ws"

definition ShiftExpiration ::
  "http_request \<Rightarrow> http_cookie list \<times> 'd Sessions \<Rightarrow> unit outcome \<times> http_cookie list \<times> 'd Sessions" where
  "ShiftExpiration r ws = UpdateExpiration r (Expires (m_config (snd ws))) ws"

definition ShiftExpirationFasthttp ::
  "('c, 'k) fasthttp \<Rightarrow> 'c \<times> 'd Sessions \<Rightarrow> unit outcome \<times> 'c \<times> 'd Sessions" where
  "ShiftExpirationFasthttp fh ws = UpdateExpirationFasthttp fh (Expires (m_config (snd ws))) ws"

definition destroy :: "'d dbops \<Rightarrow> string \<Rightarrow> 'd Sessions \<Rightarrow> unit outcome \<times> 'd Sessions" where
  "destroy ops raw s =
     bind_out (decodeCookieValue raw s) (\<lambda>cookieValue s1.
       if cookieValue = [] then (Ret (), s1) else on_world (provider_Destroy ops cookieValue) s1)"

definition Destroy ::
  "'d dbops \<Rightarrow> http_request \<Rightarrow> http_cookie list \<times> 'd Sessions \<Rightarrow> unit outcome \<times> http_cookie list \<times> 'd Sessions" where
  "Destroy ops r ws =
     (let cookieValue = GetCookie r (Cookie (m_config (snd ws))) in
      bind_out (in_request (destroy ops cookieValue) ws) (\<lambda>_ (w, s).
        (Ret (), RemoveCookie r (Cookie (m_config s)) w, s)))"

definition DestroyFasthttp ::
  "'d dbops \<Rightarrow> ('c, 'k) fasthttp \<Rightarrow> 'c \<times> 'd Sessions \<Rightarrow> unit outcome \<times> 'c \<times> 'd Sessions" where
  "DestroyFasthttp ops fh ws =
     (let cookieValue = GetCookieFasthttp fh (fst ws) (Cookie (m_config (snd ws))) in
      bind_out (in_request (destroy ops cookieValue) ws) (\<lambda>_ (ctx, s).
        (Ret (), RemoveCookieFasthttp fh (w_now (m_world s)) (Cookie (m_config s)) ctx, s)))"

definition DestroyByID :: "'d dbops \<Rightarrow> string \<Rightarrow> 'd Sessions \<Rightarrow> unit outcome \<times> 'd Sessions" where
  "DestroyByID ops sid = on_world (provider_Destroy ops sid)"

definition DestroyAll :: "'d dbops \<Rightarrow> string list \<Rightarrow> 'd Sessions \<Rightarrow> unit outcome \<times> 'd Sessions" where
  "DestroyAll ops order = on_world (provider_DestroyAll ops order)"

section \<open>The package-level functions\<close>

text \<open>
  They call the method of the manager \<open>Default\<close>, a variable of the package: its value is the state
  that they take and return. \<open>Default_New\<close> is its initial value.
\<close>

definition Default_New :: "(nat \<Rightarrow> byte list option) \<Rightarrow> time \<Rightarrow> (nat \<Rightarrow> nat) \<Rightarrow> time \<Rightarrow> 'd Sessions" where
  "Default_New rand now gr unlimited = New rand now gr unlimited (Config_Validate rand zero_config)"

definition pkg_UseDatabase :: "'d \<Rightarrow> 'd Sessions \<Rightarrow> unit outcome \<times> 'd Sessions" where
  "pkg_UseDatabase db def = UseDatabase db def"

definition pkg_Start ::
  "'d dbops \<Rightarrow> http_request \<Rightarrow> http_cookie list \<times> 'd Sessions \<Rightarrow> nat outcome \<times> http_cookie list \<times> 'd Sessions" where
  "pkg_Start ops r wd = Start ops r wd"

definition pkg_StartFasthttp where
  "pkg_StartFasthttp ops fh wd = StartFasthttp ops fh wd"

definition pkg_ShiftExpiration ::
  "http_request \<Rightarrow> http_cookie list \<times> 'd Sessions \<Rightarrow> unit outcome \<times> http_cookie list \<times> 'd Sessions" where
  "pkg_ShiftExpiration r wd = ShiftExpiration r wd"

definition pkg_ShiftExpirationFasthttp where
  "pkg_ShiftExpirationFasthttp fh wd = ShiftExpirationFasthttp fh wd"

definition pkg_UpdateExpiration ::
  "http_request \<Rightarrow> duration \<Rightarrow> http_cookie list \<times> 'd Sessions \<Rightarrow> unit outcome \<times> http_cookie list \<times> 'd Sessions" where
  "pkg_UpdateExpiration r expires wd = UpdateExpiration r expires wd"

definition pkg_UpdateExpirationFasthttp where
  "pkg_UpdateExpirationFasthttp fh expires wd = UpdateExpirationFasthttp fh expires wd"

definition pkg_Destroy ::
  "'d dbops \<Rightarrow> http_request \<Rightarrow> http_cookie list \<times> 'd Sessions \<Rightarrow> unit outcome \<times> http_cookie list \<times> 'd Sessions" where
  "pkg_Destroy ops r wd = Destroy ops r wd"

definition pkg_DestroyFasthttp where
  "pkg_DestroyFasthttp ops fh wd = DestroyFasthttp ops fh wd"

definition pkg_DestroyByID :: "'d dbops \<Rightarrow> string \<Rightarrow> 'd Sessions \<Rightarrow> unit outcome \<times> 'd Sessions" where
  "pkg_DestroyByID ops sid def = DestroyByID ops sid def"

definition pkg_DestroyAll :: "'d dbops \<Rightarrow> string list \<Rightarrow> 'd Sessions \<Rightarrow> unit outcome \<times> 'd Sessions" where
  "pkg_DestroyAll ops order def = DestroyAll ops order def"

end
