(* ===== verification/CookieProps.thy ===== *)
theory CookieProps
  imports Manager
begin

text \<open>
  Properties of the session cookie: which hosts may be the domain of a cookie, the domain that
  \<open>updateCookie\<close> derives from the host of a request, and the attributes of the cookie it sets.
\<close>

section \<open>Domains\<close>

lemma CountByte_append [simp]: "CountByte (u @ v) c = CountByte u c + CountByte v c"
  by (simp add: CountByte_def)

lemma CountByte_none: "c \<notin> set v \<Longrightarrow> CountByte v c = 0"
  by (simp add: CountByte_def filter_empty_conv) metis

lemma IndexByte_none: "c \<notin> set s \<Longrightarrow> IndexByte s c = -1"
  using IndexByte_cases [of s c] by (metis nth_mem)

lemma strip_port_append:
  assumes "u \<noteq> []" "CHR '':'' \<notin> set u"
  shows "strip_port (u @ CHR '':'' # port) = u" "strip_port u = u"
  using assms by (simp_all add: strip_port_def IndexByte_append IndexByte_none Let_def)

lemma reduce_domain_sub:
  assumes "p \<noteq> []" "CHR ''.'' \<notin> set a" "CHR ''.'' \<notin> set b"
  shows "reduce_domain (p @ CHR ''.'' # a @ CHR ''.'' # b) = a @ CHR ''.'' # b"
proof -
  define s where "s = p @ CHR ''.'' # a"
  define d where "d = s @ CHR ''.'' # b"
  have i: "LastIndexByte d (CHR ''.'') = int (length s)"
    unfolding d_def by (rule LastIndexByte_append [OF assms(3)])
  have j: "LastIndexByte s (CHR ''.'') = int (length p)"
    unfolding s_def by (rule LastIndexByte_append [OF assms(2)])
  have t: "take (length s) d = s" "drop (Suc (length p)) s = a" "drop (length s) d = CHR ''.'' # b"
    by (simp_all add: d_def s_def)
  have "length a < length s" "0 < length p" "s \<noteq> []" using assms(1) by (simp_all add: s_def)
  then have "reduce_domain d = Replace1 d (take (length s) d) a"
    using i j t by (simp add: reduce_domain_def Let_def)
  also have "\<dots> = a @ drop (length s) d" by (rule Replace1_prefix) (simp add: d_def)
  finally show ?thesis by (simp add: t(3)) (simp add: d_def s_def)
qed

lemma reduce_domain_top:
  assumes "CHR ''.'' \<notin> set a" "CHR ''.'' \<notin> set b"
  shows "reduce_domain (a @ CHR ''.'' # b) = a @ CHR ''.'' # b"
proof -
  have "LastIndexByte a (CHR ''.'') = -1" using LastIndexByte_cases [of a] assms(1) by (metis nth_mem)
  then show ?thesis
    using LastIndexByte_append [OF assms(2), of a] by (simp add: reduce_domain_def Let_def)
qed

text \<open>A label that \<open>strconv.Atoi\<close> rejects at its first byte.\<close>

definition no_number :: "string \<Rightarrow> bool" where
  "no_number v = (v \<noteq> [] \<and> digit_of (hd v) = None \<and> hd v \<noteq> CHR ''+'' \<and> hd v \<noteq> CHR ''-'')"

lemma IsValidCookieDomain_many:
  assumes u: "2 \<le> CountByte u (CHR ''.'')" and v: "CHR ''.'' \<notin> set v"
  shows "v \<noteq> [] \<Longrightarrow> all_digits v \<Longrightarrow> dec_val v 0 < 2 ^ 63 \<Longrightarrow> IsValidCookieDomain (u @ CHR ''.'' # v) = False"
    "v = [] \<or> no_number v \<Longrightarrow> IsValidCookieDomain (u @ CHR ''.'' # v) = True"
proof -
  have i: "LastIndexByte (u @ CHR ''.'' # v) (CHR ''.'') = int (length u)" by (rule LastIndexByte_append [OF v])
  have n: "3 \<le> CountByte (u @ CHR ''.'' # v) (CHR ''.'')" using u by (simp add: CountByte_def)
  then have d: "CountByte (u @ CHR ''.'' # v) (CHR ''.'') \<noteq> 0" by linarith
  show "IsValidCookieDomain (u @ CHR ''.'' # v) = False" if "v \<noteq> []" "all_digits v" "dec_val v 0 < 2 ^ 63"
    using that i n d Atoi_digits [of v]
    by (simp add: IsValidCookieDomain_def Let_def nat_add_distrib del: CountByte_append)
  show "IsValidCookieDomain (u @ CHR ''.'' # v) = True" if hd: "v = [] \<or> no_number v"
  proof -
    have a: "v = [] \<or> snd (Atoi v) \<noteq> None"
      using hd by (cases v) (auto simp: Atoi_def ParseInt_def ParseUint_def no_number_def)
    have "last (u @ CHR ''.'' # v) \<notin> {CHR ''0'', CHR ''1''} \<or> v \<noteq> [hd v]"
      using hd by (cases v) (auto simp: no_number_def digit_of_def)
    then have "u @ CHR ''.'' # v \<noteq> ''0.0.0.0'' \<and> u @ CHR ''.'' # v \<noteq> ''127.0.0.1''"
      using v hd by (auto simp: no_number_def digit_of_def append_eq_Cons_conv Cons_eq_append_conv)
    then show ?thesis
      using a i n d by (auto simp: IsValidCookieDomain_def Let_def nat_add_distrib simp del: CountByte_append)
  qed
qed

lemma updateCookie_sends:
  fixes s :: "'d Sessions"
  assumes "isCookieNameValid (Cookie (m_config s))"
  shows "\<exists>c. updateCookie r sid expires (w, s) = (w @ [c], snd (encodeCookieValue sid s)) \<and>
     c_Name c = Cookie (m_config s) \<and> c_Value c = sanitizeCookieValue (fst (encodeCookieValue sid s))"
  using assms
  by (auto simp: updateCookie_def Let_def AddCookie_def SetCookie_def zero_cookie_def split: option.split prod.split)

section \<open>Properties\<close>

text \<open>
  Which hosts may be a cookie domain. A name without a dot may not, and neither may the two
  listed addresses; a name with one or two dots may; a name with three or more dots may not when
  what follows the last dot is a decimal number (an IPv4 address), and may when it is empty or
  starts with something that is neither a digit nor a sign.
\<close>

theorem IsValidCookieDomain_cases:
  "IsValidCookieDomain ''0.0.0.0'' = False \<and> IsValidCookieDomain ''127.0.0.1'' = False \<and>
   (CHR ''.'' \<notin> set d \<longrightarrow> IsValidCookieDomain d = False) \<and>
   (CountByte d (CHR ''.'') \<in> {1, 2} \<longrightarrow> IsValidCookieDomain d = True) \<and>
   (2 \<le> CountByte u (CHR ''.'') \<and> CHR ''.'' \<notin> set v \<longrightarrow>
      (v \<noteq> [] \<and> all_digits v \<and> dec_val v 0 < 2 ^ 63 \<longrightarrow> IsValidCookieDomain (u @ CHR ''.'' # v) = False) \<and>
      (v = [] \<or> no_number v \<longrightarrow> IsValidCookieDomain (u @ CHR ''.'' # v) = True))"
proof -
  have "IsValidCookieDomain ''0.0.0.0'' = False" "IsValidCookieDomain ''127.0.0.1'' = False"
    by (simp_all add: IsValidCookieDomain_def)
  moreover have "CHR ''.'' \<notin> set d \<longrightarrow> IsValidCookieDomain d = False"
    by (simp add: IsValidCookieDomain_def CountByte_none)
  moreover have "CountByte d (CHR ''.'') \<in> {1, 2} \<longrightarrow> IsValidCookieDomain d = True"
    by (auto simp: IsValidCookieDomain_def CountByte_def)
  ultimately show ?thesis using IsValidCookieDomain_many by auto
qed

theorem IsValidCookieDomain_cases_witness:
  "IsValidCookieDomain ''192.168.0.'' = True \<and> IsValidCookieDomain ''10.0.0.7'' = False \<and>
   IsValidCookieDomain ''a.b'' = True \<and> IsValidCookieDomain ''localhost'' = False"
proof -
  have "IsValidCookieDomain (''10.0.0'' @ CHR ''.'' # ''7'') = False"
    using IsValidCookieDomain_cases [of "''localhost''" "''10.0.0''" "''7''"]
    by (simp add: CountByte_def all_digits_def digit_of_def)
  moreover have "IsValidCookieDomain (''192.168.0'' @ CHR ''.'' # []) = True"
    using IsValidCookieDomain_cases [of "''localhost''" "''192.168.0''" "[]"] by (simp add: CountByte_def)
  moreover have "IsValidCookieDomain ''a.b'' = True" "IsValidCookieDomain ''localhost'' = False"
    using IsValidCookieDomain_cases [of "''a.b''" "[]" "[]"] IsValidCookieDomain_cases [of "''localhost''" "[]" "[]"]
    by (simp_all add: CountByte_def)
  ultimately show ?thesis by simp
qed

text \<open>
  C21. The domain of the session cookie: for a host of two labels \<open>a.b\<close> it is \<open>.a.b\<close>, and for a
  host with any number of labels before them it is also \<open>.a.b\<close>, with the port removed from the
  host; the cookie has no domain when the host may not be one or when subdomain persistence is
  disabled.
\<close>

theorem cookie_domain_last_two_labels:
  assumes "CHR ''.'' \<notin> set a" "CHR ''.'' \<notin> set b" "a \<noteq> []"
    and "pre = [] \<or> (\<exists>p. p \<noteq> [] \<and> pre = p @ ''.'')" "port = [] \<or> hd port = CHR '':''"
    and "CHR '':'' \<notin> set (pre @ a @ CHR ''.'' # b)"
  shows "cookie_domain False (pre @ a @ CHR ''.'' # b @ port) =
      (if IsValidCookieDomain (pre @ a @ CHR ''.'' # b) then Some (CHR ''.'' # a @ CHR ''.'' # b) else None) \<and>
    cookie_domain True host = None"
proof -
  let ?h = "pre @ a @ CHR ''.'' # b"
  have "strip_port (?h @ port) = ?h"
    using assms(3,5,6) strip_port_append(1) [of ?h "tl port"] strip_port_append(2) [of ?h]
    by (cases port) auto
  moreover have "reduce_domain ?h = a @ CHR ''.'' # b"
    using assms(4) reduce_domain_sub [OF _ assms(1,2)] reduce_domain_top [OF assms(1,2)] by auto
  ultimately show ?thesis by (simp add: cookie_domain_def Let_def)
qed

theorem cookie_domain_last_two_labels_witness:
  "cookie_domain False ''mysubsubdomain.mysubdomain.localhost.com:8080'' = Some ''.localhost.com''"
proof -
  have "IsValidCookieDomain ''mysubsubdomain.mysubdomain.localhost.com''"
    by (simp add: IsValidCookieDomain_def CountByte_def Atoi_def ParseInt_def ParseUint_def digit_of_def)
  then show ?thesis
    using cookie_domain_last_two_labels [of "''localhost''" "''com''" "''mysubsubdomain.mysubdomain.''" "'':8080''"]
    by auto
qed

text \<open>
  C20. The cookie that \<open>updateCookie\<close> adds when the cookie name is valid: it carries the encoded
  session id, the path \<open>/\<close> and \<open>HttpOnly\<close>; it is \<open>Secure\<close> exactly when the request came over TLS
  and the configuration asks for it; for a negative \<open>expires\<close> it is a browser-session cookie
  (no \<open>Expires\<close>, no \<open>Max-Age\<close>); for a positive one \<open>Expires\<close> is that much after now and \<open>MaxAge\<close>
  is the remaining time in seconds, rounded down up to the float rounding, and never negative
  unless serving the request took longer than \<open>expires\<close>; for \<open>expires\<close> zero, the default,
  \<open>Expires\<close> is the instant \<open>CookieExpireUnlimited\<close> and \<open>MaxAge\<close> is the time left until then in
  the same rounding (positive when at least a second is left, as far as a \<open>Duration\<close> can hold
  it), and it is not positive once less than a second is left.
\<close>

theorem updateCookie_attributes:
  fixes s :: "'d Sessions"
  assumes "isCookieNameValid (Cookie (m_config s))"
    and "0 < expires \<Longrightarrow> expires \<le> max_duration" "0 \<le> r_elapsed r" "0 < expires \<Longrightarrow> r_elapsed r \<le> expires"
  shows "\<exists>c. updateCookie r sid expires (w, s) = (w @ [c], snd (encodeCookieValue sid s)) \<and>
     c_Name c = Cookie (m_config s) \<and> c_Value c = sanitizeCookieValue (fst (encodeCookieValue sid s)) \<and>
     c_Path c = ''/'' \<and> c_HttpOnly c \<and> (c_Secure c \<longleftrightarrow> r_TLS r \<and> CookieSecureTLS (m_config s)) \<and>
     c_Domain c = (case cookie_domain (DisableSubdomainPersistence (m_config s)) (r_URL_Host r) of
                     None \<Rightarrow> [] | Some d \<Rightarrow> d) \<and>
     (expires < 0 \<longrightarrow> c_Expires c = 0 \<and> c_MaxAge c = 0) \<and>
     (0 < expires \<longrightarrow> c_Expires c = w_now (m_world s) + expires \<and> 0 \<le> c_MaxAge c \<and>
        (expires - r_elapsed r) div Second \<le> c_MaxAge c \<and> c_MaxAge c \<le> (expires - r_elapsed r) div Second + 1) \<and>
     (expires = 0 \<longrightarrow> c_Expires c = m_unlimited s \<and>
        (0 \<le> m_unlimited s - w_now (m_world s) - r_elapsed r \<and>
         m_unlimited s - w_now (m_world s) - r_elapsed r \<le> max_duration \<longrightarrow>
           (m_unlimited s - w_now (m_world s) - r_elapsed r) div Second \<le> c_MaxAge c \<and>
           c_MaxAge c \<le> (m_unlimited s - w_now (m_world s) - r_elapsed r) div Second + 1) \<and>
        (m_unlimited s - w_now (m_world s) - r_elapsed r < Second \<longrightarrow> c_MaxAge c \<le> 0))"
proof -
  obtain v s1 where enc: "encodeCookieValue sid s = (v, s1)" by (cases "encodeCookieValue sid s")
  let ?n = "w_now (m_world s)"
  have sub: "Time_Sub (Time_Add ?n expires) (Time_Add ?n (r_elapsed r)) = expires - r_elapsed r" if "0 < expires"
    using assms(2-4) that by (subst Time_Sub_exact) (auto simp: Time_Add_def min_duration_def)
  have bounds: "0 \<le> seconds_int (expires - r_elapsed r) \<and>
      (expires - r_elapsed r) div Second \<le> seconds_int (expires - r_elapsed r) \<and>
      seconds_int (expires - r_elapsed r) \<le> (expires - r_elapsed r) div Second + 1" if "0 < expires"
    using seconds_int_bounds [of "expires - r_elapsed r"] assms(4) [OF that]
    by (auto simp: seconds_int_def)
  let ?left = "m_unlimited s - ?n - r_elapsed r" and ?now = "Time_Add ?n (r_elapsed r)"
  have unlimited: "?left div Second \<le> seconds_int (Time_Sub (m_unlimited s) ?now) \<and>
      seconds_int (Time_Sub (m_unlimited s) ?now) \<le> ?left div Second + 1" if "0 \<le> ?left" "?left \<le> max_duration"
    using seconds_int_bounds [OF that(1)] that
    by (subst (1 2) Time_Sub_exact) (auto simp: Time_Add_def min_duration_def algebra_simps)
  have past: "seconds_int (Time_Sub (m_unlimited s) ?now) \<le> 0" if "?left < Second"
    using that by (intro seconds_int_small) (simp add: Time_Sub_def Time_Add_def min_duration_def Second_def)
  show ?thesis
    using assms(1) sub bounds unlimited past
    by (auto simp: updateCookie_def enc Let_def AddCookie_def SetCookie_def zero_cookie_def Time_Add_def
        split: option.split)
qed

theorem updateCookie_attributes_witness:
  "(\<exists>c. updateCookie \<lparr>r_Cookie = [], r_URL_Host = ''a.com'', r_TLS = True, r_elapsed = 1000\<rparr> ''id'' (5 * Second)
      ([], New (\<lambda>_. None) 0 (\<lambda>_. 0) (9 * Second) zero_config :: nat Sessions) =
       ([c], snd (encodeCookieValue ''id'' (New (\<lambda>_. None) 0 (\<lambda>_. 0) (9 * Second) zero_config :: nat Sessions))) \<and>
     c_Domain c = ''.a.com'' \<and> 4 \<le> c_MaxAge c \<and> c_MaxAge c \<le> 5 \<and> c_Expires c = 5 * Second) \<and>
   (\<exists>c. updateCookie \<lparr>r_Cookie = [], r_URL_Host = ''a.com'', r_TLS = True, r_elapsed = 1000\<rparr> ''id'' 0
      ([], New (\<lambda>_. None) 0 (\<lambda>_. 0) (9 * Second) zero_config :: nat Sessions) =
       ([c], snd (encodeCookieValue ''id'' (New (\<lambda>_. None) 0 (\<lambda>_. 0) (9 * Second) zero_config :: nat Sessions))) \<and>
     c_Expires c = 9 * Second \<and> 8 \<le> c_MaxAge c \<and> c_MaxAge c \<le> 9)"
proof -
  let ?r = "\<lparr>r_Cookie = [], r_URL_Host = ''a.com'', r_TLS = True, r_elapsed = 1000\<rparr>"
  let ?s = "New (\<lambda>_. None) 0 (\<lambda>_. 0) (9 * Second) zero_config :: nat Sessions"
  have "isCookieNameValid (Cookie (m_config ?s))"
    by (simp add: New_def zero_config_def DefaultCookieName_def isCookieNameValid_def isToken_def Let_def)
  moreover have "cookie_domain False ''a.com'' = Some ''.a.com''"
    by (simp add: cookie_domain_def strip_port_def reduce_domain_def IsValidCookieDomain_def CountByte_def Let_def)
  ultimately show ?thesis
    using updateCookie_attributes [of ?s "5 * Second" ?r "''id''" "[]"]
      updateCookie_attributes [of ?s 0 ?r "''id''" "[]"]
    by (auto simp: Second_def max_duration_def New_def zero_config_def)
qed

end
