(* ===== verification/ProviderProps.thy ===== *)
theory ProviderProps
  imports WorldInv
begin

text \<open>
  Properties of the provider: what \<open>loadSessionFromDB\<close> assembles from several databases, what
  \<open>Destroy\<close> and \<open>DestroyAll\<close> leave behind, what a leaked session lock does to the whole
  provider, and how timers, \<open>UpdateExpiration\<close> and \<open>Destroy\<close> interact.
\<close>

section \<open>The merge of several databases\<close>

text \<open>The stores that the databases return for \<open>sid\<close>, in the order they are registered.\<close>

fun db_loads ::
  "'d dbops \<Rightarrow> time \<Rightarrow> string \<Rightarrow> 'd list \<Rightarrow> mem \<Rightarrow> RemoteStore list \<times> mem \<times> 'd list" where
  "db_loads ops now sid [] m = ([], m, [])"
| "db_loads ops now sid (d # ds) m =
     (let (r, m1, d1) = db_Load ops now sid m d;
          (rs, m2, ds1) = db_loads ops now sid ds m1
      in (r # rs, m2, d1 # ds1))"

definition plain_store :: "Store \<Rightarrow> bool" where
  "plain_store r = (wf_store r \<and> list_all (\<lambda>e. \<not> immutable e) (store_elems r))"

definition store_vals :: "Store \<Rightarrow> string \<rightharpoonup> val" where
  "store_vals r k = map_option ValueRaw (store_lookup r k)"

text \<open>
  The specification of \<open>loadSessionFromDB\<close>: the expired stores are left out, the values of the
  others are merged with the later database winning, and the lifetime is the first one that is
  limited.
\<close>

definition valid_stores :: "time \<Rightarrow> RemoteStore list \<Rightarrow> RemoteStore list" where
  "valid_stores now rs = filter (\<lambda>r. \<not> LifeTime_HasExpired now (Lifetime r)) rs"

definition merged_vals :: "RemoteStore list \<Rightarrow> string \<rightharpoonup> val" where
  "merged_vals rs = foldl (\<lambda>m r. m ++ store_vals (Values r)) Map.empty rs"

definition merged_time :: "RemoteStore list \<Rightarrow> time" where
  "merged_time rs =
     (case find (\<lambda>r. lt_Time (Lifetime r) \<noteq> 0) rs of None \<Rightarrow> 0 | Some r \<Rightarrow> lt_Time (Lifetime r))"

lemma store_vals_Save_plain:
  assumes "wf_store st" "list_all (\<lambda>e. \<not> immutable e) (store_elems st)"
  shows "store_vals (fst (Store_Save gr k v False st)) = (store_vals st)(k \<mapsto> v)"
proof -
  have "\<not> immutable e" if "store_lookup st k = Some e" for e
    using that assms(2) by (auto simp: store_lookup_def find_Some_iff list_all_length)
  then show ?thesis
    using assms(1)
    by (auto simp: store_vals_def store_lookup_Save saved_entry_def fun_eq_iff
        split: option.split)
qed

lemma plain_store_Save:
  assumes "plain_store st"
  shows "plain_store (fst (Store_Save gr k v False st))"
proof -
  have "slice_ok st" using assms by (simp add: plain_store_def wf_store_def)
  then have "set (store_elems (fst (Store_Save gr k v False st))) \<subseteq>
      insert (fst (snd (save_list k v False (store_elems st)))) (set (store_elems st))"
    by (auto simp: Store_Save_elems save_list_def split: option.splits
        dest!: set_update_subset_insert [THEN subsetD])
  moreover have "\<not> immutable (fst (snd (save_list k v False (store_elems st))))"
    using assms by (auto simp: save_list_def replace_entry_def plain_store_def list_all_length
        dest!: key_index_SomeD split: option.splits)
  ultimately show ?thesis
    using assms by (auto simp: plain_store_def list_all_iff intro: wf_Store_Save)
qed

lemma visit_set_plain:
  assumes "list_all (\<lambda>e. \<not> immutable e) es" "plain_store st"
  shows "\<exists>st'. visit_loop (\<lambda>key v st. fst (Store_Set gr key v st)) es (m, st) = (Ret (), m, st') \<and>
     plain_store st' \<and> store_vals st' = store_vals st ++ map_of (rev (map (\<lambda>e. (Key e, ValueRaw e)) es))"
  using assms
proof (induction es arbitrary: st)
  case (Cons e es)
  let ?st = "fst (Store_Set gr (Key e) (ValueRaw e) st)"
  have "plain_store ?st" "store_vals ?st = (store_vals st)(Key e \<mapsto> ValueRaw e)"
    using Cons.prems(2) by (simp_all add: Store_Set_def plain_store_Save store_vals_Save_plain plain_store_def
        plain_store_Save [unfolded plain_store_def])
  moreover have "Entry_Value e m = (Ret (ValueRaw e), m)"
    using Cons.prems(1) by (simp add: Entry_Value_mutable)
  ultimately show ?case
    using Cons.IH [of ?st] Cons.prems(1) by (auto simp: map_add_def fun_eq_iff split: option.split)
qed simp

lemma map_of_rev_distinct:
  "distinct (map Key es) \<Longrightarrow>
     map_of (rev (map (\<lambda>e. (Key e, ValueRaw e)) es)) k = map_option ValueRaw (find (\<lambda>e. Key e = k) es)"
proof (induction es)
  case (Cons e es)
  moreover have "find (\<lambda>x. Key x = Key e) es = None"
    using Cons.prems by (simp add: find_None_key)
  ultimately show ?case by (auto simp: map_add_def split: option.split)
qed simp

lemma Store_Visit_plain:
  assumes "plain_store r" "plain_store st"
  shows "\<exists>st'. Store_Visit (\<lambda>key v st. fst (Store_Set gr key v st)) r (m, st) = (Ret (), m, st') \<and>
     plain_store st' \<and> store_vals st' = store_vals st ++ store_vals r"
proof -
  have "store_vals r = map_of (rev (map (\<lambda>e. (Key e, ValueRaw e)) (store_elems r)))"
    using assms(1)
    by (simp add: fun_eq_iff store_vals_def store_lookup_def map_of_rev_distinct plain_store_def wf_store_def)
  then show ?thesis
    using visit_set_plain [of "store_elems r" st gr m] assms
    by (simp add: Store_Visit_def plain_store_def store_elems_def)
qed

lemma load_body_plain:
  assumes load: "db_Load ops now sid m d = (r, m1, d1)" and plain: "plain_store (Values r)" "plain_store st"
    and f: "f \<le> i + 1" "i < n" "f = i + 1 \<longrightarrow> store_vals st = Map.empty"
  shows "\<exists>f' st' lt'. load_body ops now gr sid n d (f, st, lt) m = (Ret (f', st', lt'), m1, d1) \<and>
     plain_store st' \<and> f' \<le> i + 2 \<and> (f' = i + 2 \<longrightarrow> store_vals st' = Map.empty) \<and>
     store_vals st' = (if LifeTime_HasExpired now (Lifetime r) then store_vals st
                       else store_vals st ++ store_vals (Values r)) \<and>
     lt_Time lt' = (if LifeTime_HasExpired now (Lifetime r) \<or> lt_Time lt \<noteq> 0 then lt_Time lt
                    else lt_Time (Lifetime r))"
proof -
  obtain st1 where vis: "Store_Visit (\<lambda>key v st. fst (Store_Set gr key v st)) (Values r) (m1, st) =
      (Ret (), m1, st1)" "plain_store st1" "store_vals st1 = store_vals st ++ store_vals (Values r)"
    using Store_Visit_plain [OF plain] by blast
  show ?thesis
    using f plain vis by (auto simp: load_body_def load Time_IsZero_def)
qed

lemma load_loop_plain:
  assumes "db_loads ops now sid ds m = (rs, m', ds')" "list_all (\<lambda>r. plain_store (Values r)) rs"
    "plain_store st" "n = i + length ds" "f \<le> i + 1" "f = i + 1 \<longrightarrow> store_vals st = Map.empty"
  shows "\<exists>f' st' lt'. load_loop ops now gr sid n ds (f, st, lt) m = (Ret (f', st', lt'), m', ds') \<and>
     plain_store st' \<and>
     store_vals st' = foldl (\<lambda>m r. m ++ store_vals (Values r)) (store_vals st) (valid_stores now rs) \<and>
     lt_Time lt' = (if lt_Time lt \<noteq> 0 then lt_Time lt else merged_time (valid_stores now rs))"
  using assms
proof (induction ds arbitrary: rs m m' ds' st i f lt)
  case (Cons d ds)
  obtain r m1 d1 where load: "db_Load ops now sid m d = (r, m1, d1)"
    by (cases "db_Load ops now sid m d") auto
  obtain rs2 m2 ds2 where rest: "db_loads ops now sid ds m1 = (rs2, m2, ds2)"
    by (cases "db_loads ops now sid ds m1") auto
  have eq: "rs = r # rs2" "m' = m2" "ds' = d1 # ds2"
    using Cons.prems(1) load rest by auto
  have plain: "plain_store (Values r)" "list_all (\<lambda>r. plain_store (Values r)) rs2"
    using Cons.prems(2) eq by auto
  obtain f1 st1 lt1 where body:
    "load_body ops now gr sid n d (f, st, lt) m = (Ret (f1, st1, lt1), m1, d1)"
    "plain_store st1" "f1 \<le> i + 2" "f1 = i + 2 \<longrightarrow> store_vals st1 = Map.empty"
    "store_vals st1 = (if LifeTime_HasExpired now (Lifetime r) then store_vals st
                       else store_vals st ++ store_vals (Values r))"
    "lt_Time lt1 = (if LifeTime_HasExpired now (Lifetime r) \<or> lt_Time lt \<noteq> 0 then lt_Time lt
                    else lt_Time (Lifetime r))"
    using load_body_plain [OF load plain(1) Cons.prems(3,5) _ Cons.prems(6), of n gr lt] Cons.prems(4)
    by auto
  obtain f2 st2 lt2 where loop:
    "load_loop ops now gr sid n ds (f1, st1, lt1) m1 = (Ret (f2, st2, lt2), m2, ds2)" "plain_store st2"
    "store_vals st2 = foldl (\<lambda>m r. m ++ store_vals (Values r)) (store_vals st1) (valid_stores now rs2)"
    "lt_Time lt2 = (if lt_Time lt1 \<noteq> 0 then lt_Time lt1 else merged_time (valid_stores now rs2))"
    using Cons.IH [OF rest plain(2) body(2), of "i + 1" f1 lt1] Cons.prems(4) body(3,4) by auto
  show ?case
    using body(1,5,6) loop eq
    by (auto simp: valid_stores_def merged_time_def)
qed (auto simp: valid_stores_def merged_time_def)

section \<open>Lemmas on destroying and creating sessions\<close>

lemma destroy_loop_sent:
  fixes w :: "'d world"
  assumes "wf_sessions (p_sessions (w_provider w)) (w_heap w)" "distinct order"
    "set order \<subseteq> dom (map_of (p_sessions (w_provider w)))"
  shows "\<exists>ps. map SessionID ps = order \<and> list_all (\<lambda>p. PAction p = ActionDestroy) ps \<and>
     p_databases (w_provider (destroy_loop ops order w)) =
       map (fold (db_Sync ops (w_now w) (w_mem w)) ps) (p_databases (w_provider w)) \<and>
     map_of (p_sessions (w_provider (destroy_loop ops order w))) =
       map_of (p_sessions (w_provider w)) |` (- set order) \<and>
     p_mu (w_provider (destroy_loop ops order w)) = p_mu (w_provider w)"
  using assms
proof (induction order arbitrary: w)
  case (Cons sid order)
  then obtain ref where ref: "map_of (p_sessions (w_provider w)) sid = Some ref" by auto
  let ?w1 = "deleteSession ops ref w"
  have sid: "s_sid (w_heap w ! ref) = sid" using wf_sessions_lookup [OF Cons.prems(1) ref] by simp
  obtain p where p: "SessionID p = sid" "PAction p = ActionDestroy"
    "p_databases (w_provider ?w1) = map (db_Sync ops (w_now w) (w_mem w) p) (p_databases (w_provider w))"
    using deleteSession_sent [of ops ref w] sid by (auto simp: sent_payload_def)
  have map1: "map_of (p_sessions (w_provider ?w1)) = (map_of (p_sessions (w_provider w)))(sid := None)"
    by (simp add: sid map_of_delete)
  have "wf_sessions (p_sessions (w_provider ?w1)) (w_heap ?w1)"
    using Cons.prems(1) by (simp add: wf_sessions_delete)
  moreover have "set order \<subseteq> dom (map_of (p_sessions (w_provider ?w1)))"
    using Cons.prems(2,3) unfolding map1 by auto
  ultimately obtain ps where ps: "map SessionID ps = order" "list_all (\<lambda>p. PAction p = ActionDestroy) ps"
    "p_databases (w_provider (destroy_loop ops order ?w1)) =
       map (fold (db_Sync ops (w_now ?w1) (w_mem ?w1)) ps) (p_databases (w_provider ?w1))"
    "map_of (p_sessions (w_provider (destroy_loop ops order ?w1))) =
       map_of (p_sessions (w_provider ?w1)) |` (- set order)"
    "p_mu (w_provider (destroy_loop ops order ?w1)) = p_mu (w_provider ?w1)"
    using Cons.IH [of ?w1] Cons.prems(2) by auto
  have loop: "destroy_loop ops (sid # order) w = destroy_loop ops order ?w1" using ref by simp
  have "map_of (p_sessions (w_provider ?w1)) |` (- set order) =
      map_of (p_sessions (w_provider w)) |` (- set (sid # order))"
    unfolding map1 by (auto simp: restrict_map_def fun_eq_iff)
  with ps p show ?case
    unfolding loop by (intro exI [of _ "p # ps"]) simp
qed (simp add: restrict_map_def)

lemma provider_Destroy_frame:
  fixes w :: "'d world"
  assumes "p_mu (w_provider w) = Unlocked"
  shows "\<exists>w'. provider_Destroy ops sid w = (Ret (), w') \<and> p_mu (w_provider w') = Unlocked \<and>
     w_heap w' = w_heap w \<and> w_now w' = w_now w \<and> w_timers w' = w_timers w \<and>
     length (p_databases (w_provider w')) = length (p_databases (w_provider w))"
proof -
  let ?w1 = "with_provider (\<lambda>p. p\<lparr>p_mu := WLocked\<rparr>) w"
  have "provider_Lock w = Some ?w1" using assms by simp
  moreover have "length (p_databases (w_provider (deleteSession ops ref ?w1))) = length (p_databases (w_provider w))"
    for ref using deleteSession_sent [of ops ref ?w1] by auto
  ultimately show ?thesis
    by (auto simp: provider_Destroy_def simp del: provider_Lock_Some split: option.split)
qed

lemma provider_Destroy_sessions:
  fixes w :: "'d world"
  assumes "p_mu (w_provider w) = Unlocked" "wf_world dbinv w"
  shows "\<exists>w'. provider_Destroy ops sid w = (Ret (), w') \<and> p_mu (w_provider w') = Unlocked \<and>
     map_of (p_sessions (w_provider w')) = (map_of (p_sessions (w_provider w)))(sid := None)"
proof (cases "map_of (p_sessions (w_provider w)) sid")
  case None
  with assms(1) show ?thesis
    by (auto simp: provider_Destroy_def fun_upd_idem split: option.split)
next
  case (Some ref)
  then have "s_sid (w_heap w ! ref) = sid"
    using wf_sessions_lookup [OF _ Some] assms(2) by (simp add: wf_world_def)
  with Some assms(1) show ?thesis
    by (auto simp: provider_Destroy_def map_of_delete split: option.split)
qed

lemma provider_Init_no_db:
  fixes w :: "'d world"
  assumes "p_databases (w_provider w) = []" "p_mu (w_provider w) = Unlocked" "0 < expires"
  shows "\<exists>w'. provider_Init ops sid expires w = (Ret (length (w_heap w)), w') \<and>
     w_now w' = w_now w \<and> p_mu (w_provider w') = Unlocked \<and> p_databases (w_provider w') = [] \<and>
     p_sessions (w_provider w') = AList.update sid (length (w_heap w)) (p_sessions (w_provider w)) \<and>
     w_timers w' = w_timers w @ [\<lparr>t_deadline = w_now w + expires, t_active = True, t_sid = sid\<rparr>] \<and>
     w_heap w' = w_heap w @ [\<lparr>s_sid = sid, s_isNew = False, s_values = nil_store, s_flashes = [],
       s_mu = Unlocked, s_lifetime = \<lparr>lt_Time = w_now w + expires, lt_timer = Some (length (w_timers w))\<rparr>\<rparr>]"
proof -
  have load: "loadSessionFromDB ops sid w =
      (Ret (nil_store, zero_lifetime), with_provider (\<lambda>p. p\<lparr>p_databases := []\<rparr>) w)"
    using assms(1) by (simp add: loadSessionFromDB_def)
  show ?thesis
    using assms
    by (auto simp: provider_Init_def newSession_def load LifeTime_Begin_pos zero_lifetime_def go_simps
        split: option.split)
qed

text \<open>
  A database that returns a fixed store and a world with two of them, for the instances of the
  theorems.
\<close>

definition fixed_ops :: "RemoteStore dbops" where
  "fixed_ops = \<lparr>db_Load = (\<lambda>now sid m d. (d, m, d)), db_Sync = (\<lambda>now m p d. PStore p)\<rparr>"

definition sample_remote :: "val \<Rightarrow> time \<Rightarrow> RemoteStore" where
  "sample_remote v t =
     \<lparr>Values = \<lparr>arr = [\<lparr>Key = ''a'', ValueRaw = v, immutable = False\<rparr>], slen = 1\<rparr>,
      Lifetime = \<lparr>lt_Time = t, lt_timer = None\<rparr>\<rparr>"

definition two_db_world :: "RemoteStore world" where
  "two_db_world =
     \<lparr>w_now = 1000, w_grow = (\<lambda>_. 0), w_timers = [], w_mem = [], w_pool = [], w_heap = [],
      w_provider = \<lparr>p_mu = Unlocked, p_sessions = [],
        p_databases = [sample_remote (VInt 1) 2000, sample_remote (VInt 2) 0]\<rparr>\<rparr>"

lemma wf_sample_world: "wf_world (\<lambda>_. True) sample_world"
  by (simp add: wf_world_def sample_world_def sample_session_def wf_session_def wf_timer_def
      zero_lifetime_def wf_map_def wf_sessions_def)

section \<open>Properties\<close>

text \<open>
  C12. Loading a session from several databases: the databases whose stored lifetime has expired
  are ignored, the key-value pairs of the others are merged and the database registered last
  wins on a common key, whichever branch of the code (the shortcut for a single store or the
  copy) handles them; the lifetime is the first limited one. This holds for every number of
  databases whose stores hold no immutable entries.
\<close>

theorem loadSessionFromDB_merges:
  fixes w :: "'d world"
  assumes "db_loads ops (w_now w) sid (p_databases (w_provider w)) (w_mem w) = (rs, m', dbs')"
    and "list_all (\<lambda>r. plain_store (Values r)) rs"
  shows "\<exists>store lifetime.
     loadSessionFromDB ops sid w =
       (Ret (store, lifetime), with_provider (\<lambda>p. p\<lparr>p_databases := dbs'\<rparr>) (w\<lparr>w_mem := m'\<rparr>)) \<and>
     store_vals store = merged_vals (valid_stores (w_now w) rs) \<and>
     lt_Time lifetime = merged_time (valid_stores (w_now w) rs)"
proof -
  have nil: "plain_store nil_store" "store_vals nil_store = Map.empty"
    by (auto simp: plain_store_def store_vals_def store_lookup_def nil_store_def store_elems_def
        wf_store_def slice_ok_def)
  obtain f store lt where
    "load_loop ops (w_now w) (w_grow w) sid (length (p_databases (w_provider w))) (p_databases (w_provider w))
       (1, nil_store, zero_lifetime) (w_mem w) = (Ret (f, store, lt), m', dbs')"
    "store_vals store = merged_vals (valid_stores (w_now w) rs)"
    "lt_Time lt = merged_time (valid_stores (w_now w) rs)"
    using load_loop_plain [OF assms nil(1), of "length (p_databases (w_provider w))" 0 1 "w_grow w" zero_lifetime] nil(2)
    by (auto simp: merged_vals_def zero_lifetime_def)
  then show ?thesis by (simp add: loadSessionFromDB_def Let_def)
qed

theorem loadSessionFromDB_merges_witness:
  "\<exists>store lifetime w'. loadSessionFromDB fixed_ops ''x'' two_db_world = (Ret (store, lifetime), w') \<and>
     store_vals store ''a'' = Some (VInt 2) \<and> lt_Time lifetime = 2000"
proof -
  let ?rs = "[sample_remote (VInt 1) 2000, sample_remote (VInt 2) 0]"
  have loads: "db_loads fixed_ops (w_now two_db_world) ''x'' (p_databases (w_provider two_db_world))
      (w_mem two_db_world) = (?rs, [], ?rs)"
    by (simp add: two_db_world_def fixed_ops_def)
  have plain: "list_all (\<lambda>r. plain_store (Values r)) ?rs"
    by (simp add: sample_remote_def plain_store_def wf_store_def slice_ok_def store_elems_def)
  have valid: "valid_stores (w_now two_db_world) ?rs = ?rs"
    by (simp add: valid_stores_def sample_remote_def two_db_world_def LifeTime_HasExpired_def go_simps)
  have "merged_vals ?rs ''a'' = Some (VInt 2)" "merged_time ?rs = 2000"
    by (simp_all add: merged_vals_def merged_time_def sample_remote_def store_vals_def store_lookup_def
        store_elems_def map_add_def)
  with loadSessionFromDB_merges [OF loads plain] show ?thesis
    unfolding valid by metis
qed

text \<open>
  C16. \<open>Destroy(sid)\<close> on a provider whose lock is free: the call returns with the lock free, no
  session is registered under the id afterwards and all others stay registered; if there was
  one, every database is sent a destroy payload for that id and nothing else.
\<close>

theorem provider_Destroy_removes:
  fixes w :: "'d world"
  assumes "p_mu (w_provider w) = Unlocked" "wf_world dbinv w"
  shows "\<exists>w'. provider_Destroy ops sid w = (Ret (), w') \<and> p_mu (w_provider w') = Unlocked \<and>
     map_of (p_sessions (w_provider w')) = (map_of (p_sessions (w_provider w)))(sid := None) \<and>
     w_heap w' = w_heap w \<and>
     (case map_of (p_sessions (w_provider w)) sid of
        None \<Rightarrow> p_databases (w_provider w') = p_databases (w_provider w)
      | Some ref \<Rightarrow> \<exists>p. SessionID p = sid \<and> PAction p = ActionDestroy \<and>
          Key (PValue p) = [] \<and> ValueRaw (PValue p) = VNil \<and>
          p_databases (w_provider w') =
            map (db_Sync ops (w_now w) (w_mem w) p) (p_databases (w_provider w)))"
proof (cases "map_of (p_sessions (w_provider w)) sid")
  case None
  with assms(1) show ?thesis
    by (auto simp: provider_Destroy_def fun_upd_idem split: option.split)
next
  case (Some ref)
  let ?w1 = "with_provider (\<lambda>p. p\<lparr>p_mu := WLocked\<rparr>) w"
  have sid: "s_sid (w_heap w ! ref) = sid"
    using wf_sessions_lookup [OF _ Some] assms(2) by (simp add: wf_world_def)
  obtain p pool where del: "deleteSession ops ref ?w1 = sync_world ops p pool
      (with_provider (\<lambda>p. p\<lparr>p_sessions := AList.delete sid (p_sessions p)\<rparr>) ?w1)"
    "SessionID p = sid" "PAction p = ActionDestroy" "Key (PValue p) = []" "ValueRaw (PValue p) = VNil"
    using deleteSession_sent [of ops ref ?w1] assms(2) sid by (auto simp: wf_world_def sent_payload_def)
  have "provider_Lock w = Some ?w1" using assms(1) by simp
  then have "provider_Destroy ops sid w = (Ret (), provider_Unlock (deleteSession ops ref ?w1))"
    using Some by (simp add: provider_Destroy_def del: provider_Lock_Some)
  with Some del show ?thesis by (auto simp: map_of_delete)
qed

theorem provider_Destroy_removes_witness:
  "\<exists>w'. provider_Destroy rec_ops ''x'' sample_world = (Ret (), w') \<and>
     map_of (p_sessions (w_provider w')) ''x'' = None"
proof -
  from provider_Destroy_removes [OF _ wf_sample_world, of rec_ops "''x''"] show ?thesis
    by (auto simp: sample_world_def)
qed

text \<open>
  A session whose lock was leaked (by \<open>GetFlash\<close>) takes the whole provider with it: the next \<open>Read\<close>
  of its id, which every further request of that client makes, blocks with the provider's lock
  held, and from then on \<open>Read\<close>, \<open>Destroy\<close> and \<open>DestroyAll\<close> block for every session id, and so
  do \<open>UpdateExpiration\<close> and \<open>RegisterDatabase\<close>.
\<close>

theorem leaked_lock_blocks_provider:
  fixes w :: "'d world"
  assumes "p_mu (w_provider w) = Unlocked" "map_of (p_sessions (w_provider w)) sid = Some ref"
    and "s_mu (w_heap w ! ref) = WLocked"
  shows "\<exists>w'. provider_Read ops sid expires w = (Blocked, w') \<and>
     (\<forall>sid' d. provider_Read ops sid' d w' = (Blocked, w')) \<and>
     (\<forall>sid'. provider_Destroy ops sid' w' = (Blocked, w')) \<and>
     (\<forall>order. provider_DestroyAll ops order w' = (Blocked, w')) \<and>
     (\<forall>sid' d. 0 < d \<longrightarrow> provider_UpdateExpiration sid' d w' = (Blocked, w')) \<and>
     (\<forall>db. RegisterDatabase db w' = (Blocked, w'))"
proof -
  let ?w1 = "with_provider (\<lambda>p. p\<lparr>p_mu := WLocked\<rparr>) w"
  define w' where "w' = snd (on_session ref Session_runFlashGC ?w1)"
  have "provider_Lock w = Some ?w1" using assms(1) by simp
  moreover have "on_session ref Session_runFlashGC ?w1 = (Blocked, w')"
    using assms(3) by (simp add: w'_def prod_eq_iff Session_runFlashGC_def)
  ultimately have "provider_Read ops sid expires w = (Blocked, w')"
    using assms(2) by (simp add: provider_Read_def del: provider_Lock_Some)
  moreover have "provider_Lock w' = None" by (simp add: w'_def)
  ultimately show ?thesis
    by (auto simp: provider_Read_def provider_Destroy_def provider_DestroyAll_def
        provider_UpdateExpiration_def RegisterDatabase_def simp del: provider_Lock_None)
qed

theorem leaked_lock_blocks_provider_witness:
  "\<exists>w'. provider_Read rec_ops ''x'' 0 (snd (on_session 0 (Session_GetFlash ''k'') sample_world)) = (Blocked, w') \<and>
     (\<forall>sid' d. provider_Read rec_ops sid' d w' = (Blocked, w'))"
proof -
  let ?w = "snd (on_session 0 (Session_GetFlash ''k'') sample_world)"
  have "p_mu (w_provider ?w) = Unlocked" "map_of (p_sessions (w_provider ?w)) ''x'' = Some 0"
    by (simp_all add: sample_world_def)
  moreover have "s_mu (w_heap ?w ! 0) = WLocked"
    by (simp add: sample_world_def sample_session_def Session_GetFlash_def Session_peekFlashMessage_def)
  ultimately show ?thesis
    using leaked_lock_blocks_provider [of ?w "''x''" 0 rec_ops 0] by blast
qed

text \<open>
  C17. \<open>DestroyAll\<close>, for every order in which the runtime may range over the session map: no
  session is left, the lock is free again, and each database receives exactly one destroy
  payload per session, in that order.
\<close>

theorem provider_DestroyAll_complete:
  fixes w :: "'d world"
  assumes "p_mu (w_provider w) = Unlocked" "wf_sessions (p_sessions (w_provider w)) (w_heap w)"
    and "distinct order" "set order = dom (map_of (p_sessions (w_provider w)))"
  shows "\<exists>w' ps. provider_DestroyAll ops order w = (Ret (), w') \<and> p_mu (w_provider w') = Unlocked \<and>
     p_sessions (w_provider w') = [] \<and>
     map SessionID ps = order \<and> list_all (\<lambda>p. PAction p = ActionDestroy) ps \<and>
     p_databases (w_provider w') =
       map (fold (db_Sync ops (w_now w) (w_mem w)) ps) (p_databases (w_provider w))"
proof -
  let ?w1 = "with_provider (\<lambda>p. p\<lparr>p_mu := WLocked\<rparr>) w"
  obtain ps where ps: "map SessionID ps = order" "list_all (\<lambda>p. PAction p = ActionDestroy) ps"
    "p_databases (w_provider (destroy_loop ops order ?w1)) =
       map (fold (db_Sync ops (w_now w) (w_mem w)) ps) (p_databases (w_provider w))"
    "map_of (p_sessions (w_provider (destroy_loop ops order ?w1))) =
       map_of (p_sessions (w_provider w)) |` (- set order)"
    "p_mu (w_provider (destroy_loop ops order ?w1)) = WLocked"
    using destroy_loop_sent [of ?w1 order ops] assms by auto
  have "map_of (p_sessions (w_provider (destroy_loop ops order ?w1))) = Map.empty"
    unfolding ps(4) assms(4) by (auto simp: restrict_map_def fun_eq_iff)
  then have "p_sessions (w_provider (destroy_loop ops order ?w1)) = []"
    by (simp add: map_of_eq_empty_iff)
  moreover have "provider_Lock w = Some ?w1" using assms(1) by simp
  ultimately show ?thesis
    using ps by (auto simp: provider_DestroyAll_def simp del: provider_Lock_Some)
qed

theorem provider_DestroyAll_complete_witness:
  "\<exists>w' (ps :: SyncPayload list). provider_DestroyAll rec_ops [''x''] sample_world = (Ret (), w') \<and>
     p_sessions (w_provider w') = [] \<and> map SessionID ps = [''x'']"
proof -
  have "p_mu (w_provider sample_world) = Unlocked"
    "wf_sessions (p_sessions (w_provider sample_world)) (w_heap sample_world)"
    "set [''x''] = dom (map_of (p_sessions (w_provider sample_world)))"
    by (auto simp: sample_world_def sample_session_def wf_sessions_def wf_map_def)
  from provider_DestroyAll_complete [OF this(1,2) distinct_singleton this(3), of rec_ops]
  show ?thesis by (elim exE conjE) (intro exI conjI)
qed

text \<open>
  C34. \<open>Destroy\<close> does not stop the timer of the session it removes. If a session is created again
  under the same id (which \<open>Read\<close> does for a client that still sends the cookie) before that
  timer is due, the old timer destroys the new session at its own deadline, although the new
  session's lifetime has not expired.
\<close>

theorem stale_timer_destroys_new_session:
  fixes w :: "'d world"
  assumes "p_mu (w_provider w) = Unlocked" "p_databases (w_provider w) = []"
    and "t < length (w_timers w)" "t_active (w_timers w ! t)" "t_sid (w_timers w ! t) = sid"
    and "w_now w \<le> t_deadline (w_timers w ! t)" "t_deadline (w_timers w ! t) < w_now w + expires"
  shows "\<exists>w1 w2 ref w4. provider_Destroy ops sid w = (Ret (), w1) \<and>
     provider_Init ops sid expires w1 = (Ret ref, w2) \<and>
     map_of (p_sessions (w_provider w2)) sid = Some ref \<and>
     \<not> LifeTime_HasExpired (t_deadline (w_timers w ! t)) (s_lifetime (w_heap w2 ! ref)) \<and>
     fire_timer ops t (w2\<lparr>w_now := t_deadline (w_timers w ! t)\<rparr>) = (Ret (), w4) \<and>
     map_of (p_sessions (w_provider w4)) sid = None"
proof -
  let ?D = "t_deadline (w_timers w ! t)"
  obtain w1 where w1: "provider_Destroy ops sid w = (Ret (), w1)" "p_mu (w_provider w1) = Unlocked"
    "w_heap w1 = w_heap w" "w_now w1 = w_now w" "w_timers w1 = w_timers w" "p_databases (w_provider w1) = []"
    using provider_Destroy_frame [OF assms(1), of ops sid] assms(2) by auto
  have "0 < expires" using assms(6,7) by linarith
  from provider_Init_no_db [OF w1(6,2) this, of ops sid] obtain w2 where
    w2: "provider_Init ops sid expires w1 = (Ret (length (w_heap w)), w2)"
    "p_mu (w_provider w2) = Unlocked"
    "p_sessions (w_provider w2) = AList.update sid (length (w_heap w)) (p_sessions (w_provider w1))"
    "w_timers w2 = w_timers w @ [\<lparr>t_deadline = w_now w + expires, t_active = True, t_sid = sid\<rparr>]"
    "s_lifetime (w_heap w2 ! length (w_heap w)) = \<lparr>lt_Time = w_now w + expires, lt_timer = Some (length (w_timers w))\<rparr>"
    "s_sid (w_heap w2 ! length (w_heap w)) = sid"
    using w1 by auto
  let ?w3 = "w2\<lparr>w_now := ?D, w_timers := timer_Stop t (w_timers w2)\<rparr>"
  have fire: "fire_timer ops t (w2\<lparr>w_now := ?D\<rparr>) = provider_Destroy ops sid ?w3"
    using assms(3,4,5) w2(4) by (simp add: fire_timer_def timer_due_def nth_append)
  have reg: "map_of (p_sessions (w_provider w2)) sid = Some (length (w_heap w))"
    by (simp add: w2(3) map_of_update)
  have "\<exists>w4. provider_Destroy ops sid ?w3 = (Ret (), w4) \<and> map_of (p_sessions (w_provider w4)) sid = None"
    using w2(2,6) reg by (auto simp: provider_Destroy_def map_of_delete split: option.split)
  then show ?thesis
    using w1(1) w2(1,5) reg fire assms(7) by (auto simp: LifeTime_HasExpired_iff)
qed

theorem stale_timer_destroys_new_session_witness:
  "let w = sample_world\<lparr>w_timers := [\<lparr>t_deadline = 5000, t_active = True, t_sid = ''x''\<rparr>],
             w_provider := \<lparr>p_mu = Unlocked, p_sessions = [(''x'', 0)], p_databases = []\<rparr>\<rparr>
   in \<exists>w1 w2 ref w4. provider_Destroy rec_ops ''x'' w = (Ret (), w1) \<and>
     provider_Init rec_ops ''x'' 8000 w1 = (Ret ref, w2) \<and>
     map_of (p_sessions (w_provider w2)) ''x'' = Some ref \<and>
     \<not> LifeTime_HasExpired 5000 (s_lifetime (w_heap w2 ! ref)) \<and>
     fire_timer rec_ops 0 (w2\<lparr>w_now := 5000\<rparr>) = (Ret (), w4) \<and>
     map_of (p_sessions (w_provider w4)) ''x'' = None"
  using stale_timer_destroys_new_session
    [of "sample_world\<lparr>w_timers := [\<lparr>t_deadline = 5000, t_active = True, t_sid = ''x''\<rparr>],
        w_provider := \<lparr>p_mu = Unlocked, p_sessions = [(''x'', 0)], p_databases = []\<rparr>\<rparr>" 0 "''x''" 8000 rec_ops]
  by (simp add: sample_world_def)

text \<open>
  C23. \<open>UpdateExpiration\<close> of a registered session with a positive duration reports success and
  changes nothing but the session's timer: a session that has a timer now expires \<open>expires\<close>
  from now, its stored expiration instant (which is what the databases are sent) stays the old
  one, and a session without a timer (unlimited life) is not given one.
\<close>

theorem provider_UpdateExpiration_moves_timer_only:
  fixes w :: "'d world"
  assumes "p_mu (w_provider w) = Unlocked" "wf_world dbinv w"
    and "map_of (p_sessions (w_provider w)) sid = Some ref" "0 < expires"
  shows "\<exists>ts. provider_UpdateExpiration sid expires w = (Ret True, w\<lparr>w_timers := ts\<rparr>) \<and>
     (case lt_timer (s_lifetime (w_heap w ! ref)) of
        None \<Rightarrow> ts = w_timers w
      | Some t \<Rightarrow> ts = (w_timers w)[t := (w_timers w ! t)\<lparr>t_deadline := w_now w + expires, t_active := True\<rparr>] \<and>
          t_sid (ts ! t) = sid \<and> (\<forall>now. now < w_now w + expires \<longrightarrow> \<not> timer_due now (ts ! t)))"
proof -
  let ?s = "w_heap w ! ref"
  have ref: "ref < length (w_heap w)" "s_sid ?s = sid"
    using wf_sessions_lookup [OF _ assms(3)] assms(2) by (auto simp: wf_world_def)
  have wft: "wf_timer (w_timers w) ?s"
    using assms(2) ref(1) by (auto simp: wf_world_def list_all_length wf_session_def)
  have "provider_Unlock (with_provider (\<lambda>p. p\<lparr>p_mu := WLocked\<rparr>) w) = w"
    using assms(1) by (simp add: provider_Unlock_def with_provider_def)
  then have "provider_UpdateExpiration sid expires w =
      (Ret True, w\<lparr>w_timers := LifeTime_Shift (w_now w) expires (s_lifetime ?s) (w_timers w)\<rparr>)"
    using assms by (auto simp: provider_UpdateExpiration_def split: option.split)
  then show ?thesis
    using wft ref(2) assms(4)
    by (cases "lt_timer (s_lifetime ?s)")
      (auto simp: wf_timer_def LifeTime_Shift_def timer_Reset_def timer_due_def go_simps)
qed

theorem provider_UpdateExpiration_moves_timer_only_witness:
  "\<exists>ts. provider_UpdateExpiration ''x'' 50 sample_world = (Ret True, sample_world\<lparr>w_timers := ts\<rparr>) \<and> ts = []"
proof -
  from provider_UpdateExpiration_moves_timer_only [OF _ wf_sample_world, of "''x''" 0 50] show ?thesis
    by (simp add: sample_world_def sample_session_def zero_lifetime_def)
qed

end
