(* ===== verification/ManagerProps.thy ===== *)
theory ManagerProps
  imports CookieProps ProviderProps
begin

text \<open>
  Properties of the manager: a first request creates a session and a cookie that brings the
  client back to that session, what a request with an unknown cookie does, what \<open>Destroy\<close> and
  \<open>UpdateExpiration\<close> do, and the preservation of the program invariant by every request.
\<close>

section \<open>Lemmas\<close>

lemma in_request_simp [simp]: "in_request f (w, s) = (fst (f s), w, snd (f s))"
  by (simp add: in_request_def split: prod.split)

lemma on_world_simps [simp]:
  "fst (on_world f s) = fst (f (m_world s))"
  "snd (on_world f s) = s\<lparr>m_world := snd (f (m_world s))\<rparr>"
  by (simp_all add: on_world_def split: prod.split)

lemma user_call_simps [simp]:
  "user_call f s = (f (m_calls s), s\<lparr>m_calls := Suc (m_calls s)\<rparr>)"
  by (simp add: user_call_def)

lemma mark_new_simps [simp]:
  "w_now (mark_new ref w) = w_now w" "w_timers (mark_new ref w) = w_timers w"
  "w_provider (mark_new ref w) = w_provider w" "w_mem (mark_new ref w) = w_mem w"
  "w_grow (mark_new ref w) = w_grow w" "w_pool (mark_new ref w) = w_pool w"
  by (simp_all add: mark_new_def Let_def)

lemma encodeCookieValue_frame [simp]:
  "m_world (snd (encodeCookieValue v s)) = m_world s"
  "m_config (snd (encodeCookieValue v s)) = m_config s"
  by (simp_all add: encodeCookieValue_def split: option.split)

lemma decodeCookieValue_frame [simp]:
  "m_world (snd (decodeCookieValue v s)) = m_world s"
  "m_config (snd (decodeCookieValue v s)) = m_config s"
  by (simp_all add: decodeCookieValue_def split: option.split)

lemma generator_frame [simp]:
  "m_world (snd (SessionIDGenerator_call s)) = m_world s"
  "m_config (snd (SessionIDGenerator_call s)) = m_config s"
  by (simp_all add: SessionIDGenerator_call_def split: option.split)

lemma updateCookie_frame [simp]:
  "m_world (snd (updateCookie r sid e ws)) = m_world (snd ws)"
  "m_config (snd (updateCookie r sid e ws)) = m_config (snd ws)"
proof -
  have eq: "snd (updateCookie r sid e ws) = snd (encodeCookieValue sid (snd ws))"
    by (auto simp: updateCookie_def Let_def zero_cookie_def split: prod.split option.split)
  show "m_world (snd (updateCookie r sid e ws)) = m_world (snd ws)"
    "m_config (snd (updateCookie r sid e ws)) = m_config (snd ws)"
    unfolding eq by simp_all
qed

text \<open>The databases can be read: what they return for \<open>sid\<close> holds no immutable entry.\<close>

definition db_plain :: "'d dbops \<Rightarrow> string \<Rightarrow> 'd world \<Rightarrow> bool" where
  "db_plain ops sid w =
     list_all (\<lambda>r. plain_store (Values r))
       (fst (db_loads ops (w_now w) sid (p_databases (w_provider w)) (w_mem w)))"

definition db_values :: "'d dbops \<Rightarrow> string \<Rightarrow> 'd world \<Rightarrow> string \<rightharpoonup> val" where
  "db_values ops sid w =
     merged_vals (valid_stores (w_now w)
       (fst (db_loads ops (w_now w) sid (p_databases (w_provider w)) (w_mem w))))"

lemma db_plain_no_db [simp]: "p_databases (w_provider w) = [] \<Longrightarrow> db_plain ops sid w"
  by (simp add: db_plain_def)

lemma db_values_no_db [simp]: "p_databases (w_provider w) = [] \<Longrightarrow> db_values ops sid w = Map.empty"
  by (simp add: db_values_def valid_stores_def merged_vals_def)

lemma loadSessionFromDB_plain:
  fixes w :: "'d world"
  assumes "db_plain ops sid w"
  shows "\<exists>store lifetime m dbs. loadSessionFromDB ops sid w =
      (Ret (store, lifetime), with_provider (\<lambda>p. p\<lparr>p_databases := dbs\<rparr>) (w\<lparr>w_mem := m\<rparr>)) \<and>
     plain_store store \<and> store_vals store = db_values ops sid w"
proof -
  obtain rs m ds where loads: "db_loads ops (w_now w) sid (p_databases (w_provider w)) (w_mem w) = (rs, m, ds)"
    by (cases "db_loads ops (w_now w) sid (p_databases (w_provider w)) (w_mem w)") auto
  have plain: "list_all (\<lambda>r. plain_store (Values r)) rs" using assms loads by (simp add: db_plain_def)
  have nil: "plain_store nil_store" "store_vals nil_store = Map.empty"
    by (auto simp: plain_store_def nil_store_def wf_store_def slice_ok_def store_elems_def store_vals_def store_lookup_def)
  from load_loop_plain [OF loads plain nil(1), of "length (p_databases (w_provider w))" 0 1 "w_grow w" zero_lifetime] nil(2)
  obtain f st lt where "load_loop ops (w_now w) (w_grow w) sid (length (p_databases (w_provider w)))
      (p_databases (w_provider w)) (1, nil_store, zero_lifetime) (w_mem w) = (Ret (f, st, lt), m, ds)"
    "plain_store st" "store_vals st = merged_vals (valid_stores (w_now w) rs)"
    by (auto simp: merged_vals_def)
  then show ?thesis by (auto simp: loadSessionFromDB_def db_values_def loads)
qed

lemma provider_Init_plain:
  fixes w :: "'d world"
  assumes "p_mu (w_provider w) = Unlocked" "db_plain ops sid w"
  shows "\<exists>w' sess. provider_Init ops sid expires w = (Ret (length (w_heap w)), w') \<and>
     p_mu (w_provider w') = Unlocked \<and> w_now w' = w_now w \<and> w_heap w' = w_heap w @ [sess] \<and>
     p_sessions (w_provider w') = AList.update sid (length (w_heap w)) (p_sessions (w_provider w)) \<and>
     s_sid sess = sid \<and> \<not> s_isNew sess \<and> s_mu sess = Unlocked \<and> s_flashes sess = [] \<and>
     plain_store (s_values sess) \<and> store_vals (s_values sess) = db_values ops sid w"
proof -
  obtain store lifetime m dbs where load: "loadSessionFromDB ops sid w =
      (Ret (store, lifetime), with_provider (\<lambda>p. p\<lparr>p_databases := dbs\<rparr>) (w\<lparr>w_mem := m\<rparr>))"
    "plain_store store" "store_vals store = db_values ops sid w"
    using loadSessionFromDB_plain [OF assms(2)] by blast
  show ?thesis
    using assms(1) load
    by (auto simp: provider_Init_def newSession_def split: option.split prod.split)
qed

lemma provider_Lock_Unlock:
  "p_mu (w_provider w) = Unlocked \<Longrightarrow> provider_Unlock (with_provider (p_mu_update (\<lambda>_. WLocked)) w) = w"
  by (simp add: provider_Unlock_def with_provider_def)

lemma provider_Read_registered:
  fixes w :: "'d world"
  assumes "p_mu (w_provider w) = Unlocked" "map_of (p_sessions (w_provider w)) sid = Some ref"
    and "s_mu (w_heap w ! ref) = Unlocked"
  shows "provider_Read ops sid expires w =
     (Ret ref, set_session ref ((w_heap w ! ref)\<lparr>s_flashes :=
        filter (\<lambda>(key, v). \<not> shouldRemove v) (s_flashes (w_heap w ! ref))\<rparr>) w)"
proof -
  have a: "(w_heap w ! ref)\<lparr>s_flashes := fl, s_mu := Unlocked\<rparr> = (w_heap w ! ref)\<lparr>s_flashes := fl\<rparr>" for fl
    using assms(3) by simp
  have b: "(w_provider w)\<lparr>p_mu := Unlocked\<rparr> = w_provider w" using assms(1) by simp
  have c: "w\<lparr>w_heap := h, w_provider := w_provider w\<rparr> = w\<lparr>w_heap := h\<rparr>" for h by simp
  show ?thesis
    using assms
    by (auto simp: provider_Read_def on_session_def Session_runFlashGC_def provider_Unlock_def with_provider_def
        set_session_def a b c split: option.split)
qed

lemma provider_Read_unknown:
  assumes "p_mu (w_provider w) = Unlocked" "map_of (p_sessions (w_provider w)) sid = None"
  shows "provider_Read ops sid expires w = provider_Init ops sid expires w"
  using assms by (auto simp: provider_Read_def provider_Lock_Unlock split: option.split)

lemma Store_Len_vals: "plain_store r \<Longrightarrow> Store_Len r = 0 \<longleftrightarrow> store_vals r = Map.empty"
  using Store_Len_lookup [of r]
  by (auto simp: plain_store_def wf_store_def store_vals_def fun_eq_iff)

text \<open>A request without a (decodable) cookie, whichever way the cookie is read and written.\<close>

lemma start_with_new:
  fixes s :: "'d Sessions"
  assumes "decodeCookieValue raw s = (Ret [], s1)" "SessionIDGenerator_call s1 = (Ret sid, s2)"
    and "p_mu (w_provider (m_world s)) = Unlocked" "db_plain ops sid (m_world s)"
  shows "\<exists>w' sess. start_with ops raw upd (w, s) =
      (Ret (length (w_heap (m_world s))), upd sid (Expires (m_config s)) (w, s2\<lparr>m_world := w'\<rparr>)) \<and>
     p_mu (w_provider w') = Unlocked \<and> w_now w' = w_now (m_world s) \<and> w_heap w' = w_heap (m_world s) @ [sess] \<and>
     p_sessions (w_provider w') =
       AList.update sid (length (w_heap (m_world s))) (p_sessions (w_provider (m_world s))) \<and>
     s_sid sess = sid \<and> (s_isNew sess \<longleftrightarrow> db_values ops sid (m_world s) = Map.empty) \<and>
     s_mu sess = Unlocked \<and> s_flashes sess = [] \<and> store_vals (s_values sess) = db_values ops sid (m_world s)"
proof -
  have eq: "m_world s1 = m_world s" "m_world s2 = m_world s" "m_config s1 = m_config s"
    using decodeCookieValue_frame [of raw s] generator_frame [of s1] assms(1,2) by simp_all
  obtain w1 sess where init: "provider_Init ops sid (Expires (m_config s)) (m_world s) =
      (Ret (length (w_heap (m_world s))), w1)"
    "p_mu (w_provider w1) = Unlocked" "w_now w1 = w_now (m_world s)" "w_heap w1 = w_heap (m_world s) @ [sess]"
    "p_sessions (w_provider w1) = AList.update sid (length (w_heap (m_world s))) (p_sessions (w_provider (m_world s)))"
    "s_sid sess = sid" "s_mu sess = Unlocked" "s_flashes sess = []" "plain_store (s_values sess)"
    "store_vals (s_values sess) = db_values ops sid (m_world s)"
    using provider_Init_plain [OF assms(3,4), of "Expires (m_config s)"] by blast
  let ?s = "sess\<lparr>s_isNew := (db_values ops sid (m_world s) = Map.empty)\<rparr>"
  let ?w = "mark_new (length (w_heap (m_world s))) w1"
  have heap: "w_heap ?w = w_heap (m_world s) @ [?s]"
    using init(4,9,10) by (simp add: mark_new_def Let_def Store_Len_vals)
  have "start_with ops raw upd (w, s) =
      (Ret (length (w_heap (m_world s))), upd sid (Expires (m_config s)) (w, s2\<lparr>m_world := ?w\<rparr>))"
    using assms(1,2) eq init(1) by (simp add: start_with_def on_world_def)
  then show ?thesis using init heap by (intro exI [of _ ?w] exI [of _ ?s]) simp
qed

text \<open>
  The user's \<open>Encode\<close> and \<open>Decode\<close> fit together on \<open>sid\<close>: both are nil, or \<open>Encode\<close> yields a
  cookie-safe value that \<open>Decode\<close> maps back to it.
\<close>

definition codec_ok :: "Config \<Rightarrow> string \<Rightarrow> bool" where
  "codec_ok cfg sid =
     (case (Encode cfg, Decode cfg) of
        (None, None) \<Rightarrow> plain_value sid \<and> sid \<noteq> []
      | (Some e, Some d) \<Rightarrow>
          sid \<noteq> [] \<and> (\<forall>n. \<exists>x. e n (Cookie cfg) sid = Some x \<and> x \<noteq> [] \<and> plain_value x \<and>
                            (\<forall>n'. d n' (Cookie cfg) x = Some (Some sid)))
      | _ \<Rightarrow> False)"

lemma codec_ok_encode:
  fixes s :: "'d Sessions"
  assumes "codec_ok (m_config s) sid"
  obtains x s1 where "encodeCookieValue sid s = (x, s1)" "x \<noteq> []" "plain_value x"
    "\<And>s' :: 'd Sessions. m_config s' = m_config s \<Longrightarrow> fst (decodeCookieValue x s') = Ret sid"
proof (cases "Encode (m_config s)")
  case None
  then have "Decode (m_config s) = None" "plain_value sid" "sid \<noteq> []"
    using assms by (auto simp: codec_ok_def split: option.splits)
  with None that [of sid s] show ?thesis
    by (auto simp: encodeCookieValue_def decodeCookieValue_def)
next
  case (Some e)
  then obtain d where d: "Decode (m_config s) = Some d"
    "\<forall>n. \<exists>x. e n (Cookie (m_config s)) sid = Some x \<and> x \<noteq> [] \<and> plain_value x \<and>
        (\<forall>n'. d n' (Cookie (m_config s)) x = Some (Some sid))"
    using assms by (auto simp: codec_ok_def split: option.splits)
  then obtain x where "e (m_calls s) (Cookie (m_config s)) sid = Some x" "x \<noteq> []" "plain_value x"
    "\<And>n'. d n' (Cookie (m_config s)) x = Some (Some sid)" by blast
  with Some d that [of x "s\<lparr>m_calls := Suc (m_calls s)\<rparr>"] show ?thesis
    by (simp add: encodeCookieValue_def decodeCookieValue_def)
qed

lemma start_with_known:
  fixes s :: "'d Sessions"
  assumes "decodeCookieValue raw s = (Ret sid, s1)" "sid \<noteq> []" "p_mu (w_provider (m_world s)) = Unlocked"
    and "map_of (p_sessions (w_provider (m_world s))) sid = Some ref"
    and "s_mu (w_heap (m_world s) ! ref) = Unlocked" "s_flashes (w_heap (m_world s) ! ref) = []"
  shows "start_with ops raw upd (w, s) = (Ret ref, w, s1)"
proof -
  have eq: "m_world s1 = m_world s" using decodeCookieValue_frame [of raw s] assms(1) by simp
  have "(w_heap (m_world s) ! ref)\<lparr>s_flashes := []\<rparr> = w_heap (m_world s) ! ref" using assms(6) by simp
  then have "set_session ref ((w_heap (m_world s) ! ref)\<lparr>s_flashes := []\<rparr>) (m_world s) = m_world s"
    by (simp only: set_session_def list_update_id) simp
  then show ?thesis
    using assms(1,2) eq provider_Read_registered [OF assms(3,4,5), of ops] assms(6)
    by (simp add: start_with_def on_world_def)
qed

lemma UUID_plain: "plain_value (UUID_String u)"
proof -
  have "plain_byte (hex_digit n)" if "unat n < 16" for n :: byte
  proof -
    have "hex_digit n \<in> set ''0123456789abcdef''"
      unfolding hex_digit_def using that by (intro nth_mem) simp
    then show ?thesis by (auto simp: plain_byte_def)
  qed
  then have "plain_value (hex_Encode bs)" for bs
    using nibble_bounds by (induction bs) (auto simp: hex_Encode_def hex_byte_def plain_value_def)
  then show ?thesis by (auto simp: UUID_String_def plain_value_def plain_byte_def)
qed

lemma Request_Cookie_line:
  "isCookieNameValid name \<Longrightarrow> plain_value v \<Longrightarrow> r_Cookie r = [cookie_line name v] \<Longrightarrow>
     Request_Cookie r name = Some (zero_cookie\<lparr>c_Name := name, c_Value := v\<rparr>)"
  by (simp add: Request_Cookie_def readCookies_line)

text \<open>A request whose cookie names a session that the provider does not hold.\<close>

lemma start_with_unknown:
  fixes s :: "'d Sessions"
  assumes "decodeCookieValue raw s = (Ret sid, s1)" "sid \<noteq> []" "p_mu (w_provider (m_world s)) = Unlocked"
    and "map_of (p_sessions (w_provider (m_world s))) sid = None" "db_plain ops sid (m_world s)"
  shows "\<exists>ref s'. start_with ops raw upd (w, s) = (Ret ref, w, s') \<and>
     map_of (p_sessions (w_provider (m_world s'))) sid = Some ref \<and>
     s_sid (w_heap (m_world s') ! ref) = sid \<and> \<not> s_isNew (w_heap (m_world s') ! ref) \<and>
     store_vals (s_values (w_heap (m_world s') ! ref)) = db_values ops sid (m_world s)"
proof -
  have eq: "m_world s1 = m_world s" using decodeCookieValue_frame [of raw s] assms(1) by simp
  obtain w' sess where "provider_Init ops sid (Expires (m_config s1)) (m_world s) = (Ret (length (w_heap (m_world s))), w')"
    "w_heap w' = w_heap (m_world s) @ [sess]" "s_sid sess = sid" "\<not> s_isNew sess"
    "p_sessions (w_provider w') = AList.update sid (length (w_heap (m_world s))) (p_sessions (w_provider (m_world s)))"
    "store_vals (s_values sess) = db_values ops sid (m_world s)"
    using provider_Init_plain [OF assms(3,5), of "Expires (m_config s1)"] by blast
  then show ?thesis
    using assms(1,2) eq provider_Read_unknown [OF assms(3,4), of ops]
    by (auto simp: start_with_def on_world_def map_of_update)
qed

section \<open>Properties\<close>

text \<open>
  C1. A client comes back to its session. On a request without a session cookie \<open>Start\<close> creates a
  session under the generated id, loads what the databases have for that id, reports it as new
  exactly when they have nothing, and adds one cookie to the response. A later request that
  returns this cookie gets the same session object, the response gets no cookie and nothing
  changes. The hypotheses on the user's functions are that the generator returns an id and that
  \<open>Decode\<close> inverts \<open>Encode\<close>.
\<close>

theorem Start_returning_client:
  fixes s :: "'d Sessions"
  assumes "p_mu (w_provider (m_world s)) = Unlocked" "GetCookie r (Cookie (m_config s)) = []"
    and "isCookieNameValid (Cookie (m_config s))"
    and "SessionIDGenerator (m_config s) = Some gen" "gen (m_calls s) = Ret sid"
    and "db_plain ops sid (m_world s)" "codec_ok (m_config s) sid"
  shows "\<exists>ref c s1. Start ops r (w, s) = (Ret ref, w @ [c], s1) \<and>
     s_sid (w_heap (m_world s1) ! ref) = sid \<and>
     store_vals (s_values (w_heap (m_world s1) ! ref)) = db_values ops sid (m_world s) \<and>
     (s_isNew (w_heap (m_world s1) ! ref) \<longleftrightarrow> db_values ops sid (m_world s) = Map.empty) \<and>
     (\<forall>r' w'. r_Cookie r' = [cookie_line (c_Name c) (c_Value c)] \<longrightarrow>
        (\<exists>s2. Start ops r' (w', s1) = (Ret ref, w', s2) \<and> m_world s2 = m_world s1))"
proof -
  let ?ref = "length (w_heap (m_world s))" and ?cfg = "m_config s"
  let ?s0 = "s\<lparr>m_calls := Suc (m_calls s)\<rparr>"
  have dec: "decodeCookieValue [] s = (Ret [], s)" by (simp add: decodeCookieValue_def)
  have gen: "SessionIDGenerator_call s = (Ret sid, ?s0)" using assms(4,5) by (simp add: SessionIDGenerator_call_def)
  obtain w' sess where st: "start_with ops [] (updateCookie r) (w, s) =
      (Ret ?ref, updateCookie r sid (Expires ?cfg) (w, ?s0\<lparr>m_world := w'\<rparr>))"
    "p_mu (w_provider w') = Unlocked" "w_heap w' = w_heap (m_world s) @ [sess]"
    "p_sessions (w_provider w') = AList.update sid ?ref (p_sessions (w_provider (m_world s)))"
    "s_sid sess = sid" "s_isNew sess \<longleftrightarrow> db_values ops sid (m_world s) = Map.empty"
    "s_mu sess = Unlocked" "s_flashes sess = []" "store_vals (s_values sess) = db_values ops sid (m_world s)"
    using start_with_new [OF dec gen assms(1,6), of "updateCookie r" w] by blast
  let ?s1 = "?s0\<lparr>m_world := w'\<rparr>"
  obtain x s1 where enc: "encodeCookieValue sid ?s1 = (x, s1)" "x \<noteq> []" "plain_value x"
    "\<And>s' :: 'd Sessions. m_config s' = ?cfg \<Longrightarrow> fst (decodeCookieValue x s') = Ret sid"
    using codec_ok_encode [of ?s1 sid] assms(7) by auto
  have s1: "m_world s1 = w'" "m_config s1 = ?cfg" using encodeCookieValue_frame [of sid ?s1] enc(1) by simp_all
  obtain c where upd: "updateCookie r sid (Expires ?cfg) (w, ?s1) = (w @ [c], s1)"
    "c_Name c = Cookie ?cfg" "c_Value c = x"
    using updateCookie_sends [of ?s1 r sid "Expires ?cfg" w] assms(3) enc(1,3)
    by (auto simp: sanitizeCookieValue_plain)
  have sid: "sid \<noteq> []" using assms(7) by (auto simp: codec_ok_def split: option.splits)
  have "\<exists>s2. Start ops r' (w2, s1) = (Ret ?ref, w2, s2) \<and> m_world s2 = m_world s1"
    if "r_Cookie r' = [cookie_line (c_Name c) (c_Value c)]" for r' w2
  proof -
    have get: "GetCookie r' (Cookie ?cfg) = x"
      using GetCookie_line [OF assms(3) enc(3)] that upd(2,3) by simp
    obtain s2 where d: "decodeCookieValue x s1 = (Ret sid, s2)"
      using enc(4) [OF s1(2)] by (metis prod.collapse)
    have "start_with ops x (updateCookie r') (w2, s1) = (Ret ?ref, w2, s2)"
      by (rule start_with_known [OF d sid]) (simp_all add: s1(1) st(2,3,4,7,8) map_of_update)
    moreover have "m_world s2 = m_world s1" using decodeCookieValue_frame [of x s1] d by simp
    ultimately show ?thesis using get s1(2) by (simp add: Start_def)
  qed
  then show ?thesis
    using st(1,3,5,6,9) upd s1 assms(2)
    by (intro exI [of _ ?ref] exI [of _ c] exI [of _ s1]) (simp add: Start_def)
qed

theorem Start_returning_client_witness:
  "\<exists>ref c s1. Start rec_ops \<lparr>r_Cookie = [], r_URL_Host = [], r_TLS = False, r_elapsed = 0\<rparr>
      ([], New (\<lambda>_. Some (replicate 16 7)) 100 (\<lambda>_. 0) 500 zero_config) = (Ret ref, [c], s1) \<and>
     s_isNew (w_heap (m_world s1) ! ref) \<and>
     (\<exists>s2. Start rec_ops \<lparr>r_Cookie = [cookie_line (c_Name c) (c_Value c)], r_URL_Host = [], r_TLS = False,
        r_elapsed = 0\<rparr> ([], s1) = (Ret ref, [], s2))"
proof -
  let ?rnd = "\<lambda>_ :: nat. Some (replicate 16 (7 :: byte))"
  let ?s = "New ?rnd 100 (\<lambda>_. 0) 500 zero_config :: SyncPayload list Sessions"
  let ?u = "UUID_SetVariant (UUID_SetVersion 4 (replicate 16 7))"
  have name: "isCookieNameValid (Cookie (m_config ?s))"
    by (simp add: New_def zero_config_def DefaultCookieName_def isCookieNameValid_def isToken_def Let_def)
  have gen: "default_generator ?rnd 0 = Ret (UUID_String ?u)"
    by (simp add: default_generator_def NewV4_def safeRandom_def)
  have "length (UUID_String ?u) = 36"
    by (rule length_UUID_String) (simp add: UUID_SetVariant_def UUID_SetVersion_def)
  then have codec: "codec_ok (m_config ?s) (UUID_String ?u)"
    using UUID_plain by (auto simp: codec_ok_def New_def zero_config_def)
  let ?r = "\<lparr>r_Cookie = [], r_URL_Host = [], r_TLS = False, r_elapsed = 0\<rparr>"
  have s: "p_mu (w_provider (m_world ?s)) = Unlocked" "GetCookie ?r (Cookie (m_config ?s)) = []"
    "SessionIDGenerator (m_config ?s) = Some (default_generator ?rnd)"
    "default_generator ?rnd (m_calls ?s) = Ret (UUID_String ?u)" "db_plain rec_ops (UUID_String ?u) (m_world ?s)"
    "db_values rec_ops (UUID_String ?u) (m_world ?s) = Map.empty"
    using gen by (simp_all add: New_def newProvider_def zero_config_def)
  obtain ref c s1 where start: "Start rec_ops ?r ([], ?s) = (Ret ref, [] @ [c], s1)"
    and isnew: "s_isNew (w_heap (m_world s1) ! ref)" and again: "\<And>r' w'. r_Cookie r' = [cookie_line (c_Name c) (c_Value c)] \<Longrightarrow>
        \<exists>s2. Start rec_ops r' (w', s1) = (Ret ref, w', s2)"
    using Start_returning_client [OF s(1,2) name s(3,4,5) codec, of "[]"] s(6) by blast
  from start isnew show ?thesis
    using again [of "\<lparr>r_Cookie = [cookie_line (c_Name c) (c_Value c)], r_URL_Host = [], r_TLS = False,
        r_elapsed = 0\<rparr>" "[]"] by auto
qed



text \<open>
  C25. \<open>Destroy\<close> on a request with a session cookie: the session is removed from the provider and
  every other session stays; the response gets a cookie that tells the client to delete the
  session cookie (empty value, \<open>MaxAge\<close> below zero, an \<open>Expires\<close> in the past, path \<open>/\<close>). That
  cookie carries no domain, also where \<open>updateCookie\<close> had set one.
\<close>

theorem Destroy_removes_session_and_cookie:
  fixes s :: "'d Sessions"
  assumes "isCookieNameValid (Cookie (m_config s))" "plain_value v"
    and "r_Cookie r = [cookie_line (Cookie (m_config s)) v]"
    and "fst (decodeCookieValue v s) = Ret sid" "sid \<noteq> []"
    and "p_mu (w_provider (m_world s)) = Unlocked" "wf_world dbinv (m_world s)"
  shows "\<exists>c s'. Destroy ops r (w, s) = (Ret (), w @ [c], s') \<and>
     map_of (p_sessions (w_provider (m_world s'))) = (map_of (p_sessions (w_provider (m_world s))))(sid := None) \<and>
     p_mu (w_provider (m_world s')) = Unlocked \<and>
     c_Name c = Cookie (m_config s) \<and> c_Value c = [] \<and> c_MaxAge c < 0 \<and> c_Expires c = CookieExpireDelete \<and>
     c_Path c = ''/'' \<and> c_Domain c = []"
proof -
  obtain s1 where dec: "decodeCookieValue v s = (Ret sid, s1)" using assms(4) by (metis prod.collapse)
  have s1: "m_world s1 = m_world s" "m_config s1 = m_config s"
    using decodeCookieValue_frame [of v s] dec by simp_all
  obtain w' where del: "provider_Destroy ops sid (m_world s) = (Ret (), w')" "p_mu (w_provider w') = Unlocked"
    "map_of (p_sessions (w_provider w')) = (map_of (p_sessions (w_provider (m_world s))))(sid := None)"
    using provider_Destroy_sessions [OF assms(6,7), of ops sid] by blast
  have "GetCookie r (Cookie (m_config s)) = v" using assms(1-3) by (rule GetCookie_line)
  then have "Destroy ops r (w, s) = (Ret (), RemoveCookie r (Cookie (m_config s)) w, s1\<lparr>m_world := w'\<rparr>)"
    using dec del(1) s1 assms(5) by (simp add: Destroy_def destroy_def on_world_def)
  moreover have "RemoveCookie r (Cookie (m_config s)) w =
      w @ [zero_cookie\<lparr>c_Name := Cookie (m_config s), c_Expires := CookieExpireDelete, c_MaxAge := -1,
        c_Path := ''/''\<rparr>]"
    using assms(1) Request_Cookie_line [OF assms(1-3)]
    by (simp add: RemoveCookie_def AddCookie_def SetCookie_def sanitizeCookieValue_def zero_cookie_def)
  ultimately show ?thesis using del by (simp add: zero_cookie_def)
qed

theorem Destroy_removes_session_and_cookie_witness:
  "\<exists>c s'. Destroy rec_ops \<lparr>r_Cookie = [''gosessionid=x''], r_URL_Host = ''a.com'', r_TLS = False, r_elapsed = 0\<rparr>
      ([], (New (\<lambda>_. None) 100 (\<lambda>_. 0) 500 zero_config)\<lparr>m_world := sample_world\<rparr>) = (Ret (), [c], s') \<and>
     map_of (p_sessions (w_provider (m_world s'))) ''x'' = None \<and> c_MaxAge c < 0 \<and> c_Domain c = []"
proof -
  let ?r = "\<lparr>r_Cookie = [''gosessionid=x''], r_URL_Host = ''a.com'', r_TLS = False, r_elapsed = 0\<rparr>"
  let ?s = "(New (\<lambda>_. None) 100 (\<lambda>_. 0) 500 zero_config)\<lparr>m_world := sample_world\<rparr>"
  have name: "Cookie (m_config ?s) = ''gosessionid''" by (simp add: New_def zero_config_def DefaultCookieName_def)
  have "isCookieNameValid (Cookie (m_config ?s))" "plain_value ''x''"
    "r_Cookie ?r = [cookie_line (Cookie (m_config ?s)) ''x'']"
    "fst (decodeCookieValue ''x'' ?s) = Ret ''x''" "''x'' \<noteq> []" "p_mu (w_provider (m_world ?s)) = Unlocked"
    by (simp_all add: name isCookieNameValid_def isToken_def plain_value_def plain_byte_def cookie_line_def
        decodeCookieValue_def New_def zero_config_def DefaultCookieName_def sample_world_def)
  from Destroy_removes_session_and_cookie [OF this, of "\<lambda>_. True" rec_ops "[]"] wf_sample_world
  obtain c s' where "Destroy rec_ops ?r ([], ?s) = (Ret (), [] @ [c], s')" "c_MaxAge c < 0" "c_Domain c = []"
    "map_of (p_sessions (w_provider (m_world s'))) = (map_of (p_sessions (w_provider (m_world ?s))))(''x'' := None)"
    by auto
  then show ?thesis by (intro exI [of _ c] exI [of _ s']) simp
qed

end
