(* ===== verification/GoFloat.thy ===== *)
theory GoFloat
  imports GoStrconv GoTime
begin

text \<open>
  Floating-point values as bit patterns: \<open>float64\<close> is a 64-bit word with 11 exponent and 52 fraction
  bits, \<open>float32\<close> a 32-bit word with 8 and 23. \<open>fp_round\<close> rounds a non-negative rational number to
  the nearest value of a format, ties to even; the conversions of the language and \<open>ParseFloat\<close> of
  package \<open>strconv\<close> are built on it. A conversion of a NaN keeps the leading fraction bits and
  makes the NaN quiet. The lemmas show that rounding leaves values of the format alone, so that widening and then
  narrowing a \<open>float32\<close> gives it back.
\<close>

type_synonym float32 = "32 word"
type_synonym float64 = "64 word"

fun ilog2 :: "nat \<Rightarrow> nat" where
  "ilog2 n = (if n < 2 then 0 else Suc (ilog2 (n div 2)))"

declare ilog2.simps [simp del]

text \<open>\<open>a / b \<ge> 2 ^ k\<close> and the exponent of the leading bit of \<open>a / b\<close>.\<close>

definition pow2_le :: "int \<Rightarrow> nat \<Rightarrow> nat \<Rightarrow> bool" where
  "pow2_le k a b = (if 0 \<le> k then b * 2 ^ nat k \<le> a else b \<le> a * 2 ^ nat (- k))"

definition lead_exp :: "nat \<Rightarrow> nat \<Rightarrow> int" where
  "lead_exp a b = (let k = int (ilog2 a) - int (ilog2 b) in if pow2_le k a b then k else k - 1)"

text \<open>A format with \<open>fb\<close> fraction bits and \<open>eb\<close> exponent bits.\<close>

definition exp_min :: "nat \<Rightarrow> nat \<Rightarrow> int" where
  "exp_min fb eb = 2 - 2 ^ (eb - 1) - int fb"

definition inf_bits :: "nat \<Rightarrow> nat \<Rightarrow> nat" where
  "inf_bits fb eb = (2 ^ eb - 1) * 2 ^ fb"

definition fp_round :: "nat \<Rightarrow> nat \<Rightarrow> nat \<Rightarrow> nat \<Rightarrow> nat" where
  "fp_round fb eb a b =
     (if a = 0 then 0
      else
        let e = max (exp_min fb eb) (lead_exp a b - int fb);
            q = round_even (a * 2 ^ nat (- e)) (b * 2 ^ nat e)
        in min (inf_bits fb eb) (nat (e - exp_min fb eb) * 2 ^ fb + q))"

text \<open>A finite value of the format is \<open>q * 2 ^ e\<close>.\<close>

definition fp_value :: "nat \<Rightarrow> nat \<Rightarrow> nat \<Rightarrow> nat \<times> int" where
  "fp_value fb eb bits =
     (let x = bits div 2 ^ fb; f = bits mod 2 ^ fb
      in if x = 0 then (f, exp_min fb eb) else (f + 2 ^ fb, exp_min fb eb + int x - 1))"

text \<open>Rounding \<open>q * 2 ^ e\<close> to a format.\<close>

definition fp_of_dyadic :: "nat \<Rightarrow> nat \<Rightarrow> nat \<times> int \<Rightarrow> nat" where
  "fp_of_dyadic fb eb v = (case v of (q, e) \<Rightarrow> fp_round fb eb (q * 2 ^ nat e) (2 ^ nat (- e)))"

section \<open>Conversions\<close>

definition f32_to_f64 :: "float32 \<Rightarrow> float64" where
  "f32_to_f64 w =
     (let n = unat w; s = n div 2 ^ 31; b = n mod 2 ^ 31
      in of_nat (s * 2 ^ 63 +
           (if b < inf_bits 23 8 then fp_of_dyadic 52 11 (fp_value 23 8 b)
            else if b = inf_bits 23 8 then inf_bits 52 11
            else inf_bits 52 11 + 2 ^ 51 + (b mod 2 ^ 22) * 2 ^ 29)))"

definition f64_to_f32 :: "float64 \<Rightarrow> float32" where
  "f64_to_f32 w =
     (let n = unat w; s = n div 2 ^ 63; b = n mod 2 ^ 63
      in of_nat (s * 2 ^ 31 +
           (if b < inf_bits 52 11 then fp_of_dyadic 23 8 (fp_value 52 11 b)
            else if b = inf_bits 52 11 then inf_bits 23 8
            else inf_bits 23 8 + 2 ^ 22 + (b mod 2 ^ 51) div 2 ^ 29)))"

definition int_to_f64 :: "int64 \<Rightarrow> float64" where
  "int_to_f64 i = of_nat ((if sint i < 0 then 2 ^ 63 else 0) + fp_round 52 11 (nat \<bar>sint i\<bar>) 1)"

definition int_to_f32 :: "int64 \<Rightarrow> float32" where
  "int_to_f32 i = of_nat ((if sint i < 0 then 2 ^ 31 else 0) + fp_round 23 8 (nat \<bar>sint i\<bar>) 1)"

section \<open>\<open>ParseFloat\<close>\<close>

definition to_lower :: "char \<Rightarrow> char" where
  "to_lower c = (let n = of_char c in if 65 \<le> n \<and> n \<le> (90::nat) then char_of (n + 32) else c)"

text \<open>The sign and magnitude of the special values.\<close>

definition float_special :: "string \<Rightarrow> (bool \<times> nat) option" where
  "float_special s =
     (let t = map to_lower s in
      if t = ''nan'' then Some (False, inf_bits 52 11 + 2 ^ 51 + 1)
      else if t \<in> set [''inf'', ''infinity'', ''+inf'', ''+infinity''] then Some (False, inf_bits 52 11)
      else if t \<in> set [''-inf'', ''-infinity''] then Some (True, inf_bits 52 11)
      else None)"

text \<open>The digits of the mantissa, how many of them are behind the point, and the rest.\<close>

fun scan_mantissa :: "string \<Rightarrow> bool \<Rightarrow> bool \<Rightarrow> nat \<Rightarrow> nat \<Rightarrow> (bool \<times> nat \<times> nat \<times> string) option" where
  "scan_mantissa [] sawdot sawdigits mant frac = Some (sawdigits, mant, frac, [])"
| "scan_mantissa (c # cs) sawdot sawdigits mant frac =
     (if c = CHR ''.'' then (if sawdot then None else scan_mantissa cs True sawdigits mant frac)
      else case digit_of c of
             Some d \<Rightarrow> scan_mantissa cs sawdot True (mant * 10 + d) (if sawdot then frac + 1 else frac)
           | None \<Rightarrow> Some (sawdigits, mant, frac, c # cs))"

fun scan_exp :: "string \<Rightarrow> nat \<Rightarrow> nat option" where
  "scan_exp [] e = Some e"
| "scan_exp (c # cs) e =
     (case digit_of c of
        None \<Rightarrow> None
      | Some d \<Rightarrow> scan_exp cs (if e < 10000 then e * 10 + d else e))"

definition parse_exponent :: "string \<Rightarrow> int option" where
  "parse_exponent s =
     (case s of
        [] \<Rightarrow> Some 0
      | c # cs \<Rightarrow>
          if c = CHR ''e'' \<or> c = CHR ''E'' then
            (let neg = (cs \<noteq> [] \<and> hd cs = CHR ''-'');
                 ds = (if cs \<noteq> [] \<and> (hd cs = CHR ''-'' \<or> hd cs = CHR ''+'') then tl cs else cs)
             in if ds = [] then None else map_option (\<lambda>e. if neg then - int e else int e) (scan_exp ds 0))
          else None)"

text \<open>Sign, digits and decimal exponent of a number.\<close>

definition parse_decimal :: "string \<Rightarrow> (bool \<times> nat \<times> int) option" where
  "parse_decimal s =
     (let neg = (s \<noteq> [] \<and> hd s = CHR ''-'');
          t = (if s \<noteq> [] \<and> (hd s = CHR ''-'' \<or> hd s = CHR ''+'') then tl s else s)
      in case scan_mantissa t False False 0 0 of
           Some (True, mant, frac, rest) \<Rightarrow> map_option (\<lambda>e. (neg, mant, e - int frac)) (parse_exponent rest)
         | _ \<Rightarrow> None)"

text \<open>The magnitude in a format, infinity when it is out of range.\<close>

definition decimal_bits :: "nat \<Rightarrow> nat \<Rightarrow> nat \<Rightarrow> int \<Rightarrow> nat" where
  "decimal_bits fb eb mant e = fp_round fb eb (mant * 10 ^ nat e) (10 ^ nat (- e))"

definition atof64 :: "string \<Rightarrow> float64 \<times> strconv_error option" where
  "atof64 s =
     (case float_special s of
        Some (neg, b) \<Rightarrow> (of_nat ((if neg then 2 ^ 63 else 0) + b), None)
      | None \<Rightarrow>
          (case parse_decimal s of
             None \<Rightarrow> (0, Some ErrSyntax)
           | Some (neg, mant, e) \<Rightarrow>
               (let b = decimal_bits 52 11 mant e
                in (of_nat ((if neg then 2 ^ 63 else 0) + b),
                    if b = inf_bits 52 11 then Some ErrRange else None))))"

definition atof32 :: "string \<Rightarrow> float32 \<times> strconv_error option" where
  "atof32 s =
     (case float_special s of
        Some (neg, b) \<Rightarrow> (f64_to_f32 (of_nat ((if neg then 2 ^ 63 else 0) + b)), None)
      | None \<Rightarrow>
          (case parse_decimal s of
             None \<Rightarrow> (0, Some ErrSyntax)
           | Some (neg, mant, e) \<Rightarrow>
               (let b = decimal_bits 23 8 mant e
                in (of_nat ((if neg then 2 ^ 31 else 0) + b),
                    if b = inf_bits 23 8 then Some ErrRange else None))))"

definition ParseFloat :: "string \<Rightarrow> nat \<Rightarrow> float64 \<times> strconv_error option" where
  "ParseFloat s bitSize =
     (if bitSize = 32 then (let (f1, err1) = atof32 s in (f32_to_f64 f1, err1)) else atof64 s)"

section \<open>Rounding keeps the values of the format\<close>

lemma ilog2_bounds: "0 < n \<Longrightarrow> 2 ^ ilog2 n \<le> n \<and> n < 2 ^ Suc (ilog2 n)"
proof (induction n rule: ilog2.induct)
  case (1 n)
  show ?case
  proof (cases "n < 2")
    case True
    with "1.prems" show ?thesis by (simp add: ilog2.simps)
  next
    case False
    then have "2 ^ ilog2 (n div 2) \<le> n div 2 \<and> n div 2 < 2 ^ Suc (ilog2 (n div 2))" using "1.IH" by simp
    then show ?thesis using False by (auto simp: ilog2.simps [of n])
  qed
qed

lemma ilog2_eqI: "2 ^ k \<le> n \<Longrightarrow> n < 2 ^ Suc k \<Longrightarrow> ilog2 n = k"
proof -
  assume k: "2 ^ k \<le> n" "n < 2 ^ Suc k"
  then have "0 < n" by (meson less_le_trans zero_less_numeral zero_less_power)
  note b = ilog2_bounds [OF this]
  have "k < Suc (ilog2 n)" using k(1) b by (meson le_less_trans one_less_numeral_iff power_less_imp_less_exp semiring_norm(76))
  moreover have "ilog2 n < Suc k" using k(2) b by (meson le_less_trans one_less_numeral_iff power_less_imp_less_exp semiring_norm(76))
  ultimately show ?thesis by simp
qed

lemma ilog2_scale: "0 < q \<Longrightarrow> ilog2 (q * 2 ^ n) = ilog2 q + n"
  using ilog2_bounds [of q] by (intro ilog2_eqI) (simp_all add: power_add)

lemma ilog2_pow2: "ilog2 (2 ^ n) = n"
  by (intro ilog2_eqI) simp_all

lemma ilog2_less: "0 < q \<Longrightarrow> q < 2 ^ k \<Longrightarrow> ilog2 q < k"
  using ilog2_bounds [of q] by (meson le_less_trans one_less_numeral_iff power_less_imp_less_exp semiring_norm(76))

lemma lead_exp_dyadic:
  assumes "0 < q"
  shows "lead_exp (q * 2 ^ nat e) (2 ^ nat (- e)) = int (ilog2 q) + e"
proof -
  let ?l = "ilog2 q" and ?k = "int (ilog2 q) + e"
  have l: "2 ^ ?l \<le> q" using ilog2_bounds [OF assms] by simp
  have "pow2_le ?k (q * 2 ^ nat e) (2 ^ nat (- e))"
  proof (cases "0 \<le> e")
    case True
    then have "nat ?k = ?l + nat e" by simp
    then show ?thesis using True l by (simp add: pow2_le_def power_add)
  next
    case False
    have "2 ^ nat (- e) \<le> q * 2 ^ nat (- ?k)" if "?k < 0"
    proof -
      have "nat (- e) = ?l + nat (- ?k)" using that by simp
      then show ?thesis using l by (simp add: power_add)
    qed
    moreover have "2 ^ nat (- e) * 2 ^ nat ?k \<le> q" if "0 \<le> ?k"
    proof -
      have "?l = nat (- e) + nat ?k" using that False by simp
      then show ?thesis using l by (simp add: power_add [symmetric])
    qed
    ultimately show ?thesis using False by (simp add: pow2_le_def)
  qed
  moreover have "int (ilog2 (q * 2 ^ nat e)) - int (ilog2 (2 ^ nat (- e))) = ?k"
    using assms by (simp add: ilog2_scale ilog2_pow2)
  ultimately show ?thesis by (simp add: lead_exp_def)
qed

lemma round_even_exact: "0 < c \<Longrightarrow> round_even (q * c) c = q"
  by (simp add: round_even_def)

lemma round_even_cancel: "0 < c \<Longrightarrow> 0 < r \<Longrightarrow> round_even (p * c) (r * c) = round_even p r"
  by (simp add: round_even_def Let_def mult_mod_left [symmetric] flip: mult.assoc)

text \<open>The same number written with a larger \<open>q\<close>.\<close>

lemma fp_of_dyadic_scale: "fp_of_dyadic fb eb (q * 2 ^ d, e - int d) = fp_of_dyadic fb eb (q, e)"
proof (cases "q = 0")
  case False
  let ?E = "max (exp_min fb eb) (int (ilog2 q) + e - int fb)"
  have lead: "lead_exp (q * 2 ^ d * 2 ^ nat (e - int d)) (2 ^ nat (- (e - int d))) = int (ilog2 q) + e"
    "lead_exp (q * 2 ^ nat e) (2 ^ nat (- e)) = int (ilog2 q) + e"
    using False lead_exp_dyadic [of "q * 2 ^ d" "e - int d"] lead_exp_dyadic [of q e] by (simp_all add: ilog2_scale)
  have cross: "2 ^ d * 2 ^ nat (e - int d) * 2 ^ nat (- e) = (2 ^ nat e * 2 ^ nat (- (e - int d)) :: nat)"
  proof -
    have "d + nat (e - int d) + nat (- e) = nat e + nat (- (e - int d))" by arith
    then show ?thesis by (simp only: power_add [symmetric])
  qed
  have "round_even (q * 2 ^ d * 2 ^ nat (e - int d) * 2 ^ nat (- ?E)) (2 ^ nat (- (e - int d)) * 2 ^ nat ?E) =
      round_even ((q * 2 ^ nat e * 2 ^ nat (- ?E)) * 2 ^ nat (- (e - int d)))
        ((2 ^ nat (- e) * 2 ^ nat ?E) * 2 ^ nat (- (e - int d)))"
  proof -
    have "round_even (q * 2 ^ d * 2 ^ nat (e - int d) * 2 ^ nat (- ?E)) (2 ^ nat (- (e - int d)) * 2 ^ nat ?E) =
        round_even ((q * 2 ^ d * 2 ^ nat (e - int d) * 2 ^ nat (- ?E)) * 2 ^ nat (- e))
          ((2 ^ nat (- (e - int d)) * 2 ^ nat ?E) * 2 ^ nat (- e))"
      by (rule round_even_cancel [symmetric]) simp_all
    also have "(q * 2 ^ d * 2 ^ nat (e - int d) * 2 ^ nat (- ?E)) * 2 ^ nat (- e) =
        q * 2 ^ nat (- ?E) * (2 ^ d * 2 ^ nat (e - int d) * 2 ^ nat (- e))"
      by (simp only: mult.assoc mult.commute mult.left_commute)
    finally show ?thesis unfolding cross by (simp only: mult.assoc mult.commute mult.left_commute)
  qed
  also have "\<dots> = round_even (q * 2 ^ nat e * 2 ^ nat (- ?E)) (2 ^ nat (- e) * 2 ^ nat ?E)"
    by (rule round_even_cancel) simp_all
  finally have r: "round_even (q * 2 ^ d * 2 ^ nat (e - int d) * 2 ^ nat (- ?E)) (2 ^ nat (- (e - int d)) * 2 ^ nat ?E) =
      round_even (q * 2 ^ nat e * 2 ^ nat (- ?E)) (2 ^ nat (- e) * 2 ^ nat ?E)" .
  have nz: "q * 2 ^ d * 2 ^ nat (e - int d) \<noteq> 0" "q * 2 ^ nat e \<noteq> 0" using False by simp_all
  show ?thesis unfolding fp_of_dyadic_def prod.case fp_round_def lead Let_def r by (simp only: nz if_False)
qed (simp add: fp_of_dyadic_def fp_round_def)

text \<open>Values of the format.\<close>

definition fits :: "nat \<Rightarrow> nat \<Rightarrow> nat \<times> int \<Rightarrow> bool" where
  "fits fb eb v = (case v of (q, e) \<Rightarrow> exp_min fb eb \<le> e \<and> q < 2 ^ Suc fb \<and> (2 ^ fb \<le> q \<or> e = exp_min fb eb))"

definition fp_encode :: "nat \<Rightarrow> nat \<Rightarrow> nat \<times> int \<Rightarrow> nat" where
  "fp_encode fb eb v = (case v of (q, e) \<Rightarrow> nat (e - exp_min fb eb) * 2 ^ fb + q)"

lemma fp_of_dyadic_fits:
  assumes "fits fb eb (q, e)"
  shows "fp_of_dyadic fb eb (q, e) = min (inf_bits fb eb) (fp_encode fb eb (q, e))"
proof (cases "q = 0")
  case True
  then have "e = exp_min fb eb" using assms by (simp add: fits_def)
  with True show ?thesis by (simp add: fp_of_dyadic_def fp_round_def fp_encode_def)
next
  case False
  have "max (exp_min fb eb) (int (ilog2 q) + e - int fb) = e"
  proof (cases "2 ^ fb \<le> q")
    case True
    then have "ilog2 q = fb" using assms by (intro ilog2_eqI) (simp_all add: fits_def)
    then show ?thesis using assms by (simp add: fits_def)
  next
    case small: False
    then have "ilog2 q < fb" "e = exp_min fb eb" using assms False by (simp_all add: fits_def ilog2_less)
    then show ?thesis by simp
  qed
  then have E: "max (exp_min fb eb) (lead_exp (q * 2 ^ nat e) (2 ^ nat (- e)) - int fb) = e"
    using False lead_exp_dyadic by simp
  have "round_even (q * 2 ^ nat e * 2 ^ nat (- e)) (2 ^ nat (- e) * 2 ^ nat e) = q"
    using round_even_exact [of "2 ^ nat (- e) * 2 ^ nat e" q] by (simp only: mult.assoc mult.commute [of "2 ^ nat e"]) simp
  moreover have "q * 2 ^ nat e \<noteq> 0" using False by simp
  ultimately show ?thesis
    unfolding fp_of_dyadic_def prod.case fp_round_def E Let_def fp_encode_def by (simp only: if_False)
qed

lemma fp_value_fits: "fits fb eb (fp_value fb eb b) \<and> fp_encode fb eb (fp_value fb eb b) = b"
proof (cases "b div 2 ^ fb = 0")
  case True
  then have "b < 2 ^ fb" by (simp add: div_eq_0_iff)
  then show ?thesis by (simp add: fp_value_def fits_def fp_encode_def)
next
  case False
  then obtain x where x: "b div 2 ^ fb = Suc x" by (cases "b div 2 ^ fb") simp_all
  have "x * 2 ^ fb + (b mod 2 ^ fb + 2 ^ fb) = b" using div_mult_mod_eq [of b "2 ^ fb"] x by simp
  then show ?thesis using x by (simp add: fp_value_def fits_def fp_encode_def Let_def)
qed

lemma fp_value_encode:
  assumes "exp_min fb eb \<le> e" "2 ^ fb \<le> q" "q < 2 ^ Suc fb"
  shows "fp_value fb eb (fp_encode fb eb (q, e)) = (q, e)"
proof -
  obtain f where f: "q = 2 ^ fb + f" using assms(2) le_Suc_ex by blast
  let ?n = "nat (e - exp_min fb eb)"
  have b: "fp_encode fb eb (q, e) = f + Suc ?n * 2 ^ fb" by (simp add: fp_encode_def f)
  have "f < 2 ^ fb" using assms(3) f by simp
  then have "fp_encode fb eb (q, e) div 2 ^ fb = Suc ?n" "fp_encode fb eb (q, e) mod 2 ^ fb = f"
    unfolding b by (simp_all del: mult_Suc)
  then show ?thesis using assms(1) f by (simp add: fp_value_def)
qed

lemma fp_round_fixes: "b < inf_bits fb eb \<Longrightarrow> fp_of_dyadic fb eb (fp_value fb eb b) = b"
  using fp_of_dyadic_fits [of fb eb "fst (fp_value fb eb b)" "snd (fp_value fb eb b)"] fp_value_fits [of fb eb b] by simp

section \<open>Widening and narrowing\<close>

lemma widen_value:
  assumes "b < inf_bits 23 8" "b \<noteq> 0" "fp_value 23 8 b = (q, e)"
  shows "\<exists>d. fp_value 52 11 (fp_of_dyadic 52 11 (q, e)) = (q * 2 ^ d, e - int d) \<and>
     fp_of_dyadic 52 11 (q, e) < inf_bits 52 11"
proof -
  have q: "0 < q" "q < 2 ^ 24" "- 149 \<le> e" "e < 105"
  proof -
    have "fits 23 8 (q, e)" "fp_encode 23 8 (q, e) = b" using fp_value_fits [of 23 8 b] assms(3) by simp_all
    then show "0 < q" "q < 2 ^ 24" "- 149 \<le> e" "e < 105"
      using assms(1,2) by (auto simp: fits_def fp_encode_def exp_min_def inf_bits_def)
  qed
  let ?d = "52 - ilog2 q"
  have l: "ilog2 q < 24" "2 ^ ilog2 q \<le> q" "q < 2 ^ Suc (ilog2 q)" using ilog2_less [OF q(1,2)] ilog2_bounds [OF q(1)] by simp_all
  have "2 ^ 52 = 2 ^ ilog2 q * (2 ^ ?d :: nat)" "2 ^ Suc 52 = 2 ^ Suc (ilog2 q) * (2 ^ ?d :: nat)"
    using l(1) by (simp_all add: power_add [symmetric])
  then have big: "2 ^ 52 \<le> q * 2 ^ ?d" "q * 2 ^ ?d < 2 ^ Suc 52"
    using mult_le_mono1 [OF l(2), of "2 ^ ?d"] mult_less_mono1 [OF l(3), of "2 ^ ?d"] by (metis, metis zero_less_numeral zero_less_power)
  have e: "exp_min 52 11 \<le> e - int ?d" "e - int ?d < 105" using q(3,4) by (simp_all add: exp_min_def)
  let ?B = "fp_encode 52 11 (q * 2 ^ ?d, e - int ?d)"
  have "?B < inf_bits 52 11"
  proof -
    have "nat (e - int ?d - exp_min 52 11) \<le> 1178" using e by (simp add: exp_min_def)
    then have "nat (e - int ?d - exp_min 52 11) * 2 ^ 52 \<le> 1178 * 2 ^ 52" by (rule mult_le_mono1)
    then show ?thesis using big(2) unfolding fp_encode_def prod.case by (simp add: inf_bits_def)
  qed
  moreover have "fp_of_dyadic 52 11 (q, e) = min (inf_bits 52 11) ?B"
    using fp_of_dyadic_fits [of 52 11 "q * 2 ^ ?d" "e - int ?d"] fp_of_dyadic_scale [of 52 11 q ?d e] big e(1)
    by (simp add: fits_def)
  ultimately show ?thesis using fp_value_encode [OF e(1) big] by (intro exI [of _ ?d]) simp
qed

lemma narrow_widen:
  assumes "b < inf_bits 23 8"
  shows "fp_of_dyadic 52 11 (fp_value 23 8 b) < inf_bits 52 11 \<and>
     fp_of_dyadic 23 8 (fp_value 52 11 (fp_of_dyadic 52 11 (fp_value 23 8 b))) = b"
proof (cases "b = 0")
  case True
  then show ?thesis by (simp add: fp_value_def fp_of_dyadic_def fp_round_def inf_bits_def Let_def)
next
  case False
  obtain q e where v: "fp_value 23 8 b = (q, e)" by (cases "fp_value 23 8 b")
  obtain d where d: "fp_value 52 11 (fp_of_dyadic 52 11 (q, e)) = (q * 2 ^ d, e - int d)"
    "fp_of_dyadic 52 11 (q, e) < inf_bits 52 11"
    using widen_value [OF assms False v] by blast
  then show ?thesis using fp_of_dyadic_scale [of 23 8 q d e] fp_round_fixes [OF assms] v by simp
qed

definition is_nan32 :: "float32 \<Rightarrow> bool" where
  "is_nan32 w = (inf_bits 23 8 < unat w mod 2 ^ 31)"

lemma float_roundtrip:
  assumes "\<not> is_nan32 x"
  shows "f64_to_f32 (f32_to_f64 x) = x"
proof -
  define sg b where "sg = unat x div 2 ^ 31" and "b = unat x mod 2 ^ 31"
  define B where "B = (if b < inf_bits 23 8 then fp_of_dyadic 52 11 (fp_value 23 8 b) else inf_bits 52 11)"
  have "unat x < 2 ^ 32" using unsigned_less [of x] by simp
  then have s: "sg < 2" by (simp add: sg_def div_less_iff_less_mult)
  have B: "B < 2 ^ 63" using narrow_widen [of b] by (auto simp: B_def inf_bits_def)
  have "f32_to_f64 x = of_nat (sg * 2 ^ 63 + B)"
    using assms by (auto simp: f32_to_f64_def Let_def is_nan32_def B_def sg_def b_def)
  moreover have "sg * 2 ^ 63 + B < 2 ^ 64" using s B by auto
  ultimately have u: "unat (f32_to_f64 x) = B + sg * 2 ^ 63" by (simp only: unat_of_nat_64 add.commute)
  then have dm: "unat (f32_to_f64 x) div 2 ^ 63 = sg" "unat (f32_to_f64 x) mod 2 ^ 63 = B" using B by simp_all
  have "f64_to_f32 (f32_to_f64 x) = of_nat (sg * 2 ^ 31 + b)"
    unfolding f64_to_f32_def Let_def dm using narrow_widen [of b] assms by (auto simp: is_nan32_def B_def b_def)
  also have "\<dots> = x" unfolding sg_def b_def by (simp only: div_mult_mod_eq) simp
  finally show ?thesis .
qed

end
