(* ===== verification/FloatGetters.thy ===== *)
theory FloatGetters
  imports Session GoFloat GoHttp
begin

text \<open>
  The getters of \<^verbatim>\<open>memstore.go\<close> and \<^verbatim>\<open>session.go\<close> that convert floating-point numbers, and
  \<open>GetStringTrim\<close>.
\<close>

definition Store_GetStringTrim :: "string \<Rightarrow> Store \<Rightarrow> mem \<Rightarrow> string outcome \<times> mem" where
  "Store_GetStringTrim name r m = bind_out (Store_GetString name r m) (\<lambda>s m'. (Ret (TrimSpace s), m'))"

definition Store_GetFloat64Default ::
  "string \<Rightarrow> float64 \<Rightarrow> Store \<Rightarrow> mem \<Rightarrow> (float64 \<times> strconv_error option) outcome \<times> mem" where
  "Store_GetFloat64Default key def r m =
     bind_out (Store_Get key r m)
       (\<lambda>v m'. (Ret (case v of
            VNil \<Rightarrow> (def, None)
          | VFloat64 f \<Rightarrow> (f, None)
          | VString s \<Rightarrow> (if s = [] then (def, None) else ParseFloat s 64)
          | _ \<Rightarrow> (def, None)), m'))"

definition Store_GetFloat64 ::
  "string \<Rightarrow> Store \<Rightarrow> mem \<Rightarrow> (float64 \<times> strconv_error option) outcome \<times> mem" where
  "Store_GetFloat64 key r m = Store_GetFloat64Default key 0 r m"

text \<open>The bits of -1.\<close>

definition f32_minus_one :: float32 where
  "f32_minus_one = 0xBF800000"

definition f64_minus_one :: float64 where
  "f64_minus_one = 0xBFF0000000000000"

definition Session_GetFloat32 ::
  "string \<Rightarrow> Session \<times> mem \<Rightarrow> (float32 \<times> sess_error option) outcome \<times> Session \<times> mem" where
  "Session_GetFloat32 key sm =
     bind_out (Session_Get key sm) (\<lambda>v sm'.
       (Ret (case v of
          VFloat32 f \<Rightarrow> (f, None)
        | VFloat64 f \<Rightarrow> (f64_to_f32 f, None)
        | VInt i \<Rightarrow> (int_to_f32 i, None)
        | VString s \<Rightarrow>
            (let (f, err) = ParseFloat s 32 in
             if err \<noteq> None then (f32_minus_one, map_option StrconvError err) else (f64_to_f32 f, None))
        | _ \<Rightarrow> (f32_minus_one, Some (IntParseError ''float32'' key v))), sm'))"

definition Session_GetFloat64 ::
  "string \<Rightarrow> Session \<times> mem \<Rightarrow> (float64 \<times> sess_error option) outcome \<times> Session \<times> mem" where
  "Session_GetFloat64 key sm =
     bind_out (Session_Get key sm) (\<lambda>v sm'.
       (Ret (case v of
          VFloat32 f \<Rightarrow> (f32_to_f64 f, None)
        | VFloat64 f \<Rightarrow> (f, None)
        | VInt i \<Rightarrow> (int_to_f64 i, None)
        | VString s \<Rightarrow> (let (f, err) = ParseFloat s 32 in (f, map_option StrconvError err))
        | _ \<Rightarrow> (f64_minus_one, Some (IntParseError ''float64'' key v))), sm'))"

lemma float_getters_state:
  "snd (Session_GetFloat32 key sm) = snd (Session_Get key sm)" "snd (Session_GetFloat64 key sm) = snd (Session_Get key sm)"
  by (simp_all add: Session_GetFloat32_def Session_GetFloat64_def bind_out_def split: prod.split outcome.split)

section \<open>A decimal string\<close>

lemma ilog2_numeral [simp]:
  "ilog2 (Suc 0) = 0" "ilog2 1 = 0" "ilog2 (numeral (Num.Bit0 n)) = Suc (ilog2 (numeral n))"
  "ilog2 (numeral (Num.Bit1 n)) = Suc (ilog2 (numeral n))" "ilog2 (numeral Num.One) = 0"
  by (simp_all add: ilog2.simps [of "Suc 0"] ilog2.simps [of "numeral (Num.Bit0 n)"] ilog2.simps [of "numeral (Num.Bit1 n)"])

lemma parse_point_one: "parse_decimal ''0.1'' = Some (False, 1, - 1)" "float_special ''0.1'' = None"
  by (simp_all add: parse_decimal_def parse_exponent_def digit_of_def float_special_def to_lower_def Let_def)

lemma bits_point_one: "decimal_bits 52 11 1 (- 1) = 0x3FB999999999999A" "decimal_bits 23 8 1 (- 1) = 0x3DCCCCCD"
  by (simp_all add: decimal_bits_def fp_round_def lead_exp_def pow2_le_def exp_min_def inf_bits_def round_even_def Let_def)

lemma value_point_one: "fp_value 23 8 0x3DCCCCCD = (13421773, - 27)"
  by (simp add: fp_value_def exp_min_def Let_def)

lemma round_point_one: "fp_of_dyadic 52 11 (13421773, - 27) = 0x3FB99999A0000000"
  using fp_of_dyadic_scale [of 52 11 13421773 29 "- 27"] fp_of_dyadic_fits [of 52 11 "13421773 * 2 ^ 29" "- 56"]
  by (simp add: fits_def fp_encode_def exp_min_def inf_bits_def)

lemma widen_point_one: "f32_to_f64 0x3DCCCCCD = 0x3FB99999A0000000"
  by (simp add: f32_to_f64_def value_point_one round_point_one inf_bits_def Let_def)

lemma ParseFloat_point_one:
  "ParseFloat ''0.1'' 64 = (0x3FB999999999999A, None)" "ParseFloat ''0.1'' 32 = (0x3FB99999A0000000, None)"
  using bits_point_one
  by (simp_all add: ParseFloat_def atof64_def atof32_def parse_point_one widen_point_one inf_bits_def Let_def)

text \<open>
  The two getters disagree on strings: \<open>GetFloat64\<close> of a session parses the string with 32 bits, so
  for the value \<open>0.1\<close> it returns 0.10000000149011612, while \<open>GetFloat64\<close> of the store returns 0.1.
\<close>

lemma GetFloat64_string_single_precision:
  assumes "fst (Session_Get key sm) = Ret (VString ''0.1'')" "fst (Store_Get key r m) = Ret (VString ''0.1'')"
  shows "fst (Session_GetFloat64 key sm) = Ret (0x3FB99999A0000000, None)"
    and "fst (Store_GetFloat64 key r m) = Ret (0x3FB999999999999A, None)"
  using assms ParseFloat_point_one
  by (cases "Session_Get key sm"; cases "Store_Get key r m";
      simp add: Session_GetFloat64_def Store_GetFloat64_def Store_GetFloat64Default_def bind_out_def)+

section \<open>Properties\<close>

text \<open>
  C18. A \<open>float32\<close> survives being stored as a \<open>float64\<close>: \<open>GetFloat64\<close> of a session that holds the
  \<open>float32\<close> \<open>x\<close>, which is not a NaN, returns a number from which \<open>GetFloat32\<close> of any session that holds it gets
  exactly \<open>x\<close> back, infinities and subnormal numbers included.
\<close>

theorem float_getters_roundtrip:
  assumes "fst (Session_Get key sm) = Ret (VFloat32 x)" "\<not> is_nan32 x"
  shows "\<exists>y. fst (Session_GetFloat64 key sm) = Ret (y, None) \<and>
     (\<forall>key' sm'. fst (Session_Get key' sm') = Ret (VFloat64 y) \<longrightarrow> fst (Session_GetFloat32 key' sm') = Ret (x, None))"
proof -
  have "fst (Session_GetFloat64 key sm) = Ret (f32_to_f64 x, None)"
    using assms(1) by (cases "Session_Get key sm") (simp add: Session_GetFloat64_def bind_out_def)
  moreover have "fst (Session_GetFloat32 key' sm') = Ret (x, None)"
    if "fst (Session_Get key' sm') = Ret (VFloat64 (f32_to_f64 x))" for key' sm'
    using that float_roundtrip [OF assms(2)] by (cases "Session_Get key' sm'") (simp add: Session_GetFloat32_def bind_out_def)
  ultimately show ?thesis by blast
qed

theorem float_getters_roundtrip_witness:
  "let sess = (\<lambda>v. \<lparr>s_sid = ''x'', s_isNew = False,
         s_values = \<lparr>arr = [\<lparr>Key = ''k'', ValueRaw = v, immutable = False\<rparr>], slen = 1\<rparr>,
         s_flashes = [], s_mu = Unlocked, s_lifetime = zero_lifetime\<rparr>)
   in \<exists>y. fst (Session_GetFloat64 ''k'' (sess (VFloat32 0x3DCCCCCD), [])) = Ret (y, None) \<and>
        fst (Session_GetFloat32 ''k'' (sess (VFloat64 y), [])) = Ret (0x3DCCCCCD, None)"
proof -
  let ?sess = "\<lambda>v. \<lparr>s_sid = ''x'', s_isNew = False,
      s_values = \<lparr>arr = [\<lparr>Key = ''k'', ValueRaw = v, immutable = False\<rparr>], slen = 1\<rparr>,
      s_flashes = [], s_mu = Unlocked, s_lifetime = zero_lifetime\<rparr>"
  have "fst (Session_Get ''k'' (?sess v, [])) = Ret v" for v
    by (simp add: Session_Get_def Store_Get_def Store_GetDefault_def Entry_Value_def)
  moreover have "\<not> is_nan32 0x3DCCCCCD" by (simp add: is_nan32_def inf_bits_def)
  ultimately show ?thesis
    using float_getters_roundtrip [of "''k''" "(?sess (VFloat32 0x3DCCCCCD), [])" "0x3DCCCCCD"] by auto
qed

end
