(* ===== verification/Machine.thy ===== *)
theory Machine
  imports ManagerProps FloatGetters
begin

text \<open>
  The program as a state machine: requests, session methods called by handlers, the clock and the
  timers, interleaved in any order. \<open>exec\<close> runs one operation on the manager; \<open>step\<close> is the
  transition relation and \<open>reachable\<close> the states a manager made by \<open>New\<close> can get to. An
  operation that blocks or panics leaves the state it reached, and the others go on from there,
  as the goroutines of a server do.

  Handlers also run code of their own: \<open>OpMem\<close> is any change of the memory behind the values.
\<close>

datatype sess_op =
    OGet string | OGetString string | OGetInt string | OGetInt64 string | OGetBoolean string | OGetAll
  | OGetFloat32 string | OGetFloat64 string
  | OGetFlash string | OPeekFlash string | OGetFlashString string | OGetFlashes
  | OSetFlash string val | ODeleteFlash string | OClearFlashes

definition drop_result :: "'a outcome \<times> 's \<Rightarrow> unit outcome \<times> 's" where
  "drop_result r = bind_out r (\<lambda>_ s. (Ret (), s))"

fun run_sess_op :: "sess_op \<Rightarrow> Session \<times> mem \<Rightarrow> unit outcome \<times> Session \<times> mem" where
  "run_sess_op (OGet k) sm = drop_result (Session_Get k sm)"
| "run_sess_op (OGetString k) sm = drop_result (Session_GetString k sm)"
| "run_sess_op (OGetInt k) sm = drop_result (Session_GetInt k sm)"
| "run_sess_op (OGetInt64 k) sm = drop_result (Session_GetInt64 k sm)"
| "run_sess_op (OGetBoolean k) sm = drop_result (Session_GetBoolean k sm)"
| "run_sess_op (OGetFloat32 k) sm = drop_result (Session_GetFloat32 k sm)"
| "run_sess_op (OGetFloat64 k) sm = drop_result (Session_GetFloat64 k sm)"
| "run_sess_op OGetAll sm = drop_result (Session_GetAll sm)"
| "run_sess_op (OGetFlash k) sm = drop_result (Session_GetFlash k sm)"
| "run_sess_op (OPeekFlash k) sm = drop_result (Session_PeekFlash k sm)"
| "run_sess_op (OGetFlashString k) sm = drop_result (Session_GetFlashString k sm)"
| "run_sess_op OGetFlashes sm = drop_result (Session_GetFlashes sm)"
| "run_sess_op (OSetFlash k v) sm = Session_SetFlash k v sm"
| "run_sess_op (ODeleteFlash k) sm = Session_DeleteFlash k sm"
| "run_sess_op OClearFlashes sm = Session_ClearFlashes sm"

datatype 'd op =
    OpTick duration | OpFire nat | OpMem mem
  | OpStart http_request | OpUpdateExpiration http_request duration | OpShiftExpiration http_request
  | OpDestroy http_request | OpDestroyByID string | OpDestroyAll "string list" | OpUseDatabase 'd
  | OpSession nat sess_op | OpSet nat string val bool | OpDelete nat string | OpClear nat

text \<open>A request: the cookies set on its response are not part of the state.\<close>

definition serve ::
  "(http_cookie list \<times> 'd Sessions \<Rightarrow> 'a outcome \<times> http_cookie list \<times> 'd Sessions) \<Rightarrow> 'd Sessions
     \<Rightarrow> unit outcome \<times> 'd Sessions" where
  "serve f s = (let (r, _, s') = f ([], s) in drop_result (r, s'))"

fun exec :: "'d dbops \<Rightarrow> 'd op \<Rightarrow> 'd Sessions \<Rightarrow> unit outcome \<times> 'd Sessions" where
  "exec ops (OpTick d) s = on_world (\<lambda>w. (Ret (), w\<lparr>w_now := w_now w + d\<rparr>)) s"
| "exec ops (OpFire t) s = on_world (fire_timer ops t) s"
| "exec ops (OpMem m) s = on_world (\<lambda>w. (Ret (), w\<lparr>w_mem := m\<rparr>)) s"
| "exec ops (OpStart r) s = serve (Start ops r) s"
| "exec ops (OpUpdateExpiration r e) s = serve (UpdateExpiration r e) s"
| "exec ops (OpShiftExpiration r) s = serve (ShiftExpiration r) s"
| "exec ops (OpDestroy r) s = serve (Destroy ops r) s"
| "exec ops (OpDestroyByID sid) s = DestroyByID ops sid s"
| "exec ops (OpDestroyAll order) s = DestroyAll ops order s"
| "exec ops (OpUseDatabase db) s = UseDatabase db s"
| "exec ops (OpSession i so) s = on_world (on_session i (run_sess_op so)) s"
| "exec ops (OpSet i k v imm) s = on_world (Session_set ops i k v imm) s"
| "exec ops (OpDelete i k) s = on_world (\<lambda>w. drop_result (Session_Delete ops i k w)) s"
| "exec ops (OpClear i) s = on_world (Session_Clear ops i) s"

text \<open>When an operation can happen: time does not run backwards, a handle refers to a session
  object, \<open>DestroyAll\<close> ranges over the session map, and only sound databases are registered.\<close>

fun enabled :: "('d \<Rightarrow> bool) \<Rightarrow> 'd op \<Rightarrow> 'd Sessions \<Rightarrow> bool" where
  "enabled dbinv (OpTick d) s = (0 \<le> d)"
| "enabled dbinv (OpDestroyAll order) s =
     (distinct order \<and> set order = set (map fst (p_sessions (w_provider (m_world s)))))"
| "enabled dbinv (OpUseDatabase db) s = dbinv db"
| "enabled dbinv (OpSession i so) s = (i < length (w_heap (m_world s)))"
| "enabled dbinv (OpSet i k v imm) s = (i < length (w_heap (m_world s)))"
| "enabled dbinv (OpDelete i k) s = (i < length (w_heap (m_world s)))"
| "enabled dbinv (OpClear i) s = (i < length (w_heap (m_world s)))"
| "enabled dbinv _ s = True"

inductive step :: "'d dbops \<Rightarrow> ('d \<Rightarrow> bool) \<Rightarrow> 'd Sessions \<Rightarrow> unit outcome \<Rightarrow> 'd Sessions \<Rightarrow> bool"
  for ops dbinv where
  exec: "enabled dbinv op s \<Longrightarrow> exec ops op s = (r, s') \<Longrightarrow> step ops dbinv s r s'"

text \<open>\<open>reachable ok s\<close>: \<open>ok\<close> tells whether every operation so far has returned.\<close>

inductive reachable :: "'d dbops \<Rightarrow> ('d \<Rightarrow> bool) \<Rightarrow> bool \<Rightarrow> 'd Sessions \<Rightarrow> bool" for ops dbinv where
  init: "reachable ops dbinv True (New rand now gr unlimited cfg)"
| step: "reachable ops dbinv ok s \<Longrightarrow> step ops dbinv s r s' \<Longrightarrow> reachable ops dbinv (ok \<and> r = Ret ()) s'"

inductive_cases stepE: "step ops dbinv s r s'"

section \<open>The invariant in every reachable state\<close>

lemma keeps_session_drop [inv_intros]: "keeps_session f \<Longrightarrow> keeps_session (\<lambda>sm. drop_result (f sm))"
  unfolding drop_result_def by (rule keeps_session_bind) (assumption, rule keeps_session_id, simp)

lemma keeps_session_float [inv_intros]:
  "keeps_session (Session_GetFloat32 key)" "keeps_session (Session_GetFloat64 key)"
  unfolding Session_GetFloat32_def Session_GetFloat64_def
  by (intro keeps_session_bind inv_intros keeps_session_id; simp)+

lemma keeps_session_run: "keeps_session (run_sess_op so)"
  by (cases so) (simp_all add: run_sess_op.simps [abs_def] inv_intros)

lemma snd_drop_result [simp]: "snd (drop_result r) = snd r"
  by (cases r; cases "fst r") (auto simp: drop_result_def)

lemma fst_drop_result: "fst (drop_result r) = Ret () \<longleftrightarrow> (\<exists>a. fst r = Ret a)"
  by (cases r; cases "fst r") (auto simp: drop_result_def)

text \<open>
  Two invariants are carried through every operation: \<open>I\<close> holds after it whatever it does, \<open>J\<close> when
  it returns. \<open>kept \<pi> I J s r\<close> says so of a call in state \<open>s\<close> with result \<open>r\<close>; \<open>\<pi>\<close> is the world in
  the state.
\<close>

definition kept ::
  "('s \<Rightarrow> 'w) \<Rightarrow> ('w \<Rightarrow> bool) \<Rightarrow> ('w \<Rightarrow> bool) \<Rightarrow> 's \<Rightarrow> 'a outcome \<times> 's \<Rightarrow> bool" where
  "kept \<pi> I J s r =
     (I (\<pi> s) \<longrightarrow> I (\<pi> (snd r)) \<and> (J (\<pi> s) \<and> returns r \<longrightarrow> J (\<pi> (snd r))))"

lemma kept_bind:
  assumes "kept \<pi> I J s r" "\<And>a s1. r = (Ret a, s1) \<Longrightarrow> kept \<pi> I J s1 (G a s1)"
  shows "kept \<pi> I J s (bind_out r G)"
proof -
  obtain out s1 where r: "r = (out, s1)" by (cases r)
  show ?thesis
  proof (cases out)
    case (Ret a)
    then show ?thesis using assms r by (auto simp: kept_def)
  qed (use assms(1) r in \<open>auto simp: kept_def\<close>)
qed

lemma kept_same: "\<pi> (snd r) = \<pi> s \<Longrightarrow> kept \<pi> I J s r"
  by (simp add: kept_def)

lemma kept_on_world: "kept (\<lambda>w. w) I J (m_world s) (f (m_world s)) \<Longrightarrow> kept m_world I J s (on_world f s)"
  by (simp add: kept_def returns_def)

lemma kept_in_request: "kept m_world I J (snd ws) (f (snd ws)) \<Longrightarrow> kept (\<lambda>ws. m_world (snd ws)) I J ws (in_request f ws)"
  by (cases ws) (simp add: kept_def returns_def)

lemma kept_drop: "kept \<pi> I J s r \<Longrightarrow> kept \<pi> I J s (drop_result r)"
  unfolding drop_result_def by (rule kept_bind) (auto intro: kept_same)

lemma kept_serve:
  "kept (\<lambda>ws. m_world (snd ws)) I J ([], s) (f ([], s)) \<Longrightarrow> kept m_world I J s (serve f s)"
  by (cases "f ([], s)"; cases "fst (f ([], s))") (auto simp: kept_def serve_def drop_result_def returns_def)

definition provider_unlocked :: "'d world \<Rightarrow> bool" where
  "provider_unlocked w = (p_mu (w_provider w) = Unlocked)"

lemma loadSessionFromDB_mu [simp]:
  "p_mu (w_provider (snd (loadSessionFromDB ops sid w))) = p_mu (w_provider w)"
  by (auto simp: loadSessionFromDB_def Let_def bind_out_def split: prod.splits outcome.splits)

lemma newSession_mu [simp]: "p_mu (w_provider (snd (newSession ops sid e w))) = p_mu (w_provider w)"
proof -
  obtain r w1 where l: "loadSessionFromDB ops sid w = (r, w1)" by (cases "loadSessionFromDB ops sid w")
  then have "p_mu (w_provider w1) = p_mu (w_provider w)" by (metis loadSessionFromDB_mu snd_conv)
  then show ?thesis
    by (cases r) (auto simp: newSession_def l Let_def split: prod.split)
qed

lemma provider_Init_mu:
  "provider_Init ops sid e w = (Ret ref, w') \<Longrightarrow> provider_unlocked w'"
  by (auto simp: provider_Init_def bind_out_Ret_iff provider_unlocked_def split: option.splits)

lemma provider_Read_mu:
  assumes "provider_Read ops sid e w = (Ret ref, w')"
  shows "provider_unlocked w'"
proof -
  obtain w1 where lock: "provider_Lock w = Some w1"
    using assms by (cases "provider_Lock w") (auto simp: provider_Read_def)
  then have w1: "p_mu (w_provider w1) = WLocked" by auto
  show ?thesis
  proof (cases "map_of (p_sessions (w_provider w1)) sid")
    case None
    then show ?thesis
      using assms lock provider_Init_mu by (simp add: provider_Read_def del: provider_Lock_Some)
  next
    case (Some i)
    then obtain a w2 where "on_session i Session_runFlashGC w1 = (a, w2)" "w' = provider_Unlock w2"
      using assms lock by (auto simp: provider_Read_def bind_out_Ret_iff simp del: provider_Lock_Some)
    then show ?thesis
      using w1 on_session_simps(5) [of i Session_runFlashGC w1] by (simp add: provider_unlocked_def)
  qed
qed

lemma provider_Destroy_mu:
  "provider_Destroy ops sid w = (Ret (), w') \<Longrightarrow> provider_unlocked w'"
  by (auto simp: provider_Destroy_def provider_unlocked_def split: option.splits)

lemma destroy_loop_mu [simp]: "p_mu (w_provider (destroy_loop ops order w)) = p_mu (w_provider w)"
  by (induction order arbitrary: w) (auto split: option.split)

lemma provider_DestroyAll_mu:
  "provider_DestroyAll ops order w = (Ret (), w') \<Longrightarrow> provider_unlocked w'"
  by (auto simp: provider_DestroyAll_def provider_unlocked_def split: option.splits)

lemma provider_UpdateExpiration_mu:
  "provider_UpdateExpiration sid e w = (Ret b, w') \<Longrightarrow> provider_unlocked w \<Longrightarrow> provider_unlocked w'"
  by (auto simp: provider_UpdateExpiration_def provider_unlocked_def Let_def split: option.splits if_splits)

lemma RegisterDatabase_mu: "RegisterDatabase db w = (Ret (), w') \<Longrightarrow> provider_unlocked w'"
  by (auto simp: RegisterDatabase_def provider_unlocked_def split: option.splits)

lemma Session_sync_mu [simp]:
  "p_mu (w_provider (snd (Session_set ops i k v imm w))) = p_mu (w_provider w)"
  "p_mu (w_provider (snd (Session_Delete ops i k w))) = p_mu (w_provider w)"
  "p_mu (w_provider (snd (Session_Clear ops i w))) = p_mu (w_provider w)"
  by (auto simp: Session_set_def Session_Delete_def Session_Clear_def Let_def split: option.split prod.split)

context wf_database
begin

lemma kept_Init: "kept (\<lambda>w. w) (wf_world dbinv) provider_unlocked w (provider_Init ops sid e w)"
  using wf_provider_Init [of w sid e] provider_Init_mu [of ops sid e w]
  by (cases "provider_Init ops sid e w"; cases "fst (provider_Init ops sid e w)") (auto simp: kept_def)

lemma kept_Read: "kept (\<lambda>w. w) (wf_world dbinv) provider_unlocked w (provider_Read ops sid e w)"
  using wf_provider_Read [of w sid e] provider_Read_mu [of ops sid e w]
  by (cases "provider_Read ops sid e w"; cases "fst (provider_Read ops sid e w)") (auto simp: kept_def)

lemma kept_Destroy: "kept (\<lambda>w. w) (wf_world dbinv) provider_unlocked w (provider_Destroy ops sid w)"
  using wf_provider_Destroy [of w sid] provider_Destroy_mu [of ops sid w]
  by (cases "provider_Destroy ops sid w"; cases "fst (provider_Destroy ops sid w)") (auto simp: kept_def)

lemma kept_UpdateExpiration:
  "kept (\<lambda>w. w) (wf_world dbinv) provider_unlocked w (provider_UpdateExpiration sid e w)"
  using wf_UpdateExpiration [of w sid e] provider_UpdateExpiration_mu [of sid e w]
  by (cases "provider_UpdateExpiration sid e w"; cases "fst (provider_UpdateExpiration sid e w)") (auto simp: kept_def)

lemma wf_mark_new:
  assumes "wf_world dbinv w" "ref < length (w_heap w)"
  shows "wf_world dbinv (mark_new ref w)"
proof -
  have "wf_session (w_timers w) (w_heap w ! ref)" using assms by (simp add: wf_world_def list_all_length)
  then have "wf_session (w_timers w) ((w_heap w ! ref)\<lparr>s_isNew := b\<rparr>)" for b by (simp add: wf_session_def)
  then show ?thesis using assms(1) by (simp add: mark_new_def Let_def wf_set_session)
qed

lemma kept_start_with:
  fixes ws :: "'r \<times> 'd Sessions"
  assumes upd: "\<And>sid e (ws :: 'r \<times> 'd Sessions). m_world (snd (upd sid e ws)) = m_world (snd ws)"
  shows "kept (\<lambda>ws. m_world (snd ws)) (wf_world dbinv) provider_unlocked ws (start_with ops raw upd ws)"
  unfolding start_with_def
proof (rule kept_bind)
  show "kept (\<lambda>ws. m_world (snd ws)) (wf_world dbinv) provider_unlocked ws (in_request (decodeCookieValue raw) ws)"
    by (rule kept_in_request, rule kept_same) simp
next
  fix cv and ws1 :: "'r \<times> 'd Sessions"
  let ?k = "kept (\<lambda>ws. m_world (snd ws)) (wf_world dbinv) provider_unlocked"
  let ?e = "Expires (m_config (snd ws1))"
  have "?k ws1 (in_request (on_world (provider_Read ops cv ?e)) ws1)"
    by (intro kept_in_request kept_on_world kept_Read)
  moreover have "?k ws1 (bind_out (in_request SessionIDGenerator_call ws1) (\<lambda>sid ws2.
      bind_out (in_request (on_world (provider_Init ops sid ?e)) ws2)
        (\<lambda>sess (w, s). (Ret sess, upd sid ?e (w, s\<lparr>m_world := mark_new sess (m_world s)\<rparr>)))))"
  proof (rule kept_bind)
    show "?k ws1 (in_request SessionIDGenerator_call ws1)" by (rule kept_in_request, rule kept_same) simp
  next
    fix sid and ws2 :: "'r \<times> 'd Sessions"
    obtain w2 s2 where ws2: "ws2 = (w2, s2)" by (cases ws2)
    show "?k ws2 (bind_out (in_request (on_world (provider_Init ops sid ?e)) ws2)
        (\<lambda>sess (w, s). (Ret sess, upd sid ?e (w, s\<lparr>m_world := mark_new sess (m_world s)\<rparr>))))"
    proof (cases "provider_Init ops sid ?e (m_world s2)")
      case (Pair r w')
      then show ?thesis
        using kept_Init [of "m_world s2" sid ?e] wf_provider_Init [OF _ Pair] wf_mark_new [of w'] ws2 upd
        by (cases r) (auto simp: kept_def provider_unlocked_def)
    qed
  qed
  ultimately show "?k ws1 (let expires = ?e in
      if cv = [] then bind_out (in_request SessionIDGenerator_call ws1) (\<lambda>sid ws2.
        bind_out (in_request (on_world (provider_Init ops sid expires)) ws2)
          (\<lambda>sess (w, s). (Ret sess, upd sid expires (w, s\<lparr>m_world := mark_new sess (m_world s)\<rparr>))))
      else in_request (on_world (provider_Read ops cv expires)) ws1)"
    by (simp add: Let_def)
qed

lemma kept_Start: "kept m_world (wf_world dbinv) provider_unlocked s (serve (Start ops r) s)"
  unfolding Start_def [abs_def] by (rule kept_serve, rule kept_start_with) simp

lemma kept_UpdateExpiration_request:
  "kept m_world (wf_world dbinv) provider_unlocked s (serve (UpdateExpiration r e) s)"
proof (rule kept_serve, unfold UpdateExpiration_def update_expiration_with_def, rule kept_bind)
  let ?ws = "([], s) :: http_cookie list \<times> 'd Sessions"
  show "kept (\<lambda>ws. m_world (snd ws)) (wf_world dbinv) provider_unlocked ?ws
      (in_request (decodeCookieValue (GetCookie r (Cookie (m_config (snd ?ws))))) ?ws)"
    by (rule kept_in_request, rule kept_same) simp
next
  fix cv and ws1 :: "http_cookie list \<times> 'd Sessions"
  have "kept (\<lambda>ws. m_world (snd ws)) (wf_world dbinv) provider_unlocked ws1
      (bind_out (in_request (on_world (provider_UpdateExpiration cv e)) ws1)
        (\<lambda>ok ws2. (Ret (), if ok then updateCookie r cv e ws2 else ws2)))"
    by (rule kept_bind) (intro kept_in_request kept_on_world kept_UpdateExpiration, rule kept_same, simp)
  then show "kept (\<lambda>ws. m_world (snd ws)) (wf_world dbinv) provider_unlocked ws1
      (if cv \<noteq> [] then bind_out (in_request (on_world (provider_UpdateExpiration cv e)) ws1)
         (\<lambda>ok ws2. (Ret (), if ok then updateCookie r cv e ws2 else ws2)) else (Ret (), ws1))"
    by (simp add: kept_same)
qed

lemma serve_ShiftExpiration:
  "serve (ShiftExpiration r) s = serve (UpdateExpiration r (Expires (m_config s))) s"
  by (simp add: serve_def ShiftExpiration_def)

lemma kept_Destroy_request: "kept m_world (wf_world dbinv) provider_unlocked s (serve (Destroy ops r) s)"
proof (rule kept_serve, unfold Destroy_def Let_def, rule kept_bind)
  let ?cv = "GetCookie r (Cookie (m_config s))"
  have "kept m_world (wf_world dbinv) provider_unlocked s (destroy ops ?cv s)"
    unfolding destroy_def
    by (rule kept_bind, rule kept_same, simp) (auto intro: kept_on_world kept_Destroy kept_same)
  then show "kept (\<lambda>ws. m_world (snd ws)) (wf_world dbinv) provider_unlocked ([] :: http_cookie list, s)
      (in_request (destroy ops (GetCookie r (Cookie (m_config (snd ([] :: http_cookie list, s)))))) ([], s))"
    using kept_in_request [of "wf_world dbinv" provider_unlocked "([] :: http_cookie list, s)"] by simp
qed (auto intro: kept_same)

lemma kept_session_op:
  assumes "i < length (w_heap w)"
  shows "kept (\<lambda>w. w) (wf_world dbinv) provider_unlocked w (on_session i (run_sess_op so) w)"
    "kept (\<lambda>w. w) (wf_world dbinv) provider_unlocked w (Session_set ops i k v imm w)"
    "kept (\<lambda>w. w) (wf_world dbinv) provider_unlocked w (Session_Delete ops i k w)"
    "kept (\<lambda>w. w) (wf_world dbinv) provider_unlocked w (Session_Clear ops i w)"
  using assms wf_on_session [OF _ assms keeps_session_run] wf_Session_set wf_Session_Delete wf_Session_Clear
  by (auto simp: kept_def provider_unlocked_def)

lemma kept_background:
  "kept (\<lambda>w. w) (wf_world dbinv) provider_unlocked w (fire_timer ops t w)"
  "dbinv db \<Longrightarrow> kept (\<lambda>w. w) (wf_world dbinv) provider_unlocked w (RegisterDatabase db w)"
  "kept (\<lambda>w. w) (wf_world dbinv) provider_unlocked w (provider_DestroyAll ops order w)"
proof -
  show "kept (\<lambda>w. w) (wf_world dbinv) provider_unlocked w (fire_timer ops t w)"
    using kept_Destroy [of "w\<lparr>w_timers := timer_Stop t (w_timers w)\<rparr>" "t_sid (w_timers w ! t)"]
    by (auto simp: fire_timer_def kept_def wf_world_timers provider_unlocked_def)
  show "kept (\<lambda>w. w) (wf_world dbinv) provider_unlocked w (RegisterDatabase db w)" if "dbinv db"
    using wf_RegisterDatabase [OF _ that, of w] RegisterDatabase_mu [of db w]
    by (cases "RegisterDatabase db w"; cases "fst (RegisterDatabase db w)") (auto simp: kept_def)
  show "kept (\<lambda>w. w) (wf_world dbinv) provider_unlocked w (provider_DestroyAll ops order w)"
    using wf_provider_DestroyAll [of w order] provider_DestroyAll_mu [of ops order w]
    by (cases "provider_DestroyAll ops order w"; cases "fst (provider_DestroyAll ops order w)") (auto simp: kept_def)
qed

lemma kept_exec:
  assumes "enabled dbinv op s"
  shows "kept m_world (wf_world dbinv) provider_unlocked s (exec ops op s)"
proof (cases op)
  case (OpTick d)
  then show ?thesis by (simp add: kept_def on_world_def wf_world_now provider_unlocked_def)
next
  case (OpMem m)
  then show ?thesis by (simp add: kept_def on_world_def wf_world_def provider_unlocked_def)
qed (use assms in \<open>auto simp: DestroyByID_def DestroyAll_def UseDatabase_def serve_ShiftExpiration
  intro!: kept_on_world kept_drop kept_background kept_session_op kept_Start kept_UpdateExpiration_request
    kept_Destroy_request kept_Destroy\<close>)

lemma wf_New: "wf_world dbinv (m_world (New rand now gr unlimited cfg)) \<and>
    provider_unlocked (m_world (New rand now gr unlimited cfg))"
  by (simp add: New_def wf_world_def newProvider_def wf_sessions_def provider_unlocked_def)

lemma reachable_invariant:
  "reachable ops dbinv ok s \<Longrightarrow> wf_world dbinv (m_world s) \<and> (ok \<longrightarrow> provider_unlocked (m_world s))"
proof (induction rule: reachable.induct)
  case (init rand now gr unlimited cfg)
  show ?case using wf_New by blast
next
  case (step ok s r s')
  from step.hyps(2) obtain op where "enabled dbinv op s" "exec ops op s = (r, s')" by (elim stepE)
  with kept_exec [of op s] step.IH show ?case by (auto simp: kept_def)
qed

end

end
