(* ===== verification/FileDB.thy ===== *)
theory FileDB
  imports DatabaseSpec Machine
begin

text \<open>
  Model of \<^verbatim>\<open>sessiondb/file/database.go\<close>: one file per session in a directory.

  \<open>fs\<close> is the file system as the database sees it: the files and directories by path, and the
  paths on which the operating system refuses any operation (permissions, a full disk). Paths
  are made with \<open>filepath.Join\<close>, which cleans them, so a session id that contains separators or
  dots can name a file elsewhere. In asynchronous mode \<open>Sync\<close> starts a goroutine:
  \<open>fd_pending\<close> holds the payloads of the goroutines that have not run yet and
  \<open>file_run_pending\<close> runs one of them; the scheduler may choose any. The entries of a pending payload
  are those of its \<open>Sync\<close> call: that the program's payload shares its array of entries with the
  session, which may write into it before the goroutine runs, is left out, as is log output.
\<close>

section \<open>Paths\<close>

definition join_path :: "string list \<Rightarrow> string" where
  "join_path cs = (case cs of [] \<Rightarrow> [] | c # cs' \<Rightarrow> c @ concat (map (\<lambda>x. CHR ''/'' # x) cs'))"

text \<open>The elements kept by \<open>filepath.Clean\<close>, last one first.\<close>

fun clean_elems :: "bool \<Rightarrow> string list \<Rightarrow> string list \<Rightarrow> string list" where
  "clean_elems rooted [] out = out"
| "clean_elems rooted (c # cs) out =
     clean_elems rooted cs
       (if c = [] \<or> c = ''.'' then out
        else if c = ''..'' then
          (case out of
             [] \<Rightarrow> if rooted then [] else [''..'']
           | x # xs \<Rightarrow> if x = ''..'' then ''..'' # out else xs)
        else c # out)"

definition filepath_Clean :: "string \<Rightarrow> string" where
  "filepath_Clean path =
     (let rooted = (path \<noteq> [] \<and> hd path = CHR ''/'');
          s = join_path (rev (clean_elems rooted (SplitByte (CHR ''/'') path) []))
      in if rooted then CHR ''/'' # s else if s = [] then ''.'' else s)"

definition filepath_Join :: "string \<Rightarrow> string \<Rightarrow> string" where
  "filepath_Join a b =
     (if a \<noteq> [] then filepath_Clean (a @ CHR ''/'' # b)
      else if b \<noteq> [] then filepath_Clean b else [])"

definition parent_path :: "string \<Rightarrow> string" where
  "parent_path p =
     (let i = LastIndexByte p (CHR ''/'') in if 0 < i then take (nat i) p else if i = 0 then ''/'' else ''.'')"

section \<open>The file system\<close>

datatype node = File blob | Dir

record fs =
  fs_nodes :: "(string \<times> node) list"
  fs_denied :: "string \<Rightarrow> bool"

datatype read_result = OpenError | ReadError | Contents blob

text \<open>\<open>os.OpenFile(path, O_RDONLY)\<close> followed by \<open>ioutil.ReadAll\<close>\<close>

definition os_Read :: "fs \<Rightarrow> string \<Rightarrow> read_result" where
  "os_Read f path =
     (if fs_denied f path then OpenError
      else case map_of (fs_nodes f) path of
             None \<Rightarrow> OpenError | Some Dir \<Rightarrow> ReadError | Some (File b) \<Rightarrow> Contents b)"

definition ioutil_WriteFile :: "string \<Rightarrow> blob \<Rightarrow> fs \<Rightarrow> bool \<times> fs" where
  "ioutil_WriteFile path b f =
     (if fs_denied f path \<or> map_of (fs_nodes f) path = Some Dir \<or>
         (map_of (fs_nodes f) path = None \<and> map_of (fs_nodes f) (parent_path path) \<noteq> Some Dir)
      then (False, f)
      else (True, f\<lparr>fs_nodes := AList.update path (File b) (fs_nodes f)\<rparr>))"

definition os_Remove :: "string \<Rightarrow> fs \<Rightarrow> bool \<times> fs" where
  "os_Remove path f =
     (if fs_denied f path then (False, f)
      else case map_of (fs_nodes f) path of
             None \<Rightarrow> (False, f)
           | Some Dir \<Rightarrow>
               if list_ex (\<lambda>(p, _). parent_path p = path) (fs_nodes f) then (False, f)
               else (True, f\<lparr>fs_nodes := AList.delete path (fs_nodes f)\<rparr>)
           | Some (File b) \<Rightarrow> (True, f\<lparr>fs_nodes := AList.delete path (fs_nodes f)\<rparr>))"

text \<open>\<open>os.MkdirAll\<close>: every prefix of the path becomes a directory, unless it is a file.\<close>

definition path_prefixes :: "string \<Rightarrow> string list" where
  "path_prefixes path =
     (let cs = rev (clean_elems (path \<noteq> [] \<and> hd path = CHR ''/'') (SplitByte (CHR ''/'') path) []);
          pre = (if path \<noteq> [] \<and> hd path = CHR ''/'' then ''/'' else [])
      in map (\<lambda>n. pre @ join_path (take (Suc n) cs)) [0..<length cs])"

definition os_MkdirAll :: "string \<Rightarrow> fs \<Rightarrow> bool \<times> fs" where
  "os_MkdirAll path f =
     (if list_ex (\<lambda>p. fs_denied f p \<or> (case map_of (fs_nodes f) p of Some (File b) \<Rightarrow> True | _ \<Rightarrow> False))
           (path_prefixes path)
      then (False, f)
      else (True, f\<lparr>fs_nodes := fold (\<lambda>p ns. AList.update p Dir ns) (path_prefixes path) (fs_nodes f)\<rparr>))"

section \<open>The database\<close>

record file_db =
  fd_dir :: string
  fd_mode :: int
  fd_async :: bool
  fd_fs :: fs
  fd_pending :: "SyncPayload list"

definition sessPath :: "file_db \<Rightarrow> string \<Rightarrow> string" where
  "sessPath db sid = filepath_Join (fd_dir db) sid"

definition file_load :: "string \<Rightarrow> mem \<Rightarrow> file_db \<Rightarrow> RemoteStore \<times> bool \<times> mem" where
  "file_load fileName m db =
     (case os_Read (fd_fs db) fileName of
        OpenError \<Rightarrow> (zero_remote, False, m)
      | ReadError \<Rightarrow> (zero_remote, True, m)
      | Contents b \<Rightarrow> DecodeRemoteStore b m)"

definition file_Load :: "time \<Rightarrow> string \<Rightarrow> mem \<Rightarrow> file_db \<Rightarrow> RemoteStore \<times> mem \<times> file_db" where
  "file_Load now sid m db = (let (store, err, m') = file_load (sessPath db sid) m db in (store, m', db))"

definition file_override ::
  "(gtype \<Rightarrow> bool) \<Rightarrow> mem \<Rightarrow> string \<Rightarrow> RemoteStore \<Rightarrow> file_db \<Rightarrow> bool \<times> file_db" where
  "file_override reg m sid store db =
     (let (s, err) = RemoteStore_Serialize reg m store in
      if err then (False, db)
      else let (ok, f) = ioutil_WriteFile (sessPath db sid) s (fd_fs db) in (ok, db\<lparr>fd_fs := f\<rparr>))"

definition file_expireSess :: "string \<Rightarrow> file_db \<Rightarrow> bool \<times> file_db" where
  "file_expireSess sid db = (let (ok, f) = os_Remove (sessPath db sid) (fd_fs db) in (ok, db\<lparr>fd_fs := f\<rparr>))"

definition file_destroy :: "string \<Rightarrow> file_db \<Rightarrow> bool \<times> file_db" where
  "file_destroy sid db = file_expireSess sid db"

definition file_sync :: "(gtype \<Rightarrow> bool) \<Rightarrow> mem \<Rightarrow> SyncPayload \<Rightarrow> file_db \<Rightarrow> file_db" where
  "file_sync reg m p db =
     (if PAction p = ActionDestroy then snd (file_destroy (SessionID p) db)
      else snd (file_override reg m (SessionID p) (PStore p) db))"

definition file_Sync :: "(gtype \<Rightarrow> bool) \<Rightarrow> time \<Rightarrow> mem \<Rightarrow> SyncPayload \<Rightarrow> file_db \<Rightarrow> file_db" where
  "file_Sync reg now m p db =
     (if fd_async db then db\<lparr>fd_pending := fd_pending db @ [p]\<rparr> else file_sync reg m p db)"

text \<open>The goroutine at position \<open>i\<close> of the pending ones runs.\<close>

definition file_run_pending :: "(gtype \<Rightarrow> bool) \<Rightarrow> mem \<Rightarrow> nat \<Rightarrow> file_db \<Rightarrow> file_db" where
  "file_run_pending reg m i db =
     (if i < length (fd_pending db)
      then file_sync reg m (fd_pending db ! i)
             (db\<lparr>fd_pending := without_nth i (fd_pending db)\<rparr>)
      else db)"

definition file_FileMode :: "int \<Rightarrow> file_db \<Rightarrow> file_db" where
  "file_FileMode mode db = db\<lparr>fd_mode := mode\<rparr>"

definition file_Async :: "bool \<Rightarrow> file_db \<Rightarrow> file_db" where
  "file_Async useGoRoutines db = db\<lparr>fd_async := useGoRoutines\<rparr>"

text \<open>
  \<open>Cleanup\<close> walks the files below the directory and removes those whose stored lifetime has
  expired.
\<close>

definition below_dir :: "string \<Rightarrow> string \<Rightarrow> bool" where
  "below_dir dir p = (let d = filepath_Clean dir @ ''/'' in take (length d) p = d)"

fun cleanup_loop :: "time \<Rightarrow> string list \<Rightarrow> mem \<Rightarrow> file_db \<Rightarrow> mem \<times> file_db" where
  "cleanup_loop now [] m db = (m, db)"
| "cleanup_loop now (path # paths) m db =
     (if map_of (fs_nodes (fd_fs db)) path = Some Dir then cleanup_loop now paths m db
      else
        let (storeDB, err, m1) = file_load path m db;
            db1 = (if LifeTime_HasExpired now (Lifetime storeDB)
                   then db\<lparr>fd_fs := snd (os_Remove path (fd_fs db))\<rparr> else db)
        in cleanup_loop now paths m1 db1)"

definition file_Cleanup :: "time \<Rightarrow> mem \<Rightarrow> file_db \<Rightarrow> mem \<times> file_db" where
  "file_Cleanup now m db =
     cleanup_loop now (filter (below_dir (fd_dir db)) (map fst (fs_nodes (fd_fs db)))) m db"

definition DefaultFileMode :: int where
  "DefaultFileMode = 438"

definition file_New :: "string \<Rightarrow> int \<Rightarrow> time \<Rightarrow> mem \<Rightarrow> fs \<Rightarrow> file_db option outcome \<times> mem \<times> fs" where
  "file_New directoryPath fileMode now m f =
     (if directoryPath = [] then (Panic ''index out of range'', m, f)
      else
        let dir = (if last directoryPath \<noteq> CHR ''/'' then directoryPath @ ''/'' else directoryPath);
            mode = (if fileMode \<le> 0 then DefaultFileMode else fileMode);
            (ok, f1) = os_MkdirAll dir f
        in if \<not> ok then (Ret None, m, f1)
           else let (m1, db) = file_Cleanup now m
                      \<lparr>fd_dir = dir, fd_mode = mode, fd_async = False, fd_fs = f1, fd_pending = []\<rparr>
                in (Ret (Some db), m1, fd_fs db))"

definition file_ops :: "(gtype \<Rightarrow> bool) \<Rightarrow> file_db dbops" where
  "file_ops reg = \<lparr>db_Load = file_Load, db_Sync = file_Sync reg\<rparr>"

section \<open>Paths of session files\<close>

text \<open>Session ids that are one path element: every UUID is, but \<open>../x\<close> is not.\<close>

definition safe_sid :: "string \<Rightarrow> bool" where
  "safe_sid sid = (sid \<noteq> [] \<and> CHR ''/'' \<notin> set sid \<and> sid \<noteq> ''.'' \<and> sid \<noteq> ''..'')"

definition dir_elems :: "string \<Rightarrow> string list" where
  "dir_elems dir = rev (clean_elems (hd dir = CHR ''/'') (SplitByte (CHR ''/'') dir) [])"

definition dir_prefix :: "string \<Rightarrow> string" where
  "dir_prefix dir =
     (if hd dir = CHR ''/'' then ''/'' else []) @ (if dir_elems dir = [] then [] else join_path (dir_elems dir) @ ''/'')"

lemma SplitByte_ne [simp]: "SplitByte c s \<noteq> []"
  by (induction s) (auto split: list.split)

lemma SplitByte_append: "c \<notin> set v \<Longrightarrow> SplitByte c (u @ c # v) = SplitByte c u @ [v]"
  by (induction u) (auto simp: SplitByte_none neq_Nil_conv split: list.split)

lemma clean_elems_append: "clean_elems r (xs @ ys) out = clean_elems r ys (clean_elems r xs out)"
  by (induction xs arbitrary: out) auto

lemma join_path_snoc: "join_path (cs @ [c]) = (if cs = [] then c else join_path cs @ CHR ''/'' # c)"
  by (cases cs) (auto simp: join_path_def)

lemma join_path_one: "join_path [c] = c"
  by (simp add: join_path_def)

lemma filepath_Join_safe:
  assumes "dir \<noteq> []" "safe_sid sid"
  shows "filepath_Join dir sid = dir_prefix dir @ sid"
proof -
  let ?r = "hd dir = CHR ''/''"
  have "rev (clean_elems ?r (SplitByte (CHR ''/'') (dir @ CHR ''/'' # sid)) []) = dir_elems dir @ [sid]"
    using assms(2) by (simp add: SplitByte_append clean_elems_append dir_elems_def safe_sid_def)
  then show ?thesis
    using assms by (auto simp: filepath_Join_def filepath_Clean_def Let_def join_path_snoc join_path_one dir_prefix_def safe_sid_def)
qed

lemma sessPath_inj:
  "fd_dir db \<noteq> [] \<Longrightarrow> safe_sid a \<Longrightarrow> safe_sid b \<Longrightarrow> sessPath db a = sessPath db b \<longleftrightarrow> a = b"
  by (simp add: sessPath_def filepath_Join_safe)

section \<open>The invariant\<close>

definition node_ok :: "node \<Rightarrow> bool" where
  "node_ok n = (case n of File b \<Rightarrow> blob_ok b | Dir \<Rightarrow> True)"

definition file_inv :: "file_db \<Rightarrow> bool" where
  "file_inv db =
     ((\<forall>(p, n)\<in>set (fs_nodes (fd_fs db)). node_ok n) \<and> list_all (\<lambda>p. wf_store (Values (PStore p))) (fd_pending db))"

lemma file_load_wf:
  assumes "file_inv db" "file_load path m db = (r, err, m')"
  shows "wf_store (Values r) \<and> lt_timer (Lifetime r) = None"
proof (cases "os_Read (fd_fs db) path")
  case (Contents b)
  then have "map_of (fs_nodes (fd_fs db)) path = Some (File b)"
    by (auto simp: os_Read_def split: if_splits option.splits node.splits)
  then have "blob_ok b" using assms(1) by (force simp: file_inv_def node_ok_def dest!: map_of_SomeD)
  then show ?thesis using DecodeRemoteStore_wf assms(2) Contents by (auto simp: file_load_def)
qed (use assms(2) zero_remote_wf in \<open>auto simp: file_load_def\<close>)

lemma file_inv_Remove: "file_inv db \<Longrightarrow> file_inv (db\<lparr>fd_fs := snd (os_Remove path (fd_fs db))\<rparr>)"
  by (auto simp: file_inv_def os_Remove_def AList.delete_eq split: option.split node.split)

lemma file_inv_WriteFile:
  "file_inv db \<Longrightarrow> blob_ok b \<Longrightarrow> file_inv (db\<lparr>fd_fs := snd (ioutil_WriteFile path b (fd_fs db))\<rparr>)"
  using set_alist_update [of path "File b" "fs_nodes (fd_fs db)"]
  by (fastforce simp: file_inv_def ioutil_WriteFile_def node_ok_def)

lemma file_inv_sync:
  assumes "file_inv db" "wf_store (Values (PStore p))"
  shows "file_inv (file_sync reg m p db)"
proof -
  have "file_inv (snd (file_destroy (SessionID p) db))"
    using file_inv_Remove [OF assms(1)] by (simp add: file_destroy_def file_expireSess_def case_prod_beta)
  moreover have "file_inv (snd (file_override reg m (SessionID p) (PStore p) db))"
    using file_inv_WriteFile [OF assms(1) blob_ok_Serialize [OF assms(2)]] assms(1)
    by (simp add: file_override_def case_prod_beta Let_def)
  ultimately show ?thesis by (simp add: file_sync_def)
qed

lemma file_inv_run_pending:
  assumes "file_inv db"
  shows "file_inv (file_run_pending reg m i db)"
proof -
  have "file_inv (db\<lparr>fd_pending := without_nth i (fd_pending db)\<rparr>)"
    using assms by (simp add: file_inv_def list_all_without_nth)
  moreover have "i < length (fd_pending db) \<Longrightarrow> wf_store (Values (PStore (fd_pending db ! i)))"
    using assms by (simp add: file_inv_def list_all_length)
  ultimately show ?thesis using assms by (simp add: file_run_pending_def file_inv_sync)
qed

interpretation file_wf: wf_database "file_ops reg" file_inv for reg
proof
  fix d now sid m r m' d'
  assume "file_inv d" "db_Load (file_ops reg) now sid m d = (r, m', d')"
  then show "wf_store (Values r) \<and> lt_timer (Lifetime r) = None \<and> file_inv d'"
    using file_load_wf [of d "sessPath d sid" m] by (auto simp: file_ops_def file_Load_def case_prod_beta Let_def prod_eq_iff)
next
  fix d now m and p :: SyncPayload
  assume "file_inv d" "wf_store (Values (PStore p))"
  then show "file_inv (db_Sync (file_ops reg) now m p d)"
    using file_inv_sync [of d p reg m] by (simp add: file_ops_def file_Sync_def file_inv_def)
qed

section \<open>The file database as a map\<close>

text \<open>
  The database works: it is synchronous, its directory exists, no session path is a directory,
  and the operating system refuses nothing.
\<close>

definition file_ready :: "file_db \<Rightarrow> bool" where
  "file_ready db =
     (\<not> fd_async db \<and> fd_dir db \<noteq> [] \<and>
      (\<forall>sid. safe_sid sid \<longrightarrow>
         \<not> fs_denied (fd_fs db) (sessPath db sid) \<and> map_of (fs_nodes (fd_fs db)) (sessPath db sid) \<noteq> Some Dir \<and>
         map_of (fs_nodes (fd_fs db)) (parent_path (sessPath db sid)) = Some Dir))"

definition file_stored :: "file_db \<Rightarrow> string \<Rightarrow> blob option" where
  "file_stored db sid =
     (case map_of (fs_nodes (fd_fs db)) (sessPath db sid) of Some (File b) \<Rightarrow> Some b | _ \<Rightarrow> None)"

lemma file_Load_stored:
  assumes "file_ready db" "safe_sid sid"
  shows "file_Load now sid m db = (fst (loads_blob (file_stored db sid) m), snd (loads_blob (file_stored db sid) m), db)"
  using assms
  by (auto simp: file_Load_def file_load_def file_stored_def loads_blob_def os_Read_def file_ready_def
      case_prod_beta Let_def split: option.split node.split)

lemma file_sync_stored:
  assumes "file_ready db" "safe_sid (SessionID p)"
  shows "file_sync reg m p db =
    (let n = fs_nodes (fd_fs db); path = sessPath db (SessionID p) in
     db\<lparr>fd_fs := (fd_fs db)\<lparr>fs_nodes :=
       (if PAction p = ActionDestroy then AList.delete path n
        else if snd (RemoteStore_Serialize reg m (PStore p)) then n
        else AList.update path (File (fst (RemoteStore_Serialize reg m (PStore p)))) n)\<rparr>\<rparr>)"
proof -
  let ?path = "sessPath db (SessionID p)"
  have r: "\<not> fs_denied (fd_fs db) ?path" "map_of (fs_nodes (fd_fs db)) ?path \<noteq> Some Dir"
    "map_of (fs_nodes (fd_fs db)) (parent_path ?path) = Some Dir"
    using assms by (simp_all add: file_ready_def)
  have "map_of n k = None \<Longrightarrow> AList.delete k n = n" for k and n :: "(string \<times> node) list"
    by (simp add: delete_idem map_of_eq_None_iff)
  with r show ?thesis
    by (auto simp: file_sync_def file_destroy_def file_expireSess_def file_override_def os_Remove_def
        ioutil_WriteFile_def case_prod_beta Let_def split: option.split node.split)
qed

lemma file_ready_nodes:
  assumes "file_ready db" "\<And>k. map_of ns k = Some Dir \<longleftrightarrow> map_of (fs_nodes (fd_fs db)) k = Some Dir"
  shows "file_ready (db\<lparr>fd_fs := (fd_fs db)\<lparr>fs_nodes := ns\<rparr>\<rparr>)"
  using assms by (simp add: file_ready_def sessPath_def)

lemma file_ready_sync:
  assumes "file_ready db" "safe_sid (SessionID p)"
  shows "file_ready (file_sync reg m p db)"
  unfolding file_sync_stored [OF assms] Let_def
  using assms by (intro file_ready_nodes) (auto simp: map_of_update map_of_delete file_ready_def)

interpretation file_map: session_database "file_ops reg" reg file_ready safe_sid file_stored for reg
proof
  fix d sid now m r m' d'
  assume "file_ready d" "safe_sid sid" "db_Load (file_ops reg) now sid m d = (r, m', d')"
  then show "file_ready d' \<and> (\<forall>x. safe_sid x \<longrightarrow> file_stored d' x = file_stored d x) \<and>
      (r, m') = loads_blob (file_stored d sid) m"
    by (auto simp: file_ops_def file_Load_stored)
next
  fix d now m x and p :: SyncPayload
  assume d: "file_ready d" "safe_sid (SessionID p)" and s: "serialisable reg (now, m, p)" and x: "safe_sid x"
  have dir: "fd_dir d \<noteq> []" "\<not> fd_async d" using d(1) by (simp_all add: file_ready_def)
  then show "file_stored (db_Sync (file_ops reg) now m p d) x =
      ((file_stored d)(SessionID p := synced_blob reg m p)) x"
    using s sessPath_inj [OF dir(1) x d(2)]
    by (auto simp: file_ops_def file_Sync_def file_sync_stored [OF d] Let_def file_stored_def sessPath_def
        map_of_update map_of_delete synced_blob_def serialisable_def)
next
  fix d now m and p :: SyncPayload
  assume "file_ready d" "safe_sid (SessionID p)"
  then show "file_ready (db_Sync (file_ops reg) now m p d)"
    by (simp add: file_ops_def file_Sync_def file_ready_sync file_ready_def [of d])
qed

text \<open>The same in asynchronous mode.\<close>

definition file_working :: "file_db \<Rightarrow> bool" where
  "file_working db = (fd_async db \<and> file_ready (db\<lparr>fd_async := False\<rparr>))"

lemma file_sync_frame:
  "file_sync reg m p (db\<lparr>fd_async := a, fd_pending := ps\<rparr>) = (file_sync reg m p db)\<lparr>fd_async := a, fd_pending := ps\<rparr>"
  "fd_async (file_sync reg m p db) = fd_async db" "fd_pending (file_sync reg m p db) = fd_pending db"
  by (simp_all add: file_sync_def file_destroy_def file_expireSess_def file_override_def sessPath_def
      case_prod_beta Let_def)

lemma file_ready_pending [simp]: "file_ready (db\<lparr>fd_pending := ps\<rparr>) = file_ready db"
  by (simp add: file_ready_def sessPath_def)

lemma file_stored_frame [simp]: "file_stored (db\<lparr>fd_async := a, fd_pending := ps\<rparr>) = file_stored db"
  by (simp add: file_stored_def sessPath_def fun_eq_iff)

lemma file_run_pending_sync:
  assumes "file_working d" "i < length (fd_pending d)"
  shows "file_run_pending reg m i d = (file_Sync reg now m (fd_pending d ! i) (d\<lparr>fd_async := False\<rparr>))
      \<lparr>fd_async := True, fd_pending := without_nth i (fd_pending d)\<rparr>"
proof -
  let ?d = "d\<lparr>fd_async := False\<rparr>" and ?p = "fd_pending d ! i" and ?ps = "without_nth i (fd_pending d)"
  have "d\<lparr>fd_pending := ?ps\<rparr> = ?d\<lparr>fd_async := True, fd_pending := ?ps\<rparr>" using assms(1) by (simp add: file_working_def)
  then have "file_sync reg m ?p (d\<lparr>fd_pending := ?ps\<rparr>) = (file_sync reg m ?p ?d)\<lparr>fd_async := True, fd_pending := ?ps\<rparr>"
    by (simp only: file_sync_frame)
  then show ?thesis using assms(2) by (simp add: file_run_pending_def file_Sync_def)
qed

interpretation file_async: async_database "file_ops reg" reg file_working safe_sid file_stored fd_pending
  "file_run_pending reg" for reg
proof
  fix d now m d' and p :: SyncPayload
  assume d: "file_working d" and d': "db_Sync (file_ops reg) now m p d = d'"
  then have "d' = d\<lparr>fd_pending := fd_pending d @ [p]\<rparr>" by (simp add: file_ops_def file_Sync_def file_working_def)
  then show "file_working d' \<and> fd_pending d' = fd_pending d @ [p] \<and> (\<forall>x. file_stored d' x = file_stored d x)"
    using d by (simp add: file_working_def file_ready_def sessPath_def file_stored_def)
next
  fix d i m
  assume d: "file_working d" "i < length (fd_pending d)" "safe_sid (SessionID (fd_pending d ! i))"
  then show "file_working (file_run_pending reg m i d) \<and>
      fd_pending (file_run_pending reg m i d) = without_nth i (fd_pending d)"
    using file_map.sync_ready [of "d\<lparr>fd_async := False\<rparr>" "fd_pending d ! i" reg 0 m]
    by (simp add: file_run_pending_sync [where now = 0] file_working_def file_ops_def file_Sync_def file_ready_def
        sessPath_def)
next
  fix d i m x
  assume "file_working d" "i < length (fd_pending d)" "safe_sid (SessionID (fd_pending d ! i))"
    "serialisable reg (0, m, fd_pending d ! i)" "safe_sid x"
  then show "file_stored (file_run_pending reg m i d) x =
      ((file_stored d)(SessionID (fd_pending d ! i) := synced_blob reg m (fd_pending d ! i))) x"
    using file_map.sync [of "d\<lparr>fd_async := False\<rparr>" "fd_pending d ! i" reg 0 m x]
      file_stored_frame [where db = d and a = False and ps = "fd_pending d"]
    by (simp add: file_run_pending_sync [where now = 0] file_working_def file_ops_def)
qed

text \<open>A store for the instances of the theorems.\<close>

definition sample_store :: RemoteStore where
  "sample_store = \<lparr>Values = \<lparr>arr = [\<lparr>Key = ''k'', ValueRaw = VInt 1, immutable = False\<rparr>], slen = 1\<rparr>,
     Lifetime = \<lparr>lt_Time = 9, lt_timer = None\<rparr>\<rparr>"

lemma sample_Serialize:
  "RemoteStore_Serialize (\<lambda>_. False) [] sample_store = (GobBytes [(''k'', GInt 1)] 9, False)"
  by (simp add: RemoteStore_Serialize_def gob_entries_def sample_store_def store_elems_def gob_depth_def)

definition sample_payload :: "string \<Rightarrow> SyncPayload" where
  "sample_payload sid = zero_payload\<lparr>SessionID := sid, PAction := ActionInsert, PStore := sample_store\<rparr>"

text \<open>A working file database with the sessions in \<open>/s/\<close>.\<close>

definition file_sample_db :: file_db where
  "file_sample_db = \<lparr>fd_dir = ''/s/'', fd_mode = 438, fd_async = False,
     fd_fs = \<lparr>fs_nodes = [(''/s'', Dir)], fs_denied = (\<lambda>_. False)\<rparr>, fd_pending = []\<rparr>"

lemma file_db_ready: "file_ready file_sample_db"
proof -
  have "sessPath file_sample_db sid = ''/s/'' @ sid" if "safe_sid sid" for sid
    using filepath_Join_safe [of "''/s/''" sid] that
    by (simp add: sessPath_def file_sample_db_def dir_prefix_def dir_elems_def join_path_def)
  moreover have "parent_path (''/s/'' @ sid) = ''/s''" if "safe_sid sid" for sid
    using LastIndexByte_append [of "CHR ''/''" sid "''/s''"] that by (simp add: parent_path_def safe_sid_def)
  ultimately show ?thesis by (auto simp: file_ready_def file_sample_db_def safe_sid_def)
qed

section \<open>Session ids that leave the directory\<close>

lemma filepath_Join_up:
  assumes "safe_sid e" "safe_sid x" "u \<noteq> []" "last u = CHR ''/''"
  shows "filepath_Join (u @ e @ ''/'') (''../'' @ x) = dir_prefix u @ x"
proof -
  obtain u0 where u: "u = u0 @ ''/''" using assms(3,4) by (metis append_butlast_last_id)
  let ?sl = "CHR ''/''" and ?r = "hd u = CHR ''/''"
  have path: "(u @ e @ ''/'') @ ?sl # ''../'' @ x = ((((u0 @ ?sl # e) @ ?sl # []) @ ?sl # ''..'') @ ?sl # x)"
    by (simp add: u)
  have "SplitByte ?sl ((u @ e @ ''/'') @ ?sl # ''../'' @ x) = SplitByte ?sl u0 @ [e, [], ''..'', x]"
  proof -
    have "?sl \<notin> set e" "?sl \<notin> set x" "?sl \<notin> set []" "?sl \<notin> set ''..''" using assms(1,2) by (simp_all add: safe_sid_def)
    note sp = this [THEN SplitByte_append]
    show ?thesis unfolding path sp by simp
  qed
  moreover have "SplitByte ?sl u = SplitByte ?sl u0 @ [[]]" unfolding u by (rule SplitByte_append) simp
  ultimately have "rev (clean_elems ?r (SplitByte ?sl ((u @ e @ ''/'') @ ?sl # ''../'' @ x)) []) = dir_elems u @ [x]"
    using assms(1,2) by (simp add: clean_elems_append dir_elems_def safe_sid_def)
  moreover have "(u @ e @ ''/'') @ ?sl # ''../'' @ x \<noteq> []" "hd ((u @ e @ ''/'') @ ?sl # ''../'' @ x) = hd u"
    using assms(3) by simp_all
  ultimately show ?thesis
    using assms(2,3)
    by (auto simp: filepath_Join_def filepath_Clean_def Let_def join_path_snoc join_path_one dir_prefix_def safe_sid_def)
qed

section \<open>Cleanup\<close>

definition blob_expired :: "time \<Rightarrow> blob \<Rightarrow> bool" where
  "blob_expired now b = (case b of GobBytes es t \<Rightarrow> t \<noteq> 0 \<and> t < now | GobBroken \<Rightarrow> False)"

definition swept :: "time \<Rightarrow> node option \<Rightarrow> node option" where
  "swept now n = (case n of Some (File b) \<Rightarrow> if blob_expired now b then None else n | _ \<Rightarrow> n)"

lemma Decode_expired:
  "LifeTime_HasExpired now (Lifetime (fst (DecodeRemoteStore b m))) = blob_expired now b"
  by (cases b) (simp_all add: DecodeRemoteStore_def case_prod_beta Let_def LifeTime_HasExpired_iff blob_expired_def
      zero_remote_def zero_lifetime_def)

lemma cleanup_step:
  assumes "\<not> fs_denied (fd_fs db) path"
  shows "\<exists>m1 db1. cleanup_loop now (path # paths) m db = cleanup_loop now paths m1 db1 \<and>
     fs_denied (fd_fs db1) = fs_denied (fd_fs db) \<and>
     map_of (fs_nodes (fd_fs db1)) = (map_of (fs_nodes (fd_fs db)))(path := swept now (map_of (fs_nodes (fd_fs db)) path))"
proof (cases "map_of (fs_nodes (fd_fs db)) path")
  case None
  then have "os_Read (fd_fs db) path = OpenError" using assms by (simp add: os_Read_def)
  then show ?thesis
    using None by (intro exI [of _ m] exI [of _ db])
      (simp add: file_load_def zero_remote_def zero_lifetime_def LifeTime_HasExpired_iff swept_def fun_upd_idem)
next
  case (Some n)
  show ?thesis
  proof (cases n)
    case (File b)
    obtain r err m1 where dec: "DecodeRemoteStore b m = (r, err, m1)" by (cases "DecodeRemoteStore b m") auto
    have load: "file_load path m db = (r, err, m1)"
      using assms Some File dec by (simp add: file_load_def os_Read_def)
    have "LifeTime_HasExpired now (Lifetime r) = blob_expired now b" using Decode_expired [of now b m] dec by simp
    then show ?thesis
      using Some File load assms
      by (intro exI [of _ m1] exI [of _ "if blob_expired now b
            then db\<lparr>fd_fs := snd (os_Remove path (fd_fs db))\<rparr> else db"])
        (simp add: os_Remove_def map_of_delete swept_def fun_upd_idem)
  next
    case Dir
    then show ?thesis using Some by (intro exI [of _ m] exI [of _ db]) (simp add: swept_def fun_upd_idem)
  qed
qed

lemma cleanup_loop_swept:
  assumes "\<forall>p\<in>set paths. \<not> fs_denied (fd_fs db) p" "distinct paths"
  shows "map_of (fs_nodes (fd_fs (snd (cleanup_loop now paths m db)))) q =
     (if q \<in> set paths then swept now (map_of (fs_nodes (fd_fs db)) q) else map_of (fs_nodes (fd_fs db)) q)"
  using assms
proof (induction paths arbitrary: m db)
  case (Cons path paths)
  then obtain m1 db1 where step: "cleanup_loop now (path # paths) m db = cleanup_loop now paths m1 db1"
    "fs_denied (fd_fs db1) = fs_denied (fd_fs db)"
    "map_of (fs_nodes (fd_fs db1)) = (map_of (fs_nodes (fd_fs db)))(path := swept now (map_of (fs_nodes (fd_fs db)) path))"
    using cleanup_step [of db path now paths m] by auto
  show ?case
    unfolding step(1) using Cons.IH [of db1 m1] Cons.prems step(2,3) by auto
qed simp

section \<open>Properties\<close>

text \<open>
  C11. The file database is a map from session ids to stores. On a working, synchronous database
  and for session ids that are one path element, after any sequence of \<open>Sync\<close> calls whose payloads
  can be serialised, \<open>Load\<close> of an id returns exactly what decoding the last payload sent for it
  gives (nothing after a destroy), or what was stored before if no call was for that id; calls
  for other ids have no influence.
\<close>

theorem file_database_is_a_map:
  assumes "file_ready db" "\<forall>(now, m, p)\<in>set cs. safe_sid (SessionID p)" "list_all (serialisable reg) cs"
    and "safe_sid sid"
  shows "\<exists>d'. file_Load now sid m (run_syncs (file_ops reg) cs db) =
     (fst (loads_blob (replay reg cs (file_stored db) sid) m), snd (loads_blob (replay reg cs (file_stored db) sid) m), d')"
  using file_map.load_value [OF assms, of now m] by (simp add: file_ops_def)

theorem file_database_is_a_map_witness:
  "\<exists>d' r m'. file_Load 0 ''x'' [] (run_syncs (file_ops (\<lambda>_. False)) [(0, [], sample_payload ''x'')] file_sample_db) = (r, m', d') \<and>
     Lifetime r = \<lparr>lt_Time = 9, lt_timer = None\<rparr>"
proof -
  have "\<exists>d'. file_Load 0 ''x'' [] (run_syncs (file_ops (\<lambda>_. False)) [(0, [], sample_payload ''x'')] file_sample_db) =
      (fst (loads_blob (Some (GobBytes [(''k'', GInt 1)] 9)) []), snd (loads_blob (Some (GobBytes [(''k'', GInt 1)] 9)) []), d')"
    using file_database_is_a_map [OF file_db_ready, of "[(0, [], sample_payload ''x'')]" "\<lambda>_. False" "''x''" 0 "[]"]
      sample_Serialize
    by (simp add: serialisable_def synced_blob_def safe_sid_def sample_payload_def)
  then show ?thesis by (auto simp: loads_blob_def DecodeRemoteStore_def)
qed

text \<open>
  C36. A session id of the form \<open>../x\<close> makes the database leave its directory: with the sessions in
  \<open>u/e/\<close>, a payload for that id overwrites the file \<open>x\<close> next to the session directory, and a destroy
  payload removes it. The id comes from the client's cookie when
  cookies are not encoded, because \<open>Start\<close> adopts unknown ids.
\<close>

theorem file_database_escapes_directory:
  assumes "fd_dir db = u @ e @ ''/''" "safe_sid e" "safe_sid x" "u \<noteq> []" "last u = CHR ''/''" "\<not> fd_async db"
    and "map_of (fs_nodes (fd_fs db)) (dir_prefix u @ x) = Some (File old)"
    and "\<not> fs_denied (fd_fs db) (dir_prefix u @ x)" "SessionID p = ''../'' @ x"
    and "RemoteStore_Serialize reg m (PStore p) = (b, False)"
  shows "map_of (fs_nodes (fd_fs (file_Sync reg now m p db))) (dir_prefix u @ x) =
     (if PAction p = ActionDestroy then None else Some (File b))"
proof -
  have "sessPath db (SessionID p) = dir_prefix u @ x"
    using filepath_Join_up [OF assms(2-5)] assms(1,9) by (simp add: sessPath_def)
  then show ?thesis
    using assms(6,7,8,10)
    by (simp add: file_Sync_def file_sync_def file_destroy_def file_expireSess_def file_override_def os_Remove_def
        ioutil_WriteFile_def map_of_update map_of_delete)
qed

theorem file_database_escapes_directory_witness:
  "let db = \<lparr>fd_dir = ''/srv/sessions/'', fd_mode = 438, fd_async = False,
             fd_fs = \<lparr>fs_nodes = [(''/srv'', Dir), (''/srv/sessions'', Dir), (''/srv/secret'', File GobBroken)],
                      fs_denied = (\<lambda>_. False)\<rparr>, fd_pending = []\<rparr>;
       p = zero_payload\<lparr>SessionID := ''../secret'', PAction := ActionInsert, PStore := sample_store\<rparr>
   in map_of (fs_nodes (fd_fs (file_Sync (\<lambda>_. False) 0 [] p db))) ''/srv/secret'' =
        Some (File (GobBytes [(''k'', GInt 1)] 9))"
proof -
  let ?db = "\<lparr>fd_dir = ''/srv/sessions/'', fd_mode = 438, fd_async = False,
      fd_fs = \<lparr>fs_nodes = [(''/srv'', Dir), (''/srv/sessions'', Dir), (''/srv/secret'', File GobBroken)],
               fs_denied = (\<lambda>_. False)\<rparr>, fd_pending = []\<rparr>"
  have "dir_prefix ''/srv/'' = ''/srv/''" by (simp add: dir_prefix_def dir_elems_def join_path_def)
  then show ?thesis
    using file_database_escapes_directory [of ?db "''/srv/''" "''sessions''" "''secret''" GobBroken
        "zero_payload\<lparr>SessionID := ''../secret'', PAction := ActionInsert, PStore := sample_store\<rparr>"
        "\<lambda>_. False" "[]"] sample_Serialize
    by (simp add: safe_sid_def)
qed

text \<open>
  \<open>Cleanup\<close> removes from the session directory exactly the files that decode to a store whose
  lifetime has expired; files that are not sessions, unlimited sessions, directories and everything
  outside the directory stay as they are.
\<close>

theorem file_Cleanup_removes_expired:
  assumes "wf_map (fs_nodes (fd_fs db))" "\<forall>p. below_dir (fd_dir db) p \<longrightarrow> \<not> fs_denied (fd_fs db) p"
  shows "map_of (fs_nodes (fd_fs (snd (file_Cleanup now m db)))) path =
     (case map_of (fs_nodes (fd_fs db)) path of
        Some (File (GobBytes es t)) \<Rightarrow>
          if below_dir (fd_dir db) path \<and> t \<noteq> 0 \<and> t < now then None else Some (File (GobBytes es t))
      | n \<Rightarrow> n)"
proof -
  let ?paths = "filter (below_dir (fd_dir db)) (map fst (fs_nodes (fd_fs db)))"
  have "distinct ?paths" using assms(1) by (simp add: wf_map_def)
  moreover have "path \<in> set ?paths \<longleftrightarrow> below_dir (fd_dir db) path \<and> map_of (fs_nodes (fd_fs db)) path \<noteq> None"
    by (auto simp: map_of_eq_None_iff)
  ultimately show ?thesis
    using cleanup_loop_swept [of ?paths db now m path] assms(2)
    by (auto simp: file_Cleanup_def swept_def blob_expired_def split: option.split node.split blob.split)
qed

theorem file_Cleanup_removes_expired_witness:
  "let db = \<lparr>fd_dir = ''/s/'', fd_mode = 438, fd_async = False,
             fd_fs = \<lparr>fs_nodes = [(''/s'', Dir), (''/s/old'', File (GobBytes [] 5)), (''/s/txt'', File GobBroken)],
                      fs_denied = (\<lambda>_. False)\<rparr>, fd_pending = []\<rparr>
   in map_of (fs_nodes (fd_fs (snd (file_Cleanup 10 [] db)))) ''/s/old'' = None \<and>
      map_of (fs_nodes (fd_fs (snd (file_Cleanup 10 [] db)))) ''/s/txt'' = Some (File GobBroken)"
proof -
  let ?db = "\<lparr>fd_dir = ''/s/'', fd_mode = 438, fd_async = False,
      fd_fs = \<lparr>fs_nodes = [(''/s'', Dir), (''/s/old'', File (GobBytes [] 5)), (''/s/txt'', File GobBroken)],
               fs_denied = (\<lambda>_. False)\<rparr>, fd_pending = []\<rparr>"
  have "below_dir (fd_dir ?db) ''/s/old''" by (simp add: below_dir_def filepath_Clean_def join_path_def)
  moreover have "wf_map (fs_nodes (fd_fs ?db))" "\<forall>p. below_dir (fd_dir ?db) p \<longrightarrow> \<not> fs_denied (fd_fs ?db) p"
    by (simp_all add: wf_map_def)
  ultimately show ?thesis
    using file_Cleanup_removes_expired [of ?db 10 "[]" "''/s/old''"]
      file_Cleanup_removes_expired [of ?db 10 "[]" "''/s/txt''"] by (simp add: Let_def)
qed

end
