(* ===== verification/KV.thy ===== *)
theory KV
  imports FileDB "HOL-Library.List_Lexorder" "HOL-Library.Char_ord"
begin

text \<open>
  What the BoltDB, LevelDB and Badger back-ends use of their storage engines: an ordered
  collection of key-value pairs. The pairs are kept in the order of their keys as byte strings,
  which is the order in which cursors and iterators deliver them; a key occurs once. An engine
  that is closed, or whose disk fails, returns an error from every call (\<open>kv_open\<close>).
\<close>

type_synonym kv = "(string \<times> blob) list"

fun kv_put :: "string \<Rightarrow> blob \<Rightarrow> kv \<Rightarrow> kv" where
  "kv_put k b [] = [(k, b)]"
| "kv_put k b ((k', b') # ps) =
     (if k < k' then (k, b) # (k', b') # ps
      else if k = k' then (k, b) # ps
      else (k', b') # kv_put k b ps)"

fun kv_delete :: "string \<Rightarrow> kv \<Rightarrow> kv" where
  "kv_delete k [] = []"
| "kv_delete k ((k', b') # ps) = (if k = k' then ps else (k', b') # kv_delete k ps)"

definition kv_sorted :: "kv \<Rightarrow> bool" where
  "kv_sorted ps = sorted_wrt (<) (map fst ps)"

definition kv_ok :: "kv \<Rightarrow> bool" where
  "kv_ok ps = (kv_sorted ps \<and> (\<forall>(k, b)\<in>set ps. blob_ok b))"

lemma kv_sorted_Nil [simp]: "kv_sorted []"
  by (simp add: kv_sorted_def)

lemma kv_sorted_Cons: "kv_sorted ((k, b) # ps) \<longleftrightarrow> (\<forall>k'\<in>fst ` set ps. k < k') \<and> kv_sorted ps"
  by (simp add: kv_sorted_def)

lemma fst_set_kv_put: "fst ` set (kv_put k b ps) = insert k (fst ` set ps)"
  by (induction k b ps rule: kv_put.induct) (simp_all add: insert_commute)

lemma set_kv_put: "set (kv_put k b ps) \<subseteq> insert (k, b) (set ps)"
  by (induction k b ps rule: kv_put.induct) auto

lemma set_kv_delete: "set (kv_delete k ps) \<subseteq> set ps"
  by (induction k ps rule: kv_delete.induct) auto

lemma kv_sorted_put [inv_intros]: "kv_sorted ps \<Longrightarrow> kv_sorted (kv_put k b ps)"
proof (induction ps)
  case (Cons p ps)
  obtain k' b' where p: "p = (k', b')" by (cases p)
  show ?case
    using Cons unfolding p by (simp add: kv_sorted_Cons fst_set_kv_put) (meson less_trans linorder_neqE)
qed (simp add: kv_sorted_Cons)

lemma kv_sorted_delete [inv_intros]: "kv_sorted ps \<Longrightarrow> kv_sorted (kv_delete k ps)"
proof (induction ps)
  case (Cons p ps)
  obtain k' b' where p: "p = (k', b')" by (cases p)
  show ?case
    using Cons.IH Cons.prems set_kv_delete [of k ps] unfolding p
    by (cases "k = k'") (auto simp: kv_sorted_Cons)
qed simp

lemma kv_ok_put [inv_intros]: "kv_ok ps \<Longrightarrow> blob_ok b \<Longrightarrow> kv_ok (kv_put k b ps)"
  using set_kv_put [of k b ps] by (auto simp: kv_ok_def kv_sorted_put)

lemma kv_ok_delete [inv_intros]: "kv_ok ps \<Longrightarrow> kv_ok (kv_delete k ps)"
  using set_kv_delete [of k ps] by (auto simp: kv_ok_def kv_sorted_delete)

lemma kv_ok_sorted: "kv_ok ps \<Longrightarrow> kv_sorted ps"
  by (simp add: kv_ok_def)

lemma kv_sorted_distinct: "kv_sorted ps \<Longrightarrow> distinct (map fst ps)"
  unfolding kv_sorted_def by (simp add: strict_sorted_iff)

lemma map_of_kv_put: "kv_sorted ps \<Longrightarrow> map_of (kv_put k b ps) = (map_of ps)(k \<mapsto> b)"
  by (induction ps) (auto simp: kv_sorted_Cons fun_eq_iff map_of_eq_None_iff)

lemma map_of_kv_delete: "kv_sorted ps \<Longrightarrow> map_of (kv_delete k ps) = (map_of ps)(k := None)"
proof (induction ps)
  case (Cons p ps)
  obtain k' b' where p: "p = (k', b')" by (cases p)
  have "k \<notin> fst ` set ps" if "k = k'" using Cons.prems that unfolding p by (auto simp: kv_sorted_Cons)
  with Cons show ?case unfolding p by (auto simp: kv_sorted_Cons fun_eq_iff map_of_eq_None_iff)
qed (simp add: fun_eq_iff)

text \<open>What one \<open>sync\<close> does to the pairs.\<close>

definition kv_synced :: "SyncPayload \<Rightarrow> blob \<Rightarrow> kv \<Rightarrow> kv" where
  "kv_synced p b ps = (if PAction p = ActionDestroy then kv_delete (SessionID p) ps else kv_put (SessionID p) b ps)"

lemma kv_sorted_synced [inv_intros]: "kv_sorted ps \<Longrightarrow> kv_sorted (kv_synced p b ps)"
  by (simp add: kv_synced_def kv_sorted_put kv_sorted_delete)

lemma kv_ok_synced [inv_intros]: "kv_ok ps \<Longrightarrow> blob_ok b \<Longrightarrow> kv_ok (kv_synced p b ps)"
  by (simp add: kv_synced_def kv_ok_put kv_ok_delete)

lemma map_of_kv_synced:
  "kv_sorted ps \<Longrightarrow> map_of (kv_synced p (fst (RemoteStore_Serialize reg m (PStore p))) ps) =
     (map_of ps)(SessionID p := synced_blob reg m p)"
  by (simp add: kv_synced_def synced_blob_def map_of_kv_put map_of_kv_delete)

section \<open>Loading by iteration\<close>

text \<open>
  The loop of \<open>Load\<close> in BoltDB and LevelDB: iterate over all pairs, skip empty keys, stop at the
  session id.
\<close>

fun kv_find :: "string \<Rightarrow> kv \<Rightarrow> blob option" where
  "kv_find bsid [] = None"
| "kv_find bsid ((k, v) # ps) =
     (if length k = 0 then kv_find bsid ps else if k = bsid then Some v else kv_find bsid ps)"

lemma kv_find_map_of: "bsid \<noteq> [] \<Longrightarrow> kv_find bsid ps = map_of ps bsid"
  by (induction bsid ps rule: kv_find.induct) auto

lemma kv_find_ok: "kv_ok ps \<Longrightarrow> kv_find sid ps = Some v \<Longrightarrow> blob_ok v"
  by (induction sid ps rule: kv_find.induct) (auto simp: kv_ok_def kv_sorted_Cons split: if_splits)

section \<open>Cleanup by iteration\<close>

text \<open>
  The loop of \<open>Cleanup\<close>: pairs with an empty key or a value that does not decode are skipped, pairs
  whose lifetime has expired are deleted from the engine.
\<close>

fun kv_sweep :: "time \<Rightarrow> kv \<Rightarrow> mem \<Rightarrow> kv \<Rightarrow> mem \<times> kv" where
  "kv_sweep now [] m ps = (m, ps)"
| "kv_sweep now ((k, v) # rest) m ps =
     (if length k = 0 then kv_sweep now rest m ps
      else
        let (storeDB, err, m1) = DecodeRemoteStore v m in
        if err then kv_sweep now rest m1 ps
        else if LifeTime_HasExpired now (Lifetime storeDB) then kv_sweep now rest m1 (kv_delete k ps)
        else kv_sweep now rest m1 ps)"

lemma kv_ok_sweep [inv_intros]: "kv_ok ps \<Longrightarrow> kv_ok (snd (kv_sweep now rest m ps))"
  by (induction now rest m ps rule: kv_sweep.induct)
    (auto simp: Let_def kv_ok_delete split: prod.split)

lemma kv_sorted_sweep [inv_intros]: "kv_sorted ps \<Longrightarrow> kv_sorted (snd (kv_sweep now rest m ps))"
  by (induction now rest m ps rule: kv_sweep.induct)
    (auto simp: Let_def kv_sorted_delete split: prod.split)

lemma Decode_err: "DecodeRemoteStore b m = (r, True, m') \<Longrightarrow> b = GobBroken"
  by (cases b) (auto simp: DecodeRemoteStore_def case_prod_beta Let_def)

lemma kv_sweep_lookup:
  assumes "kv_sorted ps" "distinct (map fst rest)"
  shows "map_of (snd (kv_sweep now rest m ps)) q =
     (if q \<noteq> [] \<and> (\<exists>b. map_of rest q = Some b \<and> blob_expired now b) then None else map_of ps q)"
  using assms
proof (induction rest arbitrary: m ps)
  case (Cons p rest)
  obtain k v where p: "p = (k, v)" by (cases p)
  obtain r err m1 where dec: "DecodeRemoteStore v m = (r, err, m1)" by (cases "DecodeRemoteStore v m") auto
  have exp: "LifeTime_HasExpired now (Lifetime r) = blob_expired now v" using Decode_expired [of now v m] dec by simp
  have err: "err \<Longrightarrow> \<not> blob_expired now v" using Decode_err [of v m r m1] dec by (simp add: blob_expired_def)
  have notin: "map_of rest k = None" using Cons.prems(2) p by (simp add: map_of_eq_None_iff)
  note IH = Cons.IH [OF Cons.prems(1)] Cons.IH [OF kv_sorted_delete [OF Cons.prems(1), of k]]
  have rest: "distinct (map fst rest)" using Cons.prems(2) by simp
  consider "k = []" | "k \<noteq> []" "err" | "k \<noteq> []" "\<not> err" "blob_expired now v" | "k \<noteq> []" "\<not> err" "\<not> blob_expired now v"
    by blast
  then show ?case
    by cases (use IH [OF rest] dec exp err notin map_of_kv_delete [OF Cons.prems(1), of k] in \<open>auto simp: p\<close>)
qed simp

section \<open>Back-ends that store what a failed serialisation left\<close>

text \<open>
  \<open>sync\<close> of the three back-ends logs a serialisation error and goes on to store the bytes. The
  contract \<open>overwriting_database\<close> extends \<open>session_database\<close> by this: the entry is replaced for every payload.
\<close>

locale overwriting_database = session_database +
  assumes overwrite: "ready d \<Longrightarrow> safe (SessionID p) \<Longrightarrow> safe x \<Longrightarrow>
      stored (db_Sync ops now m p d) x = ((stored d)(SessionID p := synced_blob reg m p)) x"
begin

lemma load_after_broken_sync:
  assumes "ready d" "safe (SessionID p)" "PAction p \<noteq> ActionDestroy" "snd (RemoteStore_Serialize reg m p_store)"
    and "PStore p = p_store" "db_Load ops now' (SessionID p) m' (db_Sync ops now m p d) = (r, m'', d')"
  shows "r = zero_remote \<and> m'' = m'"
proof -
  have "stored (db_Sync ops now m p d) (SessionID p) = Some GobBroken"
    using overwrite [OF assms(1,2,2)] assms(3,4,5)
    by (simp add: synced_blob_def RemoteStore_Serialize_def split: option.splits)
  then show ?thesis
    using load [OF sync_ready [OF assms(1,2)] assms(2,6)] by (simp add: loads_blob_def DecodeRemoteStore_def)
qed

end

end
