(* ===== verification/BoltDB.thy ===== *)
theory BoltDB
  imports KV
begin

text \<open>
  Model of \<^verbatim>\<open>sessiondb/boltdb/database.go\<close>. \<open>bo_buckets\<close> is the content of the BoltDB file, one ordered
  collection per bucket, and \<open>bo_table\<close> the bucket of the sessions. A write transaction of the
  code does one \<open>Put\<close> or \<open>Delete\<close>, or the whole \<open>Cleanup\<close>; \<open>Put\<close> refuses an empty key and one of
  more than 32768 bytes. Opening the file is a parameter of \<open>bolt_New\<close>: the buckets it holds, or
  \<open>None\<close> when \<open>bolt.Open\<close> fails. \<open>NewFromDB\<close> creates the bucket; a missing one would be a nil
  dereference in \<open>Load\<close>, which the model does not follow. \<open>bo_pending\<close> are the payloads of the
  goroutines that asynchronous mode has started.
\<close>

record bolt_db =
  bo_table :: string
  bo_buckets :: "(string \<times> kv) list"
  bo_open :: bool
  bo_async :: bool
  bo_pending :: "SyncPayload list"

definition bolt_getBucket :: "bolt_db \<Rightarrow> kv option" where
  "bolt_getBucket db = map_of (bo_buckets db) (bo_table db)"

definition bolt_update :: "(kv \<Rightarrow> kv option) \<Rightarrow> bolt_db \<Rightarrow> bool \<times> bolt_db" where
  "bolt_update f db =
     (if \<not> bo_open db then (False, db)
      else case bolt_getBucket db of
             None \<Rightarrow> (False, db)
           | Some ps \<Rightarrow>
               (case f ps of
                  None \<Rightarrow> (False, db)
                | Some ps' \<Rightarrow> (True, db\<lparr>bo_buckets := AList.update (bo_table db) ps' (bo_buckets db)\<rparr>)))"

definition bolt_Put :: "string \<Rightarrow> blob \<Rightarrow> kv \<Rightarrow> kv option" where
  "bolt_Put key v ps = (if length key = 0 \<or> length key > 32768 then None else Some (kv_put key v ps))"

definition bolt_Cleanup :: "time \<Rightarrow> mem \<Rightarrow> bolt_db \<Rightarrow> bool \<times> mem \<times> bolt_db" where
  "bolt_Cleanup now m db =
     (case bolt_getBucket db of
        None \<Rightarrow> (False, m, db)
      | Some ps \<Rightarrow>
          (let (m1, ps1) = kv_sweep now ps m ps; (ok, db1) = bolt_update (\<lambda>_. Some ps1) db in (ok, m1, db1)))"

definition bolt_Async :: "bool \<Rightarrow> bolt_db \<Rightarrow> bolt_db" where
  "bolt_Async useGoRoutines db = db\<lparr>bo_async := useGoRoutines\<rparr>"

definition bolt_Load :: "time \<Rightarrow> string \<Rightarrow> mem \<Rightarrow> bolt_db \<Rightarrow> RemoteStore \<times> mem \<times> bolt_db" where
  "bolt_Load now sid m db =
     (if \<not> bo_open db then (zero_remote, m, db)
      else case bolt_getBucket db of
             None \<Rightarrow> (zero_remote, m, db)
           | Some ps \<Rightarrow>
               (case kv_find sid ps of
                  None \<Rightarrow> (zero_remote, m, db)
                | Some v \<Rightarrow> (let (storeDB, err, m1) = DecodeRemoteStore v m in (storeDB, m1, db))))"

definition bolt_destroy :: "string \<Rightarrow> bolt_db \<Rightarrow> bool \<times> bolt_db" where
  "bolt_destroy bsid db = bolt_update (\<lambda>ps. Some (kv_delete bsid ps)) db"

text \<open>A serialisation error is logged, and the bytes written so far are stored all the same.\<close>

definition bolt_sync :: "(gtype \<Rightarrow> bool) \<Rightarrow> mem \<Rightarrow> SyncPayload \<Rightarrow> bolt_db \<Rightarrow> bolt_db" where
  "bolt_sync reg m p db =
     (if PAction p = ActionDestroy then snd (bolt_destroy (SessionID p) db)
      else
        let (s, err) = RemoteStore_Serialize reg m (PStore p)
        in snd (bolt_update (bolt_Put (SessionID p) s) db))"

definition bolt_Sync :: "(gtype \<Rightarrow> bool) \<Rightarrow> time \<Rightarrow> mem \<Rightarrow> SyncPayload \<Rightarrow> bolt_db \<Rightarrow> bolt_db" where
  "bolt_Sync reg now m p db =
     (if bo_async db then db\<lparr>bo_pending := bo_pending db @ [p]\<rparr> else bolt_sync reg m p db)"

text \<open>The goroutine at position \<open>i\<close> of the pending ones runs.\<close>

definition bolt_run_pending :: "(gtype \<Rightarrow> bool) \<Rightarrow> mem \<Rightarrow> nat \<Rightarrow> bolt_db \<Rightarrow> bolt_db" where
  "bolt_run_pending reg m i db =
     (if i < length (bo_pending db)
      then bolt_sync reg m (bo_pending db ! i) (db\<lparr>bo_pending := without_nth i (bo_pending db)\<rparr>)
      else db)"

definition bolt_Len :: "bolt_db \<Rightarrow> nat" where
  "bolt_Len db =
     (if \<not> bo_open db then 0 else case bolt_getBucket db of None \<Rightarrow> 0 | Some ps \<Rightarrow> length ps)"

definition bolt_Close :: "bolt_db \<Rightarrow> bolt_db" where
  "bolt_Close db = db\<lparr>bo_open := False\<rparr>"

text \<open>\<open>None\<close> is the nil database; the flag tells whether the error is nil.\<close>

definition bolt_NewFromDB ::
  "(string \<times> kv) list \<Rightarrow> string \<Rightarrow> time \<Rightarrow> mem \<Rightarrow> bolt_db option \<times> bool \<times> mem" where
  "bolt_NewFromDB service bucketName now m =
     (if bucketName = [] then (None, False, m)
      else
        let buckets = (if map_of service bucketName = None then service @ [(bucketName, [])] else service);
            (ok, m1, db) = bolt_Cleanup now m \<lparr>bo_table = bucketName, bo_buckets = buckets, bo_open = True,
                             bo_async = False, bo_pending = []\<rparr>
        in (Some db, ok, m1))"

definition filepath_Dir :: "string \<Rightarrow> string" where
  "filepath_Dir path = filepath_Clean (take (nat (LastIndexByte path (CHR ''/'') + 1)) path)"

definition bolt_New ::
  "(string \<Rightarrow> (string \<times> kv) list option) \<Rightarrow> string \<Rightarrow> string \<Rightarrow> time \<Rightarrow> mem \<Rightarrow> fs
     \<Rightarrow> bolt_db option \<times> bool \<times> mem \<times> fs" where
  "bolt_New openf path bucketName now m f =
     (if path = [] \<or> bucketName = [] then (None, False, m, f)
      else
        let (ok, f1) = os_MkdirAll (filepath_Dir path) f in
        if \<not> ok then (None, False, m, f1)
        else case openf path of
               None \<Rightarrow> (None, False, m, f1)
             | Some service \<Rightarrow>
                 (let (db, err, m1) = bolt_NewFromDB service bucketName now m in (db, err, m1, f1)))"

definition bolt_ops :: "(gtype \<Rightarrow> bool) \<Rightarrow> bolt_db dbops" where
  "bolt_ops reg = \<lparr>db_Load = bolt_Load, db_Sync = bolt_Sync reg\<rparr>"

section \<open>The invariant\<close>

definition bolt_inv :: "bolt_db \<Rightarrow> bool" where
  "bolt_inv db =
     ((\<forall>(t, ps)\<in>set (bo_buckets db). kv_ok ps) \<and> list_all (\<lambda>p. wf_store (Values (PStore p))) (bo_pending db))"

lemma bolt_getBucket_ok: "bolt_inv db \<Longrightarrow> bolt_getBucket db = Some ps \<Longrightarrow> kv_ok ps"
  by (auto simp: bolt_inv_def bolt_getBucket_def dest!: map_of_SomeD)

lemma bolt_inv_update:
  assumes "bolt_inv db" "\<And>ps ps'. kv_ok ps \<Longrightarrow> f ps = Some ps' \<Longrightarrow> kv_ok ps'"
  shows "bolt_inv (snd (bolt_update f db))"
proof (cases "bolt_getBucket db")
  case (Some ps)
  show ?thesis
  proof (cases "f ps")
    case (Some ps')
    have "kv_ok ps'" using assms(2) [OF bolt_getBucket_ok [OF assms(1)]] Some \<open>bolt_getBucket db = Some ps\<close> by blast
    then show ?thesis
      using assms(1) Some \<open>bolt_getBucket db = Some ps\<close> set_alist_update [of "bo_table db" ps' "bo_buckets db"]
      by (fastforce simp: bolt_update_def bolt_inv_def)
  qed (use assms(1) Some in \<open>simp add: bolt_update_def\<close>)
qed (use assms(1) in \<open>simp add: bolt_update_def\<close>)

lemma bolt_inv_sync:
  assumes "bolt_inv db" "wf_store (Values (PStore p))"
  shows "bolt_inv (bolt_sync reg m p db)"
proof -
  have "bolt_inv (snd (bolt_destroy (SessionID p) db))"
    unfolding bolt_destroy_def using assms(1) by (rule bolt_inv_update) (auto intro: kv_ok_delete)
  moreover have "bolt_inv (snd (bolt_update (bolt_Put (SessionID p) (fst (RemoteStore_Serialize reg m (PStore p)))) db))"
    using assms(1) blob_ok_Serialize [OF assms(2)]
    by (rule_tac bolt_inv_update) (auto simp: bolt_Put_def intro: kv_ok_put split: if_splits)
  ultimately show ?thesis by (simp add: bolt_sync_def case_prod_beta Let_def)
qed

interpretation bolt_wf: wf_database "bolt_ops reg" bolt_inv for reg
proof
  fix d now sid m r m' d'
  assume "bolt_inv d" "db_Load (bolt_ops reg) now sid m d = (r, m', d')"
  then show "wf_store (Values r) \<and> lt_timer (Lifetime r) = None \<and> bolt_inv d'"
    using zero_remote_wf DecodeRemoteStore_wf kv_find_ok bolt_getBucket_ok
    by (fastforce simp: bolt_ops_def bolt_Load_def split: if_splits option.splits prod.splits)
next
  fix d now m and p :: SyncPayload
  assume "bolt_inv d" "wf_store (Values (PStore p))"
  then show "bolt_inv (db_Sync (bolt_ops reg) now m p d)"
    using bolt_inv_sync [of d p reg m] by (simp add: bolt_ops_def bolt_Sync_def bolt_inv_def)
qed

lemma bolt_inv_run_pending:
  assumes "bolt_inv db"
  shows "bolt_inv (bolt_run_pending reg m i db)"
proof -
  have "bolt_inv (db\<lparr>bo_pending := without_nth i (bo_pending db)\<rparr>)"
    using assms by (simp add: bolt_inv_def list_all_without_nth)
  moreover have "i < length (bo_pending db) \<Longrightarrow> wf_store (Values (PStore (bo_pending db ! i)))"
    using assms by (simp add: bolt_inv_def list_all_length)
  ultimately show ?thesis using assms by (simp add: bolt_run_pending_def bolt_inv_sync)
qed

lemma bolt_inv_Cleanup:
  assumes "bolt_inv db"
  shows "bolt_inv (snd (snd (bolt_Cleanup now m db)))"
proof (cases "bolt_getBucket db")
  case (Some ps)
  have "kv_ok (snd (kv_sweep now ps m ps))" using bolt_getBucket_ok [OF assms Some] by (rule kv_ok_sweep)
  then have "bolt_inv (snd (bolt_update (\<lambda>_. Some (snd (kv_sweep now ps m ps))) db))"
    by (intro bolt_inv_update [OF assms]) simp
  with Some show ?thesis by (simp add: bolt_Cleanup_def case_prod_beta)
qed (simp add: bolt_Cleanup_def assms)

section \<open>The BoltDB database as a map\<close>

definition bolt_live :: "bolt_db \<Rightarrow> bool" where
  "bolt_live db = (bo_open db \<and> (case bolt_getBucket db of None \<Rightarrow> False | Some ps \<Rightarrow> kv_sorted ps))"

definition bolt_ready :: "bolt_db \<Rightarrow> bool" where
  "bolt_ready db = (bolt_live db \<and> \<not> bo_async db)"

definition bolt_working :: "bolt_db \<Rightarrow> bool" where
  "bolt_working db = (bolt_live db \<and> bo_async db)"

definition bolt_safe :: "string \<Rightarrow> bool" where
  "bolt_safe sid = (sid \<noteq> [] \<and> length sid \<le> 32768)"

definition bolt_stored :: "bolt_db \<Rightarrow> string \<Rightarrow> blob option" where
  "bolt_stored db sid = (case bolt_getBucket db of None \<Rightarrow> None | Some ps \<Rightarrow> map_of ps sid)"

lemma bolt_liveE:
  assumes "bolt_live db"
  obtains ps where "bo_open db" "bolt_getBucket db = Some ps" "kv_sorted ps"
  using assms by (auto simp: bolt_live_def split: option.splits)

lemma bolt_update_bucket:
  assumes "bo_open db" "bolt_getBucket db = Some ps" "f ps = Some ps'" "db' = snd (bolt_update f db)"
  shows "bo_open db' \<and> bo_async db' = bo_async db \<and> bo_pending db' = bo_pending db \<and> bolt_getBucket db' = Some ps'"
proof -
  have "db' = db\<lparr>bo_buckets := AList.update (bo_table db) ps' (bo_buckets db)\<rparr>"
    using assms by (simp add: bolt_update_def)
  then show ?thesis using assms(1) by (simp add: bolt_getBucket_def map_of_update)
qed

lemma bolt_sync_bucket:
  assumes "bo_open db" "bolt_getBucket db = Some ps" "bolt_safe (SessionID p)" "db' = bolt_sync reg m p db"
  shows "bo_open db' \<and> bo_async db' = bo_async db \<and> bo_pending db' = bo_pending db \<and>
     bolt_getBucket db' = Some (kv_synced p (fst (RemoteStore_Serialize reg m (PStore p))) ps)"
proof -
  let ?b = "fst (RemoteStore_Serialize reg m (PStore p))"
  have "bolt_Put (SessionID p) ?b ps = Some (kv_put (SessionID p) ?b ps)"
    using assms(3) by (simp add: bolt_Put_def bolt_safe_def)
  then show ?thesis
    using bolt_update_bucket [OF assms(1,2), of "\<lambda>ps. Some (kv_delete (SessionID p) ps)" "kv_delete (SessionID p) ps" db']
      bolt_update_bucket [OF assms(1,2), of "bolt_Put (SessionID p) ?b" "kv_put (SessionID p) ?b ps" db'] assms(4)
    by (cases "PAction p = ActionDestroy")
      (simp_all add: bolt_sync_def bolt_destroy_def kv_synced_def case_prod_beta)
qed

lemma bolt_sync_stored:
  assumes "bolt_live db" "bolt_safe (SessionID p)" "db' = bolt_sync reg m p db"
  shows "bolt_live db' \<and> bo_async db' = bo_async db \<and> bo_pending db' = bo_pending db \<and>
     bolt_stored db' = (bolt_stored db)(SessionID p := synced_blob reg m p)"
proof -
  obtain ps where ps: "bo_open db" "bolt_getBucket db = Some ps" "kv_sorted ps" using assms(1) by (rule bolt_liveE)
  then show ?thesis
    using bolt_sync_bucket [OF ps(1,2) assms(2,3)] map_of_kv_synced [OF ps(3), of p reg m]
    by (simp add: bolt_live_def bolt_stored_def kv_sorted_synced fun_eq_iff)
qed

lemma bolt_Load_stored:
  assumes "bolt_live db" "bolt_safe sid"
  shows "bolt_Load now sid m db = (fst (loads_blob (bolt_stored db sid) m), snd (loads_blob (bolt_stored db sid) m), db)"
  using assms(1)
  by (rule bolt_liveE) (use assms(2) in \<open>auto simp: bolt_Load_def bolt_stored_def kv_find_map_of loads_blob_def
      bolt_safe_def case_prod_beta split: option.split\<close>)

interpretation bolt_map: overwriting_database "bolt_ops reg" reg bolt_ready bolt_safe bolt_stored for reg
proof
  fix d sid now m r m' d'
  assume "bolt_ready d" "bolt_safe sid" "db_Load (bolt_ops reg) now sid m d = (r, m', d')"
  then show "bolt_ready d' \<and> (\<forall>x. bolt_safe x \<longrightarrow> bolt_stored d' x = bolt_stored d x) \<and>
      (r, m') = loads_blob (bolt_stored d sid) m"
    by (auto simp: bolt_ops_def bolt_ready_def bolt_Load_stored)
next
  fix d now m x and p :: SyncPayload
  assume "bolt_ready d" "bolt_safe (SessionID p)"
  then show "bolt_stored (db_Sync (bolt_ops reg) now m p d) x = ((bolt_stored d)(SessionID p := synced_blob reg m p)) x"
    and "bolt_ready (db_Sync (bolt_ops reg) now m p d)"
    using bolt_sync_stored [OF _ _ refl] by (simp_all add: bolt_ops_def bolt_Sync_def bolt_ready_def)
  then show "bolt_stored (db_Sync (bolt_ops reg) now m p d) x = ((bolt_stored d)(SessionID p := synced_blob reg m p)) x"
    by simp
qed

interpretation bolt_async: async_database "bolt_ops reg" reg bolt_working bolt_safe bolt_stored bo_pending
  "bolt_run_pending reg" for reg
proof
  fix d now m d' and p :: SyncPayload
  assume "bolt_working d" "db_Sync (bolt_ops reg) now m p d = d'"
  then show "bolt_working d' \<and> bo_pending d' = bo_pending d @ [p] \<and> (\<forall>x. bolt_stored d' x = bolt_stored d x)"
    by (auto simp: bolt_ops_def bolt_Sync_def bolt_working_def bolt_live_def bolt_stored_def bolt_getBucket_def)
next
  fix d :: bolt_db and i m x
  let ?d = "d\<lparr>bo_pending := without_nth i (bo_pending d)\<rparr>"
  assume d: "bolt_working d" "i < length (bo_pending d)" "bolt_safe (SessionID (bo_pending d ! i))"
  have "bolt_live ?d" "bolt_stored ?d = bolt_stored d"
    using d(1) by (simp_all add: bolt_working_def bolt_live_def bolt_stored_def bolt_getBucket_def fun_eq_iff)
  with d show "bolt_working (bolt_run_pending reg m i d) \<and>
      bo_pending (bolt_run_pending reg m i d) = without_nth i (bo_pending d)"
    and "bolt_stored (bolt_run_pending reg m i d) x =
      ((bolt_stored d)(SessionID (bo_pending d ! i) := synced_blob reg m (bo_pending d ! i))) x"
    using bolt_sync_stored [of ?d, OF _ _ refl, of "bo_pending d ! i" reg m]
    by (simp_all add: bolt_run_pending_def bolt_working_def)
qed

section \<open>Properties\<close>

text \<open>
  C14. The BoltDB database is a map from session ids to stores. On an open, synchronous database and
  for session ids of 1 to 32768 bytes, after any sequence of \<open>Sync\<close> calls whose payloads can be
  serialised, \<open>Load\<close>, which searches the whole bucket with a cursor, returns exactly what decoding
  the last payload sent for the id gives (nothing after a destroy), or what was stored before if no
  call was for that id; calls for other ids have no influence.
\<close>

theorem bolt_database_is_a_map:
  assumes "bolt_ready db" "\<forall>(now, m, p)\<in>set cs. bolt_safe (SessionID p)" "list_all (serialisable reg) cs"
    and "bolt_safe sid"
  shows "\<exists>d'. bolt_Load now sid m (run_syncs (bolt_ops reg) cs db) =
     (fst (loads_blob (replay reg cs (bolt_stored db) sid) m), snd (loads_blob (replay reg cs (bolt_stored db) sid) m), d')"
  using bolt_map.load_value [OF assms, of now m] by (simp add: bolt_ops_def)

theorem bolt_database_is_a_map_witness:
  "let db = \<lparr>bo_table = ''t'', bo_buckets = [(''t'', [(''a'', GobBroken)])], bo_open = True, bo_async = False, bo_pending = []\<rparr>
   in \<exists>d' r m'. bolt_Load 0 ''x'' [] (run_syncs (bolt_ops (\<lambda>_. False)) [(0, [], sample_payload ''x'')] db) = (r, m', d') \<and>
        Lifetime r = \<lparr>lt_Time = 9, lt_timer = None\<rparr>"
proof -
  let ?db = "\<lparr>bo_table = ''t'', bo_buckets = [(''t'', [(''a'', GobBroken)])], bo_open = True, bo_async = False,
      bo_pending = []\<rparr>"
  have "bolt_ready ?db" by (simp add: bolt_ready_def bolt_live_def bolt_getBucket_def kv_sorted_Cons)
  then have "\<exists>d'. bolt_Load 0 ''x'' [] (run_syncs (bolt_ops (\<lambda>_. False)) [(0, [], sample_payload ''x'')] ?db) =
      (fst (loads_blob (Some (GobBytes [(''k'', GInt 1)] 9)) []), snd (loads_blob (Some (GobBytes [(''k'', GInt 1)] 9)) []), d')"
    using bolt_database_is_a_map [of ?db "[(0, [], sample_payload ''x'')]" "\<lambda>_. False" "''x''" 0 "[]"] sample_Serialize
    by (simp add: serialisable_def synced_blob_def bolt_safe_def sample_payload_def)
  then show ?thesis by (auto simp: loads_blob_def DecodeRemoteStore_def)
qed

text \<open>
  C29. \<open>Cleanup\<close> of an open BoltDB database succeeds and removes from the bucket exactly the
  sessions that decode to a store whose lifetime has expired; values that do not decode and
  unlimited sessions stay. After \<open>Close\<close> it reports an error and changes nothing.
\<close>

theorem bolt_Cleanup_removes_expired:
  assumes "bolt_live db" "bolt_safe sid"
  shows "fst (bolt_Cleanup now m db) \<and>
     bolt_stored (snd (snd (bolt_Cleanup now m db))) sid =
       (case bolt_stored db sid of
          Some (GobBytes es t) \<Rightarrow> if t \<noteq> 0 \<and> t < now then None else Some (GobBytes es t)
        | b \<Rightarrow> b) \<and>
     fst (bolt_Cleanup now m (bolt_Close db)) = False \<and>
     snd (snd (bolt_Cleanup now m (bolt_Close db))) = bolt_Close db"
proof -
  obtain ps where ps: "bo_open db" "bolt_getBucket db = Some ps" "kv_sorted ps" using assms(1) by (rule bolt_liveE)
  let ?ps = "snd (kv_sweep now ps m ps)"
  have "bolt_getBucket (snd (bolt_update (\<lambda>_. Some ?ps) db)) = Some ?ps" "fst (bolt_update (\<lambda>_. Some ?ps) db)"
    using bolt_update_bucket [OF ps(1,2) refl refl] ps(1,2) by (simp_all add: bolt_update_def)
  then have "fst (bolt_Cleanup now m db) \<and> bolt_stored (snd (snd (bolt_Cleanup now m db))) sid = map_of ?ps sid"
    using ps(2) by (simp add: bolt_Cleanup_def bolt_stored_def case_prod_beta)
  moreover have "map_of ?ps sid =
       (case bolt_stored db sid of
          Some (GobBytes es t) \<Rightarrow> if t \<noteq> 0 \<and> t < now then None else Some (GobBytes es t)
        | b \<Rightarrow> b)"
    using kv_sweep_lookup [OF ps(3) kv_sorted_distinct [OF ps(3)], of now m sid] ps(2) assms(2)
    by (auto simp: bolt_stored_def bolt_safe_def blob_expired_def split: option.split blob.split)
  moreover have "fst (bolt_Cleanup now m (bolt_Close db)) = False \<and>
      snd (snd (bolt_Cleanup now m (bolt_Close db))) = bolt_Close db"
    using ps(2) by (simp add: bolt_Cleanup_def bolt_Close_def bolt_update_def bolt_getBucket_def case_prod_beta)
  ultimately show ?thesis by simp
qed

theorem bolt_Cleanup_removes_expired_witness:
  "let db = \<lparr>bo_table = ''t'', bo_buckets = [(''t'', [(''a'', GobBytes [] 5), (''b'', GobBytes [] 50)])], bo_open = True,
             bo_async = True, bo_pending = []\<rparr>
   in bolt_stored (snd (snd (bolt_Cleanup 10 [] db))) ''a'' = None \<and>
      bolt_stored (snd (snd (bolt_Cleanup 10 [] db))) ''b'' = Some (GobBytes [] 50)"
proof -
  let ?db = "\<lparr>bo_table = ''t'', bo_buckets = [(''t'', [(''a'', GobBytes [] 5), (''b'', GobBytes [] 50)])], bo_open = True,
      bo_async = True, bo_pending = []\<rparr>"
  have "bolt_live ?db" "bolt_stored ?db ''a'' = Some (GobBytes [] 5)" "bolt_stored ?db ''b'' = Some (GobBytes [] 50)"
    by (simp_all add: bolt_live_def bolt_getBucket_def bolt_stored_def kv_sorted_Cons)
  then show ?thesis
    using bolt_Cleanup_removes_expired [of ?db "''a''" 10 "[]"] bolt_Cleanup_removes_expired [of ?db "''b''" 10 "[]"]
    by (simp add: bolt_safe_def)
qed

end
