(* ===== verification/Restart.thy ===== *)
theory Restart
  imports FileDB BoltDB
begin

text \<open>
  A session outlives the process: what \<open>Set\<close> sends to a database is what a new process reads back
  when the client returns. It is proved once for every back-end that satisfies the contract
  \<open>session_database\<close> and applied to the file database (root theory) and to the BoltDB database, whose
  file is closed and opened again in between.
\<close>

lemma loadSessionFromDB_one:
  assumes "p_databases (w_provider w) = [d]" "db_Load ops (w_now w) sid (w_mem w) d = (r, m', d')"
    and "\<not> LifeTime_HasExpired (w_now w) (Lifetime r)"
  shows "loadSessionFromDB ops sid w =
     (Ret (Values r, Lifetime r), with_provider (\<lambda>p. p\<lparr>p_databases := [d']\<rparr>) (w\<lparr>w_mem := m'\<rparr>))"
  using assms
  by (simp add: loadSessionFromDB_def load_body_def zero_lifetime_def Time_IsZero_def Let_def)

lemma provider_Init_one:
  fixes w :: "'d world"
  assumes "p_databases (w_provider w) = [d]" "db_Load ops (w_now w) sid (w_mem w) d = (r, m', d')"
    and "\<not> LifeTime_HasExpired (w_now w) (Lifetime r)" "p_mu (w_provider w) = Unlocked"
  shows "\<exists>w'. provider_Init ops sid expires w = (Ret (length (w_heap w)), w') \<and> w_mem w' = m' \<and>
     s_sid (w_heap w' ! length (w_heap w)) = sid \<and>
     s_values (w_heap w' ! length (w_heap w)) = Values r \<and>
     (lt_Time (Lifetime r) \<noteq> 0 \<longrightarrow> lt_Time (s_lifetime (w_heap w' ! length (w_heap w))) = lt_Time (Lifetime r))"
proof -
  have revive: "lt_Time (fst (LifeTime_Revive now sid lt ts)) = lt_Time lt" for now lt ts
    by (simp add: LifeTime_Revive_def Let_def AfterFunc_def)
  show ?thesis
    using assms(4) revive [of "w_now w" "Lifetime r" "w_timers w"]
    by (auto simp: provider_Init_def newSession_def loadSessionFromDB_one [OF assms(1-3)] Time_IsZero_def
        case_prod_beta Let_def split: option.split)
qed

text \<open>
  The session \<open>ref\<close> has the id, the keys, the values and the expiration of a session that was stored.
\<close>

definition revived ::
  "(gtype \<Rightarrow> bool) \<Rightarrow> mem \<Rightarrow> Store \<Rightarrow> LifeTime \<Rightarrow> string \<Rightarrow> nat \<Rightarrow> 'd world \<Rightarrow> bool" where
  "revived reg m st lt sid ref w =
     (let s = w_heap w ! ref in
      s_sid s = sid \<and> map Key (store_elems (s_values s)) = map Key (store_elems st) \<and>
      gob_entries reg (w_mem w) (s_values s) = gob_entries reg m st \<and>
      (lt_Time lt \<noteq> 0 \<longrightarrow> lt_Time (s_lifetime s) = lt_Time lt))"

context session_database
begin

text \<open>A \<open>Set\<close> on a session whose only database is a working one.\<close>

lemma set_stored:
  assumes "p_databases (w_provider w) = [db]" "ready db" "slice_ok (s_values (w_heap w ! i))"
    and "s_mu (w_heap w ! i) = Unlocked" "s_sid (w_heap w ! i) = sid" "safe sid"
    and "st = fst (Store_Save (w_grow w) key v imm (s_values (w_heap w ! i)))"
    and "RemoteStore_Serialize reg (w_mem w) \<lparr>Values = st, Lifetime = s_lifetime (w_heap w ! i)\<rparr> = (b, False)"
  shows "\<exists>w1 db1. Session_set ops i key v imm w = (Ret (), w1) \<and>
     p_databases (w_provider w1) = [db1] \<and> ready db1 \<and> stored db1 sid = Some b \<and>
     (\<exists>p. db1 = db_Sync ops (w_now w) (w_mem w) p db) \<and>
     w_heap w1 = (w_heap w)[i := after_set (w_grow w) key v imm (w_heap w ! i)] \<and> w_mem w1 = w_mem w"
proof -
  let ?s = "w_heap w ! i"
  from Session_set_unlocked [OF assms(4,3), of ops key v imm]
  obtain p pool where set: "Session_set ops i key v imm w =
      (Ret (), sync_world ops p pool (set_session i (after_set (w_grow w) key v imm ?s) w))"
    "sent_payload (after_set (w_grow w) key v imm ?s) (set_action (s_values ?s) key)
      (saved_entry key v imm (store_lookup (s_values ?s) key)) p" by blast
  have p: "SessionID p = sid" "PAction p \<noteq> ActionDestroy" "RemoteStore_Serialize reg (w_mem w) (PStore p) = (b, False)"
    using set(2) assms(5,7,8) by (auto simp: sent_payload_def after_set_def set_action_def)
  have safe: "safe (SessionID p)" using assms(6) p(1) by simp
  let ?db1 = "db_Sync ops (w_now w) (w_mem w) p db"
  have "stored ?db1 (SessionID p) = Some b"
    using sync [OF assms(2) safe _ safe, of "w_now w" "w_mem w"] p by (simp add: serialisable_def synced_blob_def)
  moreover have "ready ?db1" using assms(2) safe by (rule sync_ready)
  ultimately show ?thesis using set(1) assms(1) p(1) by auto
qed

text \<open>\<open>Read\<close> in a process that does not hold the session.\<close>

lemma read_stored:
  assumes "RemoteStore_Serialize reg m \<lparr>Values = st, Lifetime = lt\<rparr> = (b, False)"
    and "p_databases (w_provider w) = [d]" "ready d" "safe sid" "stored d sid = Some b"
    and "lt_Time lt = 0 \<or> w_now w \<le> lt_Time lt"
    and "p_mu (w_provider w) = Unlocked" "map_of (p_sessions (w_provider w)) sid = None"
  shows "\<exists>ref w'. provider_Read ops sid expires w = (Ret ref, w') \<and> revived reg m st lt sid ref w'"
proof -
  obtain es where es: "gob_entries reg m st = Some es" "b = GobBytes es (lt_Time lt)"
    using assms(1) by (auto simp: RemoteStore_Serialize_def split: option.splits)
  obtain r err m' where dec: "DecodeRemoteStore b (w_mem w) = (r, err, m')"
    by (cases "DecodeRemoteStore b (w_mem w)") auto
  note r = DecodeRemoteStore_bytes [OF wf_entries_gob [OF es(1)] dec [unfolded es(2)]]
  obtain r1 m1 d' where l: "db_Load ops (w_now w) sid (w_mem w) d = (r1, m1, d')"
    by (cases "db_Load ops (w_now w) sid (w_mem w) d") auto
  then have load: "db_Load ops (w_now w) sid (w_mem w) d = (r, m', d')"
    using load [OF assms(3,4) l] assms(5) dec by (simp add: loads_blob_def)
  have "\<not> LifeTime_HasExpired (w_now w) (Lifetime r)"
    using r assms(6) by (auto simp: LifeTime_HasExpired_iff)
  from provider_Init_one [OF assms(2) load this assms(7), of expires] show ?thesis
    using provider_Read_unknown [OF assms(7,8), of ops expires] r es(1) gob_entries_keys [OF es(1)]
    by (auto simp: revived_def Let_def)
qed

end

section \<open>BoltDB\<close>

text \<open>A database that is opened on a file has the sessions in its bucket, less the expired ones.\<close>

definition bucket_of :: "(string \<times> kv) list \<Rightarrow> string \<Rightarrow> kv" where
  "bucket_of bs table = (case map_of bs table of None \<Rightarrow> [] | Some ps \<Rightarrow> ps)"

lemma bolt_New_stored:
  assumes "path \<noteq> []" "table \<noteq> []" "openf path = Some bs" "fst (os_MkdirAll (filepath_Dir path) f)"
    and "kv_sorted (bucket_of bs table)"
  shows "\<exists>db m' f'. bolt_New openf path table now m f = (Some db, True, m', f') \<and> bolt_ready db \<and> bo_table db = table \<and>
     (\<forall>sid. bolt_safe sid \<longrightarrow> bolt_stored db sid =
        (case map_of (bucket_of bs table) sid of Some b \<Rightarrow> if blob_expired now b then None else Some b | None \<Rightarrow> None))"
proof -
  let ?ps = "bucket_of bs table"
  let ?bs = "if map_of bs table = None then bs @ [(table, [])] else bs"
  let ?db = "\<lparr>bo_table = table, bo_buckets = ?bs, bo_open = True, bo_async = False, bo_pending = []\<rparr>"
  have bucket: "bolt_getBucket ?db = Some ?ps"
    by (auto simp: bolt_getBucket_def bucket_of_def map_add_def split: option.split)
  let ?qs = "snd (kv_sweep now ?ps m ?ps)"
  let ?db' = "snd (bolt_update (\<lambda>_. Some ?qs) ?db)"
  have up: "bo_open ?db' \<and> bo_async ?db' = False \<and> bolt_getBucket ?db' = Some ?qs"
    using bolt_update_bucket [OF _ bucket, of "\<lambda>_. Some ?qs" ?qs, OF _ refl refl] by simp
  have table: "bo_table ?db' = table" by (simp add: bolt_update_def split: option.split)
  have "bolt_NewFromDB bs table now m = (Some ?db', True, fst (kv_sweep now ?ps m ?ps))"
    using assms(2) bucket by (simp add: bolt_NewFromDB_def bolt_Cleanup_def bolt_update_def case_prod_beta)
  then have "\<exists>m' f'. bolt_New openf path table now m f = (Some ?db', True, m', f')"
    using assms(1-4) by (simp add: bolt_New_def case_prod_beta)
  moreover have "bolt_ready ?db'" using up kv_sorted_sweep [OF assms(5)] by (simp add: bolt_ready_def bolt_live_def)
  moreover have "bolt_stored ?db' sid =
      (case map_of ?ps sid of Some b \<Rightarrow> if blob_expired now b then None else Some b | None \<Rightarrow> None)" if "bolt_safe sid" for sid
    using up kv_sweep_lookup [OF assms(5) kv_sorted_distinct [OF assms(5)], of now m sid] that
    by (auto simp: bolt_stored_def bolt_safe_def split: option.split)
  ultimately show ?thesis using table by blast
qed

lemma bolt_live_bucket:
  "bolt_live db \<Longrightarrow> kv_sorted (bucket_of (bo_buckets db) (bo_table db)) \<and>
     map_of (bucket_of (bo_buckets db) (bo_table db)) = bolt_stored db"
  by (elim bolt_liveE) (auto simp: bucket_of_def bolt_stored_def bolt_getBucket_def fun_eq_iff)

lemma bolt_Sync_table [simp]: "bo_table (bolt_Sync reg now m p db) = bo_table db"
  by (simp add: bolt_Sync_def bolt_sync_def bolt_destroy_def bolt_update_def case_prod_beta split: option.split)

text \<open>
  A session survives a restart of a server with a BoltDB database. After \<open>Set\<close> on a session (values gob
  can send), a new process opens the file that the call left, which runs \<open>Cleanup\<close>, and registers the
  database. If the session has not expired when the file is opened nor when the client returns, \<open>Read\<close>
  in the new process gives a session under the same id with the same keys, values and expiration.
\<close>

theorem bolt_session_survives_restart:
  fixes w :: "bolt_db world"
  assumes "p_databases (w_provider w) = [db]" "bolt_ready db" "bo_table db \<noteq> []" "slice_ok (s_values (w_heap w ! i))"
    and "s_mu (w_heap w ! i) = Unlocked" "s_sid (w_heap w ! i) = sid" "bolt_safe sid"
    and "st = fst (Store_Save (w_grow w) key v imm (s_values (w_heap w ! i)))"
    and "RemoteStore_Serialize reg (w_mem w) \<lparr>Values = st, Lifetime = s_lifetime (w_heap w ! i)\<rparr> = (b, False)"
    and "lt_Time (s_lifetime (w_heap w ! i)) = 0 \<or> max now (w_now w2) \<le> lt_Time (s_lifetime (w_heap w ! i))"
    and "p_mu (w_provider w2) = Unlocked" "map_of (p_sessions (w_provider w2)) sid = None"
    and "path \<noteq> []" "fst (os_MkdirAll (filepath_Dir path) f)"
  shows "\<exists>w1 db1. Session_set (bolt_ops reg) i key v imm w = (Ret (), w1) \<and> p_databases (w_provider w1) = [db1] \<and>
     (openf path = Some (bo_buckets db1) \<longrightarrow>
        (\<exists>db2 m2 f2. bolt_New openf path (bo_table db) now m f = (Some db2, True, m2, f2) \<and>
           (p_databases (w_provider w2) = [db2] \<longrightarrow>
              (\<exists>ref w3. provider_Read (bolt_ops reg) sid expires w2 = (Ret ref, w3) \<and>
                 revived reg (w_mem w) st (s_lifetime (w_heap w ! i)) sid ref w3))))"
proof -
  obtain w1 db1 where set: "Session_set (bolt_ops reg) i key v imm w = (Ret (), w1)"
    "p_databases (w_provider w1) = [db1]" "bolt_ready db1" "bolt_stored db1 sid = Some b"
    "\<exists>p. db1 = db_Sync (bolt_ops reg) (w_now w) (w_mem w) p db"
    using bolt_map.set_stored [OF assms(1,2,4-9)] by blast
  then have table: "bo_table db1 = bo_table db" by (auto simp: bolt_ops_def)
  have alive: "\<not> blob_expired now b" "lt_Time (s_lifetime (w_heap w ! i)) = 0 \<or> w_now w2 \<le> lt_Time (s_lifetime (w_heap w ! i))"
    using assms(9,10) by (auto simp: RemoteStore_Serialize_def blob_expired_def split: option.splits)
  have "\<exists>db2 m2 f2. bolt_New openf path (bo_table db) now m f = (Some db2, True, m2, f2) \<and>
      bolt_ready db2 \<and> bolt_stored db2 sid = Some b" if "openf path = Some (bo_buckets db1)"
    using bolt_New_stored [where openf = openf and path = path and m = m, OF assms(13,3) that assms(14), of now] bolt_live_bucket [of db1] set(3,4) table assms(7) alive(1)
    by (auto simp: bolt_ready_def)
  moreover have "\<exists>ref w3. provider_Read (bolt_ops reg) sid expires w2 = (Ret ref, w3) \<and>
      revived reg (w_mem w) st (s_lifetime (w_heap w ! i)) sid ref w3"
    if "p_databases (w_provider w2) = [db2]" "bolt_ready db2" "bolt_stored db2 sid = Some b" for db2
    by (rule bolt_map.read_stored [OF assms(9) that(1,2) assms(7) that(3) alive(2) assms(11,12)])
  ultimately show ?thesis using set(1,2) by blast
qed

text \<open>A program with one session and an empty BoltDB database.\<close>

definition bolt_world :: "bolt_db world" where
  "bolt_world = \<lparr>w_now = 0, w_grow = (\<lambda>_. 0), w_timers = [], w_mem = [], w_pool = [],
     w_heap = [\<lparr>s_sid = ''x'', s_isNew = True, s_values = nil_store, s_flashes = [], s_mu = Unlocked,
                s_lifetime = zero_lifetime\<rparr>],
     w_provider = \<lparr>p_mu = Unlocked, p_sessions = [(''x'', 0)],
       p_databases = [\<lparr>bo_table = ''users'', bo_buckets = [(''users'', [])], bo_open = True, bo_async = False, bo_pending = []\<rparr>]\<rparr>\<rparr>"

theorem bolt_session_survives_restart_witness:
  "let reg = (\<lambda>_. False);
       w1 = snd (Session_set (bolt_ops reg) 0 ''n'' (VInt 7) False bolt_world);
       db1 = hd (p_databases (w_provider w1));
       db2 = the (fst (bolt_New (\<lambda>_. Some (bo_buckets db1)) ''s.db'' ''users'' 5 [] \<lparr>fs_nodes = [], fs_denied = (\<lambda>_. False)\<rparr>));
       w2 = bolt_world\<lparr>w_heap := [], w_provider := \<lparr>p_mu = Unlocked, p_sessions = [], p_databases = [db2]\<rparr>\<rparr>
   in \<exists>ref w3. provider_Read (bolt_ops reg) ''x'' 0 w2 = (Ret ref, w3) \<and>
        gob_entries reg (w_mem w3) (s_values (w_heap w3 ! ref)) = Some [(''n'', GInt 7)]"
proof -
  let ?reg = "\<lambda>_ :: gtype. False" and ?w = bolt_world
  let ?f = "\<lparr>fs_nodes = [], fs_denied = (\<lambda>_. False)\<rparr>"
  let ?st = "fst (Store_Save (w_grow ?w) ''n'' (VInt 7) False (s_values (w_heap ?w ! 0)))"
  let ?w1 = "snd (Session_set (bolt_ops ?reg) 0 ''n'' (VInt 7) False ?w)"
  let ?db1 = "hd (p_databases (w_provider ?w1))"
  let ?db2 = "the (fst (bolt_New (\<lambda>_. Some (bo_buckets ?db1)) ''s.db'' ''users'' 5 [] ?f))"
  let ?w2 = "?w\<lparr>w_heap := [], w_provider := \<lparr>p_mu = Unlocked, p_sessions = [], p_databases = [?db2]\<rparr>\<rparr>"
  have st: "store_elems ?st = [\<lparr>Key = ''n'', ValueRaw = VInt 7, immutable = False\<rparr>]"
    by (simp add: bolt_world_def Store_Save_def Let_def store_elems_def nil_store_def)
  have ser: "RemoteStore_Serialize ?reg (w_mem ?w) \<lparr>Values = ?st, Lifetime = s_lifetime (w_heap ?w ! 0)\<rparr> =
      (GobBytes [(''n'', GInt 7)] 0, False)"
    using st by (simp add: RemoteStore_Serialize_def gob_entries_def gob_depth_def bolt_world_def zero_lifetime_def)
  have gob: "gob_entries ?reg (w_mem ?w) ?st = Some [(''n'', GInt 7)]" using st by (simp add: gob_entries_def gob_depth_def)
  have ready: "bolt_ready (hd (p_databases (w_provider ?w)))"
    by (simp add: bolt_world_def bolt_ready_def bolt_live_def bolt_getBucket_def)
  have mk: "fst (os_MkdirAll (filepath_Dir ''s.db'') ?f)" by (simp add: os_MkdirAll_def list_ex_iff)
  have one: "p_databases (w_provider ?w) = [hd (p_databases (w_provider ?w))]" by (simp add: bolt_world_def)
  show ?thesis
    using bolt_session_survives_restart [OF one ready _ _ _ _ _ refl ser,
        where sid = "''x''" and ?w2.0 = ?w2 and expires = 0 and path = "''s.db''" and f = ?f and now = 5 and m = "[]"
        and openf = "\<lambda>_. Some (bo_buckets ?db1)"] gob mk
    unfolding Let_def
    by (auto simp: bolt_world_def zero_lifetime_def bolt_safe_def slice_ok_def nil_store_def revived_def Let_def)
qed

end
