(* ===== verification/SessionsSpec.thy ===== *)
theory SessionsSpec
  imports Machine
begin

text \<open>
  What the manager promises its users, as an abstract specification: without a database it is a map
  from session ids to maps from keys to entries. \<open>world_map\<close> is the abstraction function. \<open>live_world\<close>
  are the states in which every call returns: the invariant holds, no database is registered and no
  lock of the provider or of a registered session is held.

  Each operation on a live world is shown to return and to act on the abstract map: \<open>Set\<close>, \<open>Delete\<close>,
  \<open>Clear\<close> and \<open>Destroy\<close> change one entry, the getters change nothing, and \<open>Start\<close> and \<open>StartFasthttp\<close>
  add an empty session for a visitor who has none. The locale \<open>session_frontend\<close> is the contract of
  the latter two; the handlers of an application rely on it and not on the HTTP library.
\<close>

definition world_map :: "'d world \<Rightarrow> string \<rightharpoonup> (string \<rightharpoonup> Entry)" where
  "world_map w sid =
     map_option (\<lambda>ref. store_lookup (s_values (w_heap w ! ref))) (map_of (p_sessions (w_provider w)) sid)"

definition sessions_unlocked :: "'d world \<Rightarrow> bool" where
  "sessions_unlocked w =
     (\<forall>sid ref. map_of (p_sessions (w_provider w)) sid = Some ref \<longrightarrow> s_mu (w_heap w ! ref) = Unlocked)"

definition live_world :: "'d world \<Rightarrow> bool" where
  "live_world w = (wf_world (\<lambda>_. False) w \<and> provider_unlocked w \<and> sessions_unlocked w)"

text \<open>A program without databases: the contract of a database holds of none at all.\<close>

interpretation no_db: wf_database ops "\<lambda>_. False" for ops :: "'d dbops"
  by unfold_locales simp_all

lemma live_no_db: "live_world w \<Longrightarrow> p_databases (w_provider w) = []"
  by (cases "p_databases (w_provider w)") (simp_all add: live_world_def wf_world_def)

lemma live_session:
  assumes "live_world w" "map_of (p_sessions (w_provider w)) sid = Some ref"
  shows "ref < length (w_heap w)" "s_sid (w_heap w ! ref) = sid" "s_mu (w_heap w ! ref) = Unlocked"
    "wf_store (s_values (w_heap w ! ref))"
proof -
  have wf: "wf_sessions (p_sessions (w_provider w)) (w_heap w)" "list_all (wf_session (w_timers w)) (w_heap w)"
    using assms(1) by (simp_all add: live_world_def wf_world_def)
  show ref: "ref < length (w_heap w)" "s_sid (w_heap w ! ref) = sid"
    using wf_sessions_lookup [OF wf(1) assms(2)] by simp_all
  show "s_mu (w_heap w ! ref) = Unlocked"
    using assms by (auto simp: live_world_def sessions_unlocked_def)
  show "wf_store (s_values (w_heap w ! ref))"
    using wf(2) ref(1) by (simp add: list_all_length wf_session_def)
qed

text \<open>
  A change of one session object: the map changes at its id only, because registered ids have
  objects of their own.
\<close>

lemma world_map_set_session:
  assumes "live_world w" "map_of (p_sessions (w_provider w)) sid = Some ref"
    and "w_heap w' = (w_heap w)[ref := s]" "p_sessions (w_provider w') = p_sessions (w_provider w)"
  shows "world_map w' = (world_map w)(sid \<mapsto> store_lookup (s_values s))"
proof
  fix x
  have "ref' \<noteq> ref" if "map_of (p_sessions (w_provider w)) x = Some ref'" "x \<noteq> sid" for ref'
    using live_session(2) [OF assms(1)] assms(2) that by metis
  then show "world_map w' x = ((world_map w)(sid \<mapsto> store_lookup (s_values s))) x"
    using assms(2-4) live_session(1) [OF assms(1,2)]
    by (cases "map_of (p_sessions (w_provider w)) x") (auto simp: world_map_def)
qed

lemma live_set_session:
  assumes "live_world w" "map_of (p_sessions (w_provider w)) sid = Some ref" "s_mu s = Unlocked"
    and "w_heap w' = (w_heap w)[ref := s]" "p_sessions (w_provider w') = p_sessions (w_provider w)"
    and "p_mu (w_provider w') = p_mu (w_provider w)" "wf_world (\<lambda>_. False) w'"
  shows "live_world w'"
  using assms live_session(1) [OF assms(1,2)]
  by (auto simp: live_world_def sessions_unlocked_def provider_unlocked_def nth_list_update)

section \<open>The session methods\<close>

lemma Session_set_live:
  fixes w :: "'d world"
  assumes "live_world w" "map_of (p_sessions (w_provider w)) sid = Some ref" "world_map w sid = Some vals"
  shows "\<exists>w'. Session_set ops ref key v imm w = (Ret (), w') \<and> live_world w' \<and>
     p_sessions (w_provider w') = p_sessions (w_provider w) \<and> w_mem w' = w_mem w \<and>
     world_map w' = (world_map w)(sid \<mapsto> map_save key v imm vals)"
proof -
  let ?s = "after_set (w_grow w) key v imm (w_heap w ! ref)"
  note s = live_session [OF assms(1,2)]
  have "slice_ok (s_values (w_heap w ! ref))" using s(4) by (simp add: wf_store_def)
  then obtain p pool where set: "Session_set ops ref key v imm w =
      (Ret (), sync_world ops p pool (set_session ref ?s w))"
    using Session_set_unlocked [OF s(3)] by blast
  let ?w = "sync_world ops p pool (set_session ref ?s w)"
  have "wf_world (\<lambda>_. False) ?w"
    using no_db.wf_Session_set [of w ref ops key v imm] assms(1) s(1) set by (simp add: live_world_def)
  then have "live_world ?w"
    using s(3) by (intro live_set_session [OF assms(1,2)]) simp_all
  moreover have "store_lookup (s_values ?s) = map_save key v imm vals"
    using assms(2,3) s(4) by (auto simp: after_set_def store_lookup_Save map_save_def world_map_def)
  then have "world_map ?w = (world_map w)(sid \<mapsto> map_save key v imm vals)"
    using world_map_set_session [OF assms(1,2), of ?w ?s] by simp
  ultimately show ?thesis using set by simp
qed

lemma Session_Delete_live:
  fixes w :: "'d world"
  assumes "live_world w" "map_of (p_sessions (w_provider w)) sid = Some ref" "world_map w sid = Some vals"
  shows "\<exists>w'. Session_Delete ops ref key w = (Ret (vals key \<noteq> None), w') \<and> live_world w' \<and>
     p_sessions (w_provider w') = p_sessions (w_provider w) \<and> w_mem w' = w_mem w \<and>
     world_map w' = (world_map w)(sid \<mapsto> vals(key := None))"
proof -
  let ?s = "after_delete key (w_heap w ! ref)"
  note s = live_session [OF assms(1,2)]
  have vals: "vals = store_lookup (s_values (w_heap w ! ref))" using assms(2,3) by (simp add: world_map_def)
  have "slice_ok (s_values (w_heap w ! ref))" using s(4) by (simp add: wf_store_def)
  then obtain p pool where del: "Session_Delete ops ref key w =
      (Ret (vals key \<noteq> None), sync_world ops p pool (set_session ref ?s w))"
    using Session_Delete_unlocked [OF s(3)] vals by blast
  let ?w = "sync_world ops p pool (set_session ref ?s w)"
  have "wf_world (\<lambda>_. False) ?w"
    using no_db.wf_Session_Delete [of w ref ops key] assms(1) s(1) del by (simp add: live_world_def)
  then have "live_world ?w" using s(3) by (intro live_set_session [OF assms(1,2)]) simp_all
  moreover have "world_map ?w = (world_map w)(sid \<mapsto> vals(key := None))"
    using world_map_set_session [OF assms(1,2), of ?w ?s] s(4) vals
    by (simp add: after_delete_def store_lookup_Remove)
  ultimately show ?thesis using del by simp
qed

lemma Session_Clear_live:
  fixes w :: "'d world"
  assumes "live_world w" "map_of (p_sessions (w_provider w)) sid = Some ref"
  shows "\<exists>w'. Session_Clear ops ref w = (Ret (), w') \<and> live_world w' \<and>
     p_sessions (w_provider w') = p_sessions (w_provider w) \<and> w_mem w' = w_mem w \<and>
     world_map w' = (world_map w)(sid \<mapsto> Map.empty)"
proof -
  let ?s = "after_clear (w_heap w ! ref)"
  note s = live_session [OF assms]
  obtain p pool where clr: "Session_Clear ops ref w = (Ret (), sync_world ops p pool (set_session ref ?s w))"
    using Session_Clear_unlocked [OF s(3)] by blast
  let ?w = "sync_world ops p pool (set_session ref ?s w)"
  have "wf_world (\<lambda>_. False) ?w"
    using no_db.wf_Session_Clear [of w ref ops] assms(1) s(1) clr by (simp add: live_world_def)
  then have "live_world ?w" using s(3) by (intro live_set_session [OF assms]) simp_all
  moreover have "world_map ?w = (world_map w)(sid \<mapsto> Map.empty)"
    using world_map_set_session [OF assms, of ?w ?s] by (simp add: after_clear_def store_lookup_Reset)
  ultimately show ?thesis using clr by simp
qed

text \<open>A getter that leaves session and memory alone leaves the world alone.\<close>

lemma on_session_pure:
  "f (w_heap w ! ref, w_mem w) = (r, w_heap w ! ref, w_mem w) \<Longrightarrow> on_session ref f w = (r, w)"
  by (simp add: on_session_def set_session_def)

definition mutable_at :: "string \<Rightarrow> (string \<rightharpoonup> Entry) \<Rightarrow> bool" where
  "mutable_at key vals = (case vals key of None \<Rightarrow> True | Some e \<Rightarrow> \<not> immutable e)"

definition value_at :: "string \<Rightarrow> (string \<rightharpoonup> Entry) \<Rightarrow> val" where
  "value_at key vals = (case vals key of None \<Rightarrow> VNil | Some e \<Rightarrow> ValueRaw e)"

lemma Session_Get_live:
  assumes "live_world w" "map_of (p_sessions (w_provider w)) sid = Some ref" "world_map w sid = Some vals"
    and "mutable_at key vals"
  shows "Session_Get key (w_heap w ! ref, w_mem w) = (Ret (value_at key vals), w_heap w ! ref, w_mem w)"
proof (rule Session_Get_unlocked)
  note s = live_session [OF assms(1,2)]
  show "s_mu (w_heap w ! ref) = Unlocked" by (rule s(3))
  have "slice_ok (s_values (w_heap w ! ref))" using s(4) by (simp add: wf_store_def)
  then show "Store_Get key (s_values (w_heap w ! ref)) (w_mem w) = (Ret (value_at key vals), w_mem w)"
    using assms(2-4)
    by (auto simp: Store_Get_lookup world_map_def mutable_at_def value_at_def Entry_Value_mutable split: option.split)
qed

section \<open>Operations on one session\<close>

text \<open>
  \<open>session_op P f g\<close>: on a live world and a registered session whose values satisfy \<open>P\<close>, the operation
  \<open>f\<close> returns, and its result and the new values are those of the function \<open>g\<close>; no other session changes.
\<close>

definition session_op ::
  "((string \<rightharpoonup> Entry) \<Rightarrow> bool) \<Rightarrow> (nat \<Rightarrow> 'd world \<Rightarrow> 'a outcome \<times> 'd world) \<Rightarrow>
     ((string \<rightharpoonup> Entry) \<Rightarrow> 'a \<times> (string \<rightharpoonup> Entry)) \<Rightarrow> bool" where
  "session_op P f g =
     (\<forall>w sid ref vals. live_world w \<longrightarrow> map_of (p_sessions (w_provider w)) sid = Some ref \<longrightarrow>
        world_map w sid = Some vals \<longrightarrow> P vals \<longrightarrow>
        (\<exists>w'. f ref w = (Ret (fst (g vals)), w') \<and> live_world w' \<and> w_mem w' = w_mem w \<and>
           p_sessions (w_provider w') = p_sessions (w_provider w) \<and>
           world_map w' = (world_map w)(sid \<mapsto> snd (g vals))))"

named_theorems session_ops "operations on a session and what they do to its values"

lemma session_op_set [session_ops]:
  "session_op (\<lambda>_. True) (\<lambda>ref. Session_set ops ref key v imm) (\<lambda>vals. ((), map_save key v imm vals))"
  using Session_set_live [of _ _ _ _ ops key v imm] unfolding session_op_def by fastforce

lemma session_op_Set [session_ops]:
  "session_op (\<lambda>_. True) (\<lambda>ref. Session_Set ops ref key v) (\<lambda>vals. ((), map_save key v False vals))"
  unfolding Session_Set_def by (rule session_op_set)

lemma session_op_Delete [session_ops]:
  "session_op (\<lambda>_. True) (\<lambda>ref. Session_Delete ops ref key) (\<lambda>vals. (vals key \<noteq> None, vals(key := None)))"
  using Session_Delete_live [of _ _ _ _ ops key] unfolding session_op_def by fastforce

lemma session_op_Clear [session_ops]:
  "session_op (\<lambda>_. True) (Session_Clear ops) (\<lambda>vals. ((), Map.empty))"
  using Session_Clear_live [of _ _ _ ops] unfolding session_op_def by fastforce

lemma session_op_pure:
  assumes "\<And>(w :: 'd world) sid ref vals. live_world w \<Longrightarrow> map_of (p_sessions (w_provider w)) sid = Some ref \<Longrightarrow>
      world_map w sid = Some vals \<Longrightarrow> P vals \<Longrightarrow>
      f (w_heap w ! ref, w_mem w) = (Ret (g vals), w_heap w ! ref, w_mem w)"
  shows "session_op P (\<lambda>ref. on_session ref f :: 'd world \<Rightarrow> _) (\<lambda>vals. (g vals, vals))"
  unfolding session_op_def
proof (intro allI impI)
  fix w :: "'d world" and sid ref vals
  assume w: "live_world w" "map_of (p_sessions (w_provider w)) sid = Some ref" "world_map w sid = Some vals" "P vals"
  then have "on_session ref f w = (Ret (g vals), w)" by (intro on_session_pure assms)
  with w show "\<exists>w'. on_session ref f w = (Ret (fst (g vals, vals)), w') \<and> live_world w' \<and> w_mem w' = w_mem w \<and>
      p_sessions (w_provider w') = p_sessions (w_provider w) \<and> world_map w' = (world_map w)(sid \<mapsto> snd (g vals, vals))"
    by (simp add: fun_upd_idem)
qed

lemma session_op_GetString [session_ops]:
  "session_op (mutable_at key) (\<lambda>ref. on_session ref (Session_GetString key))
     (\<lambda>vals. (case value_at key vals of VString x \<Rightarrow> x | _ \<Rightarrow> [], vals))"
  by (rule session_op_pure, frule (3) Session_Get_live) (simp add: Session_GetString_def)

lemma session_op_GetBoolean [session_ops]:
  "session_op (mutable_at key) (\<lambda>ref. on_session ref (Session_GetBoolean key))
     (\<lambda>vals. (case value_at key vals of
        VBool b \<Rightarrow> (b, None) | v \<Rightarrow> (False, Some (IntParseError ''bool'' key v)), vals))"
  by (rule session_op_pure, frule (3) Session_Get_live) (simp add: Session_GetBoolean_def split: val.split)

text \<open>Two operations on the same session, one after the other.\<close>

lemma session_op_bind [session_ops]:
  fixes f :: "nat \<Rightarrow> 'd world \<Rightarrow> 'a outcome \<times> 'd world"
  assumes "session_op P f g" "\<And>a. session_op (Q a) (f' a) (g' a)"
  shows "session_op (\<lambda>vals. P vals \<and> Q (fst (g vals)) (snd (g vals)))
     (\<lambda>ref w. bind_out (f ref w) (\<lambda>a. f' a ref)) (\<lambda>vals. g' (fst (g vals)) (snd (g vals)))"
  unfolding session_op_def
proof (intro allI impI, elim conjE)
  fix w :: "'d world" and sid ref vals
  assume w: "live_world w" "map_of (p_sessions (w_provider w)) sid = Some ref" "world_map w sid = Some vals"
    and pq: "P vals" "Q (fst (g vals)) (snd (g vals))"
  obtain w1 where w1: "f ref w = (Ret (fst (g vals)), w1)" "live_world w1" "w_mem w1 = w_mem w"
    "p_sessions (w_provider w1) = p_sessions (w_provider w)" "world_map w1 = (world_map w)(sid \<mapsto> snd (g vals))"
    using assms(1) w pq(1) unfolding session_op_def by blast
  then have "map_of (p_sessions (w_provider w1)) sid = Some ref" "world_map w1 sid = Some (snd (g vals))"
    using w by simp_all
  then obtain w2 where "f' (fst (g vals)) ref w1 = (Ret (fst (g' (fst (g vals)) (snd (g vals)))), w2)" "live_world w2" "w_mem w2 = w_mem w1"
    "p_sessions (w_provider w2) = p_sessions (w_provider w1)"
    "world_map w2 = (world_map w1)(sid \<mapsto> snd (g' (fst (g vals)) (snd (g vals))))"
    using assms(2) w1(2) pq(2) unfolding session_op_def by blast
  with w1 show "\<exists>w'. bind_out (f ref w) (\<lambda>a. f' a ref) = (Ret (fst (g' (fst (g vals)) (snd (g vals)))), w') \<and>
      live_world w' \<and> w_mem w' = w_mem w \<and> p_sessions (w_provider w') = p_sessions (w_provider w) \<and>
      world_map w' = (world_map w)(sid \<mapsto> snd (g' (fst (g vals)) (snd (g vals))))"
    by simp
qed

section \<open>Destroying\<close>

lemma provider_Destroy_live:
  fixes w :: "'d world"
  assumes "live_world w"
  shows "\<exists>w'. provider_Destroy ops sid w = (Ret (), w') \<and> live_world w' \<and> w_mem w' = w_mem w \<and>
     world_map w' = (world_map w)(sid := None)"
proof -
  have wf: "wf_world (\<lambda>_. False) w" "p_mu (w_provider w) = Unlocked"
    using assms by (simp_all add: live_world_def provider_unlocked_def)
  obtain w' where w': "provider_Destroy ops sid w = (Ret (), w')" "p_mu (w_provider w') = Unlocked"
    "map_of (p_sessions (w_provider w')) = (map_of (p_sessions (w_provider w)))(sid := None)"
    using provider_Destroy_sessions [OF wf(2,1), of ops sid] by blast
  have same: "w_heap w' = w_heap w" "w_mem w' = w_mem w"
    using w'(1) wf(2) by (auto simp: provider_Destroy_def split: option.splits)
  have "wf_world (\<lambda>_. False) w'" using no_db.wf_provider_Destroy [OF wf(1), of ops sid] w'(1) by simp
  then have "live_world w'"
    using assms w' same by (auto simp: live_world_def provider_unlocked_def sessions_unlocked_def)
  then show ?thesis using w' same by (auto simp: world_map_def fun_eq_iff)
qed

lemma provider_UpdateExpiration_live:
  fixes w :: "'d world"
  assumes "live_world w"
  shows "\<exists>ok w'. provider_UpdateExpiration sid expires w = (Ret ok, w') \<and> live_world w' \<and> w_mem w' = w_mem w \<and>
     world_map w' = world_map w"
proof -
  have unl: "p_mu (w_provider w) = Unlocked" using assms by (simp add: live_world_def provider_unlocked_def)
  obtain ok ts where up: "provider_UpdateExpiration sid expires w = (Ret ok, w\<lparr>w_timers := ts\<rparr>)"
  proof (cases "expires \<le> 0")
    case True
    then show ?thesis using that [of False "w_timers w"] by (simp add: provider_UpdateExpiration_def)
  next
    case False
    show ?thesis
    proof (cases "map_of (p_sessions (w_provider w)) sid")
      case None
      with False unl that [of False "w_timers w"] show ?thesis
        by (auto simp: provider_UpdateExpiration_def provider_Lock_Unlock split: option.split)
    next
      case (Some ref)
      with False unl that [of True "LifeTime_Shift (w_now w) expires (s_lifetime (w_heap w ! ref)) (w_timers w)"]
      show ?thesis
        by (auto simp: provider_UpdateExpiration_def provider_Lock_Unlock split: option.split)
    qed
  qed
  have "wf_world (\<lambda>_. False) (w\<lparr>w_timers := ts\<rparr>)"
    using no_db.wf_UpdateExpiration [of w sid expires] assms up by (simp add: live_world_def)
  then have "live_world (w\<lparr>w_timers := ts\<rparr>)"
    using assms by (simp add: live_world_def provider_unlocked_def sessions_unlocked_def)
  then show ?thesis using up by (simp add: world_map_def fun_eq_iff)
qed

section \<open>Starting a session\<close>

text \<open>
  Who the visitor is: the id that the session will have, and whether it was generated. \<open>None\<close> when
  \<open>Decode\<close> or the generator panics.
\<close>

definition visitor :: "string \<Rightarrow> 'd Sessions \<Rightarrow> (string \<times> bool) option" where
  "visitor raw s =
     (case decodeCookieValue raw s of
        (Ret sid, s1) \<Rightarrow>
          if sid = [] then (case SessionIDGenerator_call s1 of (Ret new, _) \<Rightarrow> Some (new, True) | _ \<Rightarrow> None)
          else Some (sid, False)
      | _ \<Rightarrow> None)"

definition start_map ::
  "string \<Rightarrow> bool \<Rightarrow> (string \<rightharpoonup> (string \<rightharpoonup> Entry)) \<Rightarrow> (string \<rightharpoonup> (string \<rightharpoonup> Entry))" where
  "start_map sid fresh A = (if fresh \<or> A sid = None then A(sid \<mapsto> Map.empty) else A)"

text \<open>The state after a start: the session \<open>ref\<close> is the one registered under \<open>sid\<close>.\<close>

definition started :: "'d Sessions \<Rightarrow> string \<Rightarrow> bool \<Rightarrow> nat \<Rightarrow> 'd Sessions \<Rightarrow> bool" where
  "started s sid fresh ref s' =
     (live_world (m_world s') \<and> m_config s' = m_config s \<and> w_mem (m_world s') = w_mem (m_world s) \<and>
      map_of (p_sessions (w_provider (m_world s'))) sid = Some ref \<and>
      world_map (m_world s') = start_map sid fresh (world_map (m_world s)) \<and>
      m_calls s + (if fresh then 1 else 0) \<le> m_calls s' \<and>
      (Encode (m_config s) = None \<and> Decode (m_config s) = None \<longrightarrow>
         m_calls s' = m_calls s + (if fresh then 1 else 0)))"

lemma store_vals_empty: "plain_store st \<Longrightarrow> store_vals st = Map.empty \<Longrightarrow> store_lookup st = Map.empty"
  using Store_Len_vals [of st] Store_Len_lookup [of st] by (simp add: plain_store_def wf_store_def)

lemma provider_Init_live:
  fixes w :: "'d world"
  assumes "live_world w"
  shows "\<exists>w'. provider_Init ops sid expires w = (Ret (length (w_heap w)), w') \<and> live_world w' \<and> w_mem w' = w_mem w \<and>
     map_of (p_sessions (w_provider w')) sid = Some (length (w_heap w)) \<and> length (w_heap w) < length (w_heap w') \<and>
     world_map w' = (world_map w)(sid \<mapsto> Map.empty)"
proof -
  have unl: "p_mu (w_provider w) = Unlocked" and wf: "wf_world (\<lambda>_. False) w"
    using assms by (simp_all add: live_world_def provider_unlocked_def)
  note nodb = live_no_db [OF assms]
  obtain w' sess where w': "provider_Init ops sid expires w = (Ret (length (w_heap w)), w')"
    "p_mu (w_provider w') = Unlocked" "w_heap w' = w_heap w @ [sess]"
    "p_sessions (w_provider w') = AList.update sid (length (w_heap w)) (p_sessions (w_provider w))"
    "s_mu sess = Unlocked" "plain_store (s_values sess)" "store_vals (s_values sess) = Map.empty"
    using provider_Init_plain [OF unl db_plain_no_db [OF nodb], of ops sid expires] db_values_no_db [OF nodb] by metis
  have mem: "w_mem w' = w_mem w"
    using w'(1) nodb unl
    by (auto simp: provider_Init_def newSession_def loadSessionFromDB_def Let_def split: prod.splits if_splits option.splits)
  have "wf_world (\<lambda>_. False) w'" using no_db.wf_provider_Init [OF wf w'(1)] by simp
  moreover have old: "ref < length (w_heap w)" if "map_of (p_sessions (w_provider w)) x = Some ref" for x ref
    using live_session(1) [OF assms that] .
  ultimately have "live_world w'"
    using assms w'(2-5)
    by (auto simp: live_world_def provider_unlocked_def sessions_unlocked_def map_of_update nth_append)
  moreover have "world_map w' x = ((world_map w)(sid \<mapsto> Map.empty)) x" for x
    using w'(3,4) store_vals_empty [OF w'(6,7)] old [of x]
    by (cases "map_of (p_sessions (w_provider w)) x") (auto simp: world_map_def map_of_update nth_append)
  ultimately show ?thesis using w' mem by (simp add: map_of_update ext)
qed

lemma mark_new_live:
  assumes "live_world w" "map_of (p_sessions (w_provider w)) sid = Some ref"
  shows "live_world (mark_new ref w)" "world_map (mark_new ref w) = world_map w"
proof -
  let ?s = "(w_heap w ! ref)\<lparr>s_isNew := (Store_Len (s_values (w_heap w ! ref)) = 0)\<rparr>"
  have eq: "mark_new ref w = set_session ref ?s w" by (simp add: mark_new_def Let_def)
  have "wf_world (\<lambda>_. False) (mark_new ref w)"
    using no_db.wf_mark_new [of w ref] assms(1) live_session(1) [OF assms] by (simp add: live_world_def)
  then show "live_world (mark_new ref w)"
    unfolding eq using live_session(3) [OF assms] by (intro live_set_session [OF assms]) simp_all
  show "world_map (mark_new ref w) = world_map w"
    unfolding eq using world_map_set_session [OF assms, of "set_session ref ?s w" ?s] assms(2)
    by (auto simp: world_map_def fun_upd_idem_iff)
qed

lemma provider_Read_live:
  fixes w :: "'d world"
  assumes "live_world w"
  shows "\<exists>ref w'. provider_Read ops sid expires w = (Ret ref, w') \<and> live_world w' \<and> w_mem w' = w_mem w \<and>
     map_of (p_sessions (w_provider w')) sid = Some ref \<and> world_map w' = start_map sid False (world_map w)"
proof (cases "map_of (p_sessions (w_provider w)) sid")
  case None
  have "p_mu (w_provider w) = Unlocked" using assms by (simp add: live_world_def provider_unlocked_def)
  then show ?thesis
    using provider_Init_live [OF assms, of ops sid expires] provider_Read_unknown [OF _ None, of ops expires] None
    by (auto simp: start_map_def world_map_def)
next
  case (Some ref)
  let ?s = "(w_heap w ! ref)\<lparr>s_flashes := filter (\<lambda>(key, v). \<not> shouldRemove v) (s_flashes (w_heap w ! ref))\<rparr>"
  have "p_mu (w_provider w) = Unlocked" using assms by (simp add: live_world_def provider_unlocked_def)
  then have read: "provider_Read ops sid expires w = (Ret ref, set_session ref ?s w)"
    using live_session(3) [OF assms Some] Some by (intro provider_Read_registered)
  have "wf_world (\<lambda>_. False) (set_session ref ?s w)"
    using no_db.wf_provider_Read [OF _ read] assms by (simp add: live_world_def)
  then have "live_world (set_session ref ?s w)"
    using live_session(3) [OF assms Some] by (intro live_set_session [OF assms Some]) simp_all
  moreover have "world_map (set_session ref ?s w) = start_map sid False (world_map w)"
    using world_map_set_session [OF assms Some, of "set_session ref ?s w" ?s] Some
    by (auto simp: world_map_def start_map_def fun_upd_idem_iff)
  ultimately show ?thesis using read Some by simp
qed

text \<open>What a function that writes the cookie may change: the response and the number of user calls.\<close>

definition writes_cookie :: "(string \<Rightarrow> duration \<Rightarrow> 'r \<times> 'd Sessions \<Rightarrow> 'r \<times> 'd Sessions) \<Rightarrow> bool" where
  "writes_cookie upd =
     (\<forall>sid e ws. m_world (snd (upd sid e ws)) = m_world (snd ws) \<and> m_config (snd (upd sid e ws)) = m_config (snd ws) \<and>
        m_calls (snd ws) \<le> m_calls (snd (upd sid e ws)) \<and>
        (Encode (m_config (snd ws)) = None \<longrightarrow> m_calls (snd (upd sid e ws)) = m_calls (snd ws)))"

text \<open>What a start does to the response: a cookie for a generated id, nothing otherwise.\<close>

definition cookie_effect ::
  "(string \<Rightarrow> duration \<Rightarrow> 'r \<times> 'd Sessions \<Rightarrow> 'r \<times> 'd Sessions) \<Rightarrow> 'd Sessions \<Rightarrow> string \<Rightarrow> bool \<Rightarrow> 'r \<Rightarrow> 'r \<Rightarrow> bool" where
  "cookie_effect upd s sid fresh c c' =
     (if fresh then \<exists>s1. m_config s1 = m_config s \<and> c' = fst (upd sid (Expires (m_config s)) (c, s1)) else c' = c)"

lemma start_with_live:
  fixes s :: "'d Sessions"
  assumes "writes_cookie upd" "live_world (m_world s)" "visitor raw s = Some (sid, fresh)"
  shows "\<exists>ref ws'. start_with ops raw upd (c, s) = (Ret ref, ws') \<and> started s sid fresh ref (snd ws') \<and>
     cookie_effect upd s sid fresh c (fst ws')"
proof -
  obtain cv s1 where dec: "decodeCookieValue raw s = (Ret cv, s1)"
    using assms(3) by (auto simp: visitor_def split: prod.splits outcome.splits)
  have s1: "m_world s1 = m_world s" "m_config s1 = m_config s" "Decode (m_config s) = None \<Longrightarrow> m_calls s1 = m_calls s"
    "m_calls s \<le> m_calls s1"
    using decodeCookieValue_frame [of raw s] dec
    by (auto simp: decodeCookieValue_def user_call_def split: if_splits option.splits)
  show ?thesis
  proof (cases "cv = []")
    case False
    with assms(3) dec have sid: "sid = cv" "\<not> fresh" by (auto simp: visitor_def)
    obtain ref w' where "provider_Read ops sid (Expires (m_config s)) (m_world s) = (Ret ref, w')" "live_world w'"
      "w_mem w' = w_mem (m_world s)" "map_of (p_sessions (w_provider w')) sid = Some ref"
      "world_map w' = start_map sid False (world_map (m_world s))"
      using provider_Read_live [OF assms(2)] by blast
    then show ?thesis using dec False s1 sid by (auto simp: start_with_def started_def on_world_def cookie_effect_def)
  next
    case True
    with assms(3) dec obtain s2 where gen: "SessionIDGenerator_call s1 = (Ret sid, s2)" "fresh"
      by (auto simp: visitor_def split: prod.splits outcome.splits)
    then have s2: "m_world s2 = m_world s" "m_config s2 = m_config s" "m_calls s2 = Suc (m_calls s1)"
      using generator_frame [of s1] s1 by (auto simp: SessionIDGenerator_call_def split: option.splits)
    obtain w' where w': "provider_Init ops sid (Expires (m_config s)) (m_world s) = (Ret (length (w_heap (m_world s))), w')"
      "live_world w'" "w_mem w' = w_mem (m_world s)"
      "map_of (p_sessions (w_provider w')) sid = Some (length (w_heap (m_world s)))"
      "world_map w' = (world_map (m_world s))(sid \<mapsto> Map.empty)"
      using provider_Init_live [OF assms(2)] by blast
    let ?ref = "length (w_heap (m_world s))"
    let ?s = "s2\<lparr>m_world := mark_new ?ref w'\<rparr>"
    have run: "start_with ops raw upd (c, s) = (Ret ?ref, upd sid (Expires (m_config s)) (c, ?s))"
      using dec True gen w'(1) s1 s2 by (simp add: start_with_def on_world_def)
    have "m_calls ?s \<le> m_calls (snd (upd sid (Expires (m_config s)) (c, ?s)))"
      using assms(1) unfolding writes_cookie_def by (metis snd_conv)
    then have "m_calls s + 1 \<le> m_calls (snd (upd sid (Expires (m_config s)) (c, ?s)))" using s1(4) s2(3) by simp
    then have "started s sid fresh ?ref (snd (upd sid (Expires (m_config s)) (c, ?s)))"
      using assms(1) mark_new_live [OF w'(2,4)] w' gen(2) s1 s2
      by (auto simp: started_def writes_cookie_def start_map_def)
    moreover have "cookie_effect upd s sid fresh c (fst (upd sid (Expires (m_config s)) (c, ?s)))"
      using gen(2) s2(2) by (simp add: cookie_effect_def) (intro exI [of _ ?s], simp)
    ultimately show ?thesis using run by blast
  qed
qed

lemma writes_cookie_net: "writes_cookie (updateCookie r)"
proof -
  have eq: "snd (updateCookie r sid e ws) = snd (encodeCookieValue sid (snd ws))" for sid e ws
    by (auto simp: updateCookie_def Let_def zero_cookie_def split: prod.split option.split)
  show ?thesis unfolding writes_cookie_def eq by (simp add: encodeCookieValue_def split: option.split)
qed

lemma writes_cookie_fasthttp:
  "writes_cookie (updateCookieFasthttp fh :: string \<Rightarrow> duration \<Rightarrow> 'c \<times> 'd Sessions \<Rightarrow> 'c \<times> 'd Sessions)"
proof -
  have "\<exists>v. snd (updateCookieFasthttp fh sid e ws) = snd (encodeCookieValue v (snd ws))"
    for sid e and ws :: "'c \<times> 'd Sessions"
    unfolding updateCookieFasthttp_def Let_def split_def snd_conv by (rule exI, rule refl)
  moreover have "m_calls (snd (encodeCookieValue v s)) = m_calls s" if "Encode (m_config s) = None"
    for v and s :: "'d Sessions"
    using that by (simp add: encodeCookieValue_def)
  moreover have "m_calls s \<le> m_calls (snd (encodeCookieValue v s))" for v and s :: "'d Sessions"
    by (simp add: encodeCookieValue_def user_call_def split: option.split)
  ultimately show ?thesis unfolding writes_cookie_def by (metis encodeCookieValue_frame)
qed

section \<open>The contract of a front end\<close>

text \<open>A call on the program state from a handler, which also has the response at hand.\<close>

definition session_call ::
  "('d world \<Rightarrow> 'a outcome \<times> 'd world) \<Rightarrow> 'c \<times> 'd Sessions \<Rightarrow> 'a outcome \<times> 'c \<times> 'd Sessions" where
  "session_call f = in_request (on_world f)"

lemma session_call_simp [simp]:
  "session_call f (c, s) = (fst (f (m_world s)), c, s\<lparr>m_world := snd (f (m_world s))\<rparr>)"
  by (simp add: session_call_def)

lemma session_call_bind:
  "bind_out (session_call f ws) (\<lambda>a. session_call (g a)) = session_call (\<lambda>w. bind_out (f w) g) ws"
  by (cases ws; cases "f (m_world (snd ws))"; cases "fst (f (m_world (snd ws)))") auto

text \<open>After a visit the visitor's session has the values \<open>vals\<close> and the other sessions are as before.\<close>

definition visited :: "'d Sessions \<Rightarrow> string \<Rightarrow> bool \<Rightarrow> (string \<rightharpoonup> Entry) \<Rightarrow> 'd Sessions \<Rightarrow> bool" where
  "visited s sid fresh vals s' =
     (live_world (m_world s') \<and> m_config s' = m_config s \<and> w_mem (m_world s') = w_mem (m_world s) \<and>
      world_map (m_world s') = (world_map (m_world s))(sid \<mapsto> vals) \<and>
      m_calls s + (if fresh then 1 else 0) \<le> m_calls s' \<and>
      (Encode (m_config s) = None \<and> Decode (m_config s) = None \<longrightarrow>
         m_calls s' = m_calls s + (if fresh then 1 else 0)))"

definition values_of :: "string \<Rightarrow> bool \<Rightarrow> (string \<rightharpoonup> (string \<rightharpoonup> Entry)) \<Rightarrow> (string \<rightharpoonup> Entry)" where
  "values_of sid fresh A = (if fresh then Map.empty else case A sid of None \<Rightarrow> Map.empty | Some vals \<Rightarrow> vals)"

lemma start_map_values: "start_map sid fresh A = A(sid \<mapsto> values_of sid fresh A)"
  by (auto simp: start_map_def values_of_def fun_upd_idem_iff split: option.split)

locale session_frontend =
  fixes start :: "'r \<Rightarrow> 'c \<times> 'd Sessions \<Rightarrow> nat outcome \<times> 'c \<times> 'd Sessions"
    and raw :: "'r \<Rightarrow> 'c \<times> 'd Sessions \<Rightarrow> string"
    and effect :: "'r \<Rightarrow> 'd Sessions \<Rightarrow> string \<Rightarrow> bool \<Rightarrow> 'c \<Rightarrow> 'c \<Rightarrow> bool"
  assumes start_returns: "live_world (m_world s) \<Longrightarrow> visitor (raw r (c, s)) s = Some (sid, fresh) \<Longrightarrow>
      \<exists>ref c' s'. start r (c, s) = (Ret ref, c', s') \<and> started s sid fresh ref s' \<and> effect r s sid fresh c c'"
begin

lemma start_op:
  assumes "session_op P f g" "live_world (m_world s)" "visitor (raw r (c, s)) s = Some (sid, fresh)"
    and "P (values_of sid fresh (world_map (m_world s)))"
  shows "\<exists>c' s'. bind_out (start r (c, s)) (\<lambda>ref. session_call (f ref)) =
      (Ret (fst (g (values_of sid fresh (world_map (m_world s))))), c', s') \<and> effect r s sid fresh c c' \<and>
     visited s sid fresh (snd (g (values_of sid fresh (world_map (m_world s))))) s'"
proof -
  obtain ref c' s1 where st: "start r (c, s) = (Ret ref, c', s1)" "started s sid fresh ref s1"
    "effect r s sid fresh c c'"
    using start_returns [OF assms(2,3)] by blast
  let ?vals = "values_of sid fresh (world_map (m_world s))"
  have "live_world (m_world s1)" "map_of (p_sessions (w_provider (m_world s1))) sid = Some ref"
    "world_map (m_world s1) sid = Some ?vals"
    using st(2) by (simp_all add: started_def start_map_values)
  then obtain w' where "f ref (m_world s1) = (Ret (fst (g ?vals)), w')" "live_world w'" "w_mem w' = w_mem (m_world s1)"
    "world_map w' = (world_map (m_world s1))(sid \<mapsto> snd (g ?vals))"
    using assms(1,4) unfolding session_op_def by blast
  then show ?thesis
    using st by (simp add: started_def visited_def start_map_values)
qed

end

text \<open>\<open>StartFasthttp\<close>, whatever the functions of package \<open>fasthttp\<close> do.\<close>

interpretation fasthttp_frontend: session_frontend "\<lambda>_ :: unit. StartFasthttp ops fh"
  "\<lambda>_ (ctx, s). GetCookieFasthttp fh ctx (Cookie (m_config s))" "\<lambda>_. cookie_effect (updateCookieFasthttp fh)"
  for ops :: "'d dbops" and fh :: "('c, 'k) fasthttp"
proof
  fix s :: "'d Sessions" and c sid fresh and r :: unit
  assume "live_world (m_world s)"
    "visitor (case (c, s) of (ctx, s) \<Rightarrow> GetCookieFasthttp fh ctx (Cookie (m_config s))) s = Some (sid, fresh)"
  then show "\<exists>ref c' s'. StartFasthttp ops fh (c, s) = (Ret ref, c', s') \<and> started s sid fresh ref s' \<and>
      cookie_effect (updateCookieFasthttp fh) s sid fresh c c'"
    using start_with_live [OF writes_cookie_fasthttp, of s "GetCookieFasthttp fh c (Cookie (m_config s))" sid fresh ops fh c]
    by (auto simp: StartFasthttp_def)
qed

end
