(* ===== verification/HttpApp.thy ===== *)
theory HttpApp
  imports SessionsSpec
begin

text \<open>
  A web server as the applications under \<^verbatim>\<open>_examples/\<close> use it: the response writer, the request
  multiplexer of package \<open>net/http\<close>, and a server that answers one request after the other.

  The header of a response can be changed until it is sent, by \<open>WriteHeader\<close> or by the first \<open>Write\<close>;
  \<open>rw_sent\<close> is what was sent. When a handler returns without writing, status 200 is sent. When it
  panics the server drops the connection, and when it blocks the client never gets an answer; the
  program state stays as the handler left it and other requests go on from there.
  The paths of requests are clean (the multiplexer redirects other ones before any handler runs).
\<close>

section \<open>The response writer\<close>

record ResponseWriter =
  rw_cookies :: "http_cookie list"
  rw_header :: "(string \<times> string) list"
  rw_sent :: "(nat \<times> http_cookie list \<times> (string \<times> string) list) option"
  rw_body :: string

definition new_writer :: ResponseWriter where
  "new_writer = \<lparr>rw_cookies = [], rw_header = [], rw_sent = None, rw_body = []\<rparr>"

definition Header_Set :: "string \<Rightarrow> string \<Rightarrow> ResponseWriter \<Rightarrow> ResponseWriter" where
  "Header_Set key v rw = rw\<lparr>rw_header := AList.update key v (rw_header rw)\<rparr>"

definition WriteHeader :: "nat \<Rightarrow> ResponseWriter \<Rightarrow> ResponseWriter" where
  "WriteHeader code rw =
     (case rw_sent rw of
        None \<Rightarrow> rw\<lparr>rw_sent := Some (code, rw_cookies rw, rw_header rw)\<rparr>
      | Some _ \<Rightarrow> rw)"

definition Write :: "string \<Rightarrow> ResponseWriter \<Rightarrow> ResponseWriter" where
  "Write text rw = (let rw1 = WriteHeader 200 rw in rw1\<lparr>rw_body := rw_body rw1 @ text\<rparr>)"

definition http_NotFound :: "ResponseWriter \<Rightarrow> ResponseWriter" where
  "http_NotFound rw =
     Write (''404 page not found'' @ [CHR 0x0A]) (WriteHeader 404
       (Header_Set ''X-Content-Type-Options'' ''nosniff''
         (Header_Set ''Content-Type'' ''text/plain; charset=utf-8'' rw)))"

text \<open>What the client gets: the status code, the body, the cookies and the header fields.\<close>

definition rw_status :: "ResponseWriter \<Rightarrow> nat option" where
  "rw_status rw = map_option fst (rw_sent rw)"

definition sent_cookies :: "ResponseWriter \<Rightarrow> http_cookie list" where
  "sent_cookies rw = (case rw_sent rw of None \<Rightarrow> [] | Some (code, cs, h) \<Rightarrow> cs)"

section \<open>Handlers\<close>

type_synonym 'd handler =
  "http_request \<Rightarrow> ResponseWriter \<times> 'd Sessions \<Rightarrow> unit outcome \<times> ResponseWriter \<times> 'd Sessions"

text \<open>A call of the manager sees the cookies of the response; a call of the writer returns.\<close>

definition with_cookies ::
  "(http_cookie list \<times> 'd Sessions \<Rightarrow> 'a outcome \<times> http_cookie list \<times> 'd Sessions) \<Rightarrow>
     ResponseWriter \<times> 'd Sessions \<Rightarrow> 'a outcome \<times> ResponseWriter \<times> 'd Sessions" where
  "with_cookies f = (\<lambda>(rw, s). let (r, cs, s') = f (rw_cookies rw, s) in (r, rw\<lparr>rw_cookies := cs\<rparr>, s'))"

definition respond :: "('c \<Rightarrow> 'c) \<Rightarrow> 'c \<times> 'd Sessions \<Rightarrow> unit outcome \<times> 'c \<times> 'd Sessions" where
  "respond f = (\<lambda>(c, s). (Ret (), f c, s))"

lemma with_cookies_simp [simp]:
  "with_cookies f (rw, s) =
     (fst (f (rw_cookies rw, s)), rw\<lparr>rw_cookies := fst (snd (f (rw_cookies rw, s)))\<rparr>, snd (snd (f (rw_cookies rw, s))))"
  by (simp add: with_cookies_def split: prod.split)

lemma respond_simp [simp]: "respond f (c, s) = (Ret (), f c, s)"
  by (simp add: respond_def)

text \<open>\<open>ServeMux\<close>: the handler of the path, else the one of \<open>/\<close>, else status 404.\<close>

definition ServeMux :: "(string \<times> 'd handler) list \<Rightarrow> string \<Rightarrow> 'd handler" where
  "ServeMux routes path r =
     (case map_of routes path of
        Some h \<Rightarrow> h r
      | None \<Rightarrow> (case map_of routes ''/'' of Some h \<Rightarrow> h r | None \<Rightarrow> respond http_NotFound))"

definition answer ::
  "(string \<times> 'd handler) list \<Rightarrow> string \<times> http_request \<Rightarrow> 'd Sessions \<Rightarrow> (unit outcome \<times> ResponseWriter) \<times> 'd Sessions" where
  "answer routes = (\<lambda>(path, r) s.
     let (res, rw, s') = ServeMux routes path r (new_writer, s)
     in ((res, if res = Ret () then WriteHeader 200 rw else rw), s'))"

fun answers ::
  "(string \<times> 'd handler) list \<Rightarrow> (string \<times> http_request) list \<Rightarrow> 'd Sessions
     \<Rightarrow> (unit outcome \<times> ResponseWriter) list \<times> 'd Sessions" where
  "answers routes [] s = ([], s)"
| "answers routes (q # qs) s =
     (let (a, s1) = answer routes q s; (as, s2) = answers routes qs s1 in (a # as, s2))"

text \<open>What a client sees of an answer: that it came, its status and its body.\<close>

definition seen :: "unit outcome \<times> ResponseWriter \<Rightarrow> unit outcome \<times> nat option \<times> string" where
  "seen = (\<lambda>(res, rw). (res, rw_status rw, rw_body rw))"

section \<open>Start as a front end\<close>

definition page :: "ResponseWriter \<Rightarrow> (nat \<times> http_cookie list \<times> (string \<times> string) list) option \<times> string" where
  "page rw = (rw_sent rw, rw_body rw)"

definition net_effect ::
  "http_request \<Rightarrow> 'd Sessions \<Rightarrow> string \<Rightarrow> bool \<Rightarrow> ResponseWriter \<Rightarrow> ResponseWriter \<Rightarrow> bool" where
  "net_effect r s sid fresh rw rw' =
     (\<exists>cs. rw' = rw\<lparr>rw_cookies := cs\<rparr> \<and> cookie_effect (updateCookie r) s sid fresh (rw_cookies rw) cs)"

interpretation net_frontend: session_frontend "\<lambda>r. with_cookies (Start ops r)"
  "\<lambda>r (rw, s). GetCookie r (Cookie (m_config s))" net_effect
  for ops :: "'d dbops"
proof
  fix s :: "'d Sessions" and c :: ResponseWriter and sid fresh r
  assume "live_world (m_world s)"
    "visitor (case (c, s) of (rw, s) \<Rightarrow> GetCookie r (Cookie (m_config s))) s = Some (sid, fresh)"
  then show "\<exists>ref c' s'. with_cookies (Start ops r) (c, s) = (Ret ref, c', s') \<and> started s sid fresh ref s' \<and>
      net_effect r s sid fresh c c'"
    using start_with_live [OF writes_cookie_net, of s "GetCookie r (Cookie (m_config s))" sid fresh ops r "rw_cookies c"]
    by (auto simp: Start_def net_effect_def)
qed

lemma net_effect_page: "net_effect r s sid fresh rw rw' \<Longrightarrow> page rw' = page rw"
  by (auto simp: net_effect_def page_def)

text \<open>A handler that starts the session, runs an operation on it and answers with the result.\<close>

lemma start_op_respond:
  fixes s :: "'d Sessions"
  assumes "session_op P f g" "live_world (m_world s)" "visitor (GetCookie r (Cookie (m_config s))) s = Some (sid, fresh)"
    and "P (values_of sid fresh (world_map (m_world s)))"
  shows "\<exists>rw' s'. bind_out (bind_out (with_cookies (Start ops r) (rw, s)) (\<lambda>ref. session_call (f ref))) (\<lambda>a. respond (h a)) =
      (Ret (), h (fst (g (values_of sid fresh (world_map (m_world s))))) rw', s') \<and> page rw' = page rw \<and>
     net_effect r s sid fresh rw rw' \<and> visited s sid fresh (snd (g (values_of sid fresh (world_map (m_world s))))) s'"
proof -
  obtain rw' s' where "bind_out (with_cookies (Start ops r) (rw, s)) (\<lambda>ref. session_call (f ref)) =
      (Ret (fst (g (values_of sid fresh (world_map (m_world s))))), rw', s')" "net_effect r s sid fresh rw rw'"
    "visited s sid fresh (snd (g (values_of sid fresh (world_map (m_world s))))) s'"
    using net_frontend.start_op [OF assms(1,2), of r rw sid fresh ops] assms(3,4) by auto
  then show ?thesis using net_effect_page [of r s sid fresh rw rw'] by auto
qed

lemma start_op_page:
  fixes s :: "'d Sessions"
  assumes "session_op P f g" "live_world (m_world s)" "visitor (GetCookie r (Cookie (m_config s))) s = Some (sid, fresh)"
    and "P (values_of sid fresh (world_map (m_world s)))"
  shows "\<exists>rw' s'. bind_out (with_cookies (Start ops r) (rw, s)) (\<lambda>ref. session_call (f ref)) =
      (Ret (fst (g (values_of sid fresh (world_map (m_world s))))), rw', s') \<and> page rw' = page rw \<and>
     visited s sid fresh (snd (g (values_of sid fresh (world_map (m_world s))))) s'"
proof -
  obtain rw' s' where "bind_out (with_cookies (Start ops r) (rw, s)) (\<lambda>ref. session_call (f ref)) =
      (Ret (fst (g (values_of sid fresh (world_map (m_world s))))), rw', s')" "net_effect r s sid fresh rw rw'"
    "visited s sid fresh (snd (g (values_of sid fresh (world_map (m_world s))))) s'"
    using net_frontend.start_op [OF assms(1,2), of r rw sid fresh ops] assms(3,4) by auto
  then show ?thesis using net_effect_page [of r s sid fresh rw rw'] by auto
qed

end
