(* ===== verification/LevelDB.thy ===== *)
theory LevelDB
  imports KV
begin

text \<open>
  Model of \<^verbatim>\<open>sessiondb/leveldb/database.go\<close>. \<open>le_pairs\<close> is the content of the LevelDB database in
  the order of its iterators. An iterator works on a snapshot, so deletions during an iteration do
  not disturb it; on a closed database it is empty and carries an error, and \<open>Put\<close> and \<open>Delete\<close>
  fail. LevelDB accepts every key, the empty one too. Opening the directory is a parameter of
  \<open>level_New\<close>: the pairs it holds, or \<open>None\<close> when \<open>leveldb.OpenFile\<close> fails. \<open>le_pending\<close> are the
  payloads of the goroutines that asynchronous mode has started.
\<close>

record level_db =
  le_pairs :: kv
  le_open :: bool
  le_async :: bool
  le_pending :: "SyncPayload list"

definition level_Cleanup :: "time \<Rightarrow> mem \<Rightarrow> level_db \<Rightarrow> bool \<times> mem \<times> level_db" where
  "level_Cleanup now m db =
     (if \<not> le_open db then (False, m, db)
      else let (m1, ps) = kv_sweep now (le_pairs db) m (le_pairs db) in (True, m1, db\<lparr>le_pairs := ps\<rparr>))"

definition level_Async :: "bool \<Rightarrow> level_db \<Rightarrow> level_db" where
  "level_Async useGoRoutines db = db\<lparr>le_async := useGoRoutines\<rparr>"

definition level_Load :: "time \<Rightarrow> string \<Rightarrow> mem \<Rightarrow> level_db \<Rightarrow> RemoteStore \<times> mem \<times> level_db" where
  "level_Load now sid m db =
     (if \<not> le_open db then (zero_remote, m, db)
      else case kv_find sid (le_pairs db) of
             None \<Rightarrow> (zero_remote, m, db)
           | Some v \<Rightarrow>
               (let (store, err, m1) = DecodeRemoteStore v m
                in (if err then zero_remote else store, m1, db)))"

definition level_destroy :: "string \<Rightarrow> level_db \<Rightarrow> bool \<times> level_db" where
  "level_destroy bsid db =
     (if \<not> le_open db then (False, db) else (True, db\<lparr>le_pairs := kv_delete bsid (le_pairs db)\<rparr>))"

definition level_Put :: "string \<Rightarrow> blob \<Rightarrow> level_db \<Rightarrow> bool \<times> level_db" where
  "level_Put key v db =
     (if \<not> le_open db then (False, db) else (True, db\<lparr>le_pairs := kv_put key v (le_pairs db)\<rparr>))"

text \<open>A serialisation error is logged, and the bytes written so far are stored all the same.\<close>

definition level_sync :: "(gtype \<Rightarrow> bool) \<Rightarrow> mem \<Rightarrow> SyncPayload \<Rightarrow> level_db \<Rightarrow> level_db" where
  "level_sync reg m p db =
     (if PAction p = ActionDestroy then snd (level_destroy (SessionID p) db)
      else let (s, err) = RemoteStore_Serialize reg m (PStore p) in snd (level_Put (SessionID p) s db))"

definition level_Sync :: "(gtype \<Rightarrow> bool) \<Rightarrow> time \<Rightarrow> mem \<Rightarrow> SyncPayload \<Rightarrow> level_db \<Rightarrow> level_db" where
  "level_Sync reg now m p db =
     (if le_async db then db\<lparr>le_pending := le_pending db @ [p]\<rparr> else level_sync reg m p db)"

text \<open>The goroutine at position \<open>i\<close> of the pending ones runs.\<close>

definition level_run_pending :: "(gtype \<Rightarrow> bool) \<Rightarrow> mem \<Rightarrow> nat \<Rightarrow> level_db \<Rightarrow> level_db" where
  "level_run_pending reg m i db =
     (if i < length (le_pending db)
      then level_sync reg m (le_pending db ! i) (db\<lparr>le_pending := without_nth i (le_pending db)\<rparr>)
      else db)"

definition level_Close :: "level_db \<Rightarrow> bool \<times> level_db" where
  "level_Close db = (le_open db, db\<lparr>le_open := False\<rparr>)"

text \<open>\<open>None\<close> is the nil database; the flag tells whether the error is nil. A nil service is \<open>None\<close>.\<close>

definition level_NewFromDB :: "kv option \<Rightarrow> time \<Rightarrow> mem \<Rightarrow> level_db option \<times> bool \<times> mem" where
  "level_NewFromDB service now m =
     (case service of
        None \<Rightarrow> (None, False, m)
      | Some ps \<Rightarrow>
          (let (ok, m1, db) = level_Cleanup now m
                 \<lparr>le_pairs = ps, le_open = True, le_async = False, le_pending = []\<rparr>
           in (Some db, ok, m1)))"

definition level_New ::
  "(string \<Rightarrow> kv option) \<Rightarrow> string \<Rightarrow> time \<Rightarrow> mem \<Rightarrow> level_db option \<times> bool \<times> mem" where
  "level_New openf directoryPath now m =
     (if directoryPath = [] then (None, False, m)
      else case openf directoryPath of
             None \<Rightarrow> (None, False, m)
           | Some ps \<Rightarrow> level_NewFromDB (Some ps) now m)"

definition level_ops :: "(gtype \<Rightarrow> bool) \<Rightarrow> level_db dbops" where
  "level_ops reg = \<lparr>db_Load = level_Load, db_Sync = level_Sync reg\<rparr>"

section \<open>The invariant\<close>

definition level_inv :: "level_db \<Rightarrow> bool" where
  "level_inv db = (kv_ok (le_pairs db) \<and> list_all (\<lambda>p. wf_store (Values (PStore p))) (le_pending db))"

lemma level_sync_pairs:
  "level_sync reg m p db =
     db\<lparr>le_pairs := (if le_open db then kv_synced p (fst (RemoteStore_Serialize reg m (PStore p))) (le_pairs db)
                     else le_pairs db)\<rparr>"
  by (simp add: level_sync_def level_destroy_def level_Put_def kv_synced_def case_prod_beta)

lemma level_inv_sync:
  "level_inv db \<Longrightarrow> wf_store (Values (PStore p)) \<Longrightarrow> level_inv (level_sync reg m p db)"
  by (simp add: level_inv_def level_sync_pairs kv_ok_synced blob_ok_Serialize)

lemma level_inv_run_pending:
  assumes "level_inv db"
  shows "level_inv (level_run_pending reg m i db)"
proof -
  have "level_inv (db\<lparr>le_pending := without_nth i (le_pending db)\<rparr>)"
    using assms by (simp add: level_inv_def list_all_without_nth)
  moreover have "i < length (le_pending db) \<Longrightarrow> wf_store (Values (PStore (le_pending db ! i)))"
    using assms by (simp add: level_inv_def list_all_length)
  ultimately show ?thesis using assms by (simp add: level_run_pending_def level_inv_sync)
qed

lemma level_inv_Cleanup: "level_inv db \<Longrightarrow> level_inv (snd (snd (level_Cleanup now m db)))"
  by (simp add: level_Cleanup_def level_inv_def case_prod_beta kv_ok_sweep)

lemma level_Load_find:
  "level_Load now sid m db =
     (let (r, m') = loads_blob (if le_open db then kv_find sid (le_pairs db) else None) m in (r, m', db))"
  using Decode_err by (auto simp: level_Load_def loads_blob_def DecodeRemoteStore_def case_prod_beta
      split: option.split blob.split)

interpretation level_wf: wf_database "level_ops reg" level_inv for reg
proof
  fix d now sid m r m' d'
  assume "level_inv d" "db_Load (level_ops reg) now sid m d = (r, m', d')"
  then show "wf_store (Values r) \<and> lt_timer (Lifetime r) = None \<and> level_inv d'"
    using zero_remote_wf DecodeRemoteStore_wf kv_find_ok
    by (fastforce simp: level_ops_def level_Load_find loads_blob_def level_inv_def
        split: if_splits option.splits prod.splits)
next
  fix d now m and p :: SyncPayload
  assume "level_inv d" "wf_store (Values (PStore p))"
  then show "level_inv (db_Sync (level_ops reg) now m p d)"
    using level_inv_sync [of d p reg m] by (simp add: level_ops_def level_Sync_def level_inv_def)
qed

section \<open>The LevelDB database as a map\<close>

definition level_live :: "level_db \<Rightarrow> bool" where
  "level_live db = (le_open db \<and> kv_sorted (le_pairs db))"

definition level_ready :: "level_db \<Rightarrow> bool" where
  "level_ready db = (level_live db \<and> \<not> le_async db)"

definition level_working :: "level_db \<Rightarrow> bool" where
  "level_working db = (level_live db \<and> le_async db)"

definition level_stored :: "level_db \<Rightarrow> string \<Rightarrow> blob option" where
  "level_stored db = map_of (le_pairs db)"

definition level_safe :: "string \<Rightarrow> bool" where
  "level_safe sid = (sid \<noteq> [])"

lemma level_sync_stored:
  assumes "level_live db"
  shows "level_live (level_sync reg m p db) \<and>
     level_stored (level_sync reg m p db) = (level_stored db)(SessionID p := synced_blob reg m p)"
  using assms by (simp add: level_live_def level_stored_def level_sync_pairs kv_sorted_synced map_of_kv_synced)

interpretation level_map: overwriting_database "level_ops reg" reg level_ready level_safe level_stored for reg
proof
  fix d sid now m r m' d'
  assume "level_ready d" "level_safe sid" "db_Load (level_ops reg) now sid m d = (r, m', d')"
  then show "level_ready d' \<and> (\<forall>x. level_safe x \<longrightarrow> level_stored d' x = level_stored d x) \<and>
      (r, m') = loads_blob (level_stored d sid) m"
    by (auto simp: level_ops_def level_ready_def level_live_def level_Load_find level_safe_def level_stored_def
        kv_find_map_of case_prod_beta)
next
  fix d now m x and p :: SyncPayload
  assume "level_ready d"
  then show "level_stored (db_Sync (level_ops reg) now m p d) x = ((level_stored d)(SessionID p := synced_blob reg m p)) x"
    and "level_ready (db_Sync (level_ops reg) now m p d)"
    using level_sync_stored [of d reg m p]
    by (simp_all add: level_ops_def level_Sync_def level_ready_def level_sync_pairs)
  then show "level_stored (db_Sync (level_ops reg) now m p d) x = ((level_stored d)(SessionID p := synced_blob reg m p)) x"
    by simp
qed

interpretation level_async: async_database "level_ops reg" reg level_working level_safe level_stored le_pending
  "level_run_pending reg" for reg
proof
  fix d now m d' and p :: SyncPayload
  assume "level_working d" "db_Sync (level_ops reg) now m p d = d'"
  then show "level_working d' \<and> le_pending d' = le_pending d @ [p] \<and> (\<forall>x. level_stored d' x = level_stored d x)"
    by (auto simp: level_ops_def level_Sync_def level_working_def level_live_def level_stored_def)
next
  fix d :: level_db and i m x
  let ?d = "d\<lparr>le_pending := without_nth i (le_pending d)\<rparr>"
  assume d: "level_working d" "i < length (le_pending d)"
  have "level_live ?d" "level_stored ?d = level_stored d"
    using d(1) by (simp_all add: level_working_def level_live_def level_stored_def)
  with d show "level_working (level_run_pending reg m i d) \<and>
      le_pending (level_run_pending reg m i d) = without_nth i (le_pending d)"
    and "level_stored (level_run_pending reg m i d) x =
      ((level_stored d)(SessionID (le_pending d ! i) := synced_blob reg m (le_pending d ! i))) x"
    using level_sync_stored [of ?d reg m "le_pending d ! i"]
    by (simp_all add: level_run_pending_def level_working_def level_sync_pairs)
qed

section \<open>Properties\<close>

text \<open>
  C26. The LevelDB database is a map from session ids to stores, in the same sense: on an open,
  synchronous database and for non-empty session ids, after any sequence of \<open>Sync\<close> calls whose
  payloads can be serialised, \<open>Load\<close>, which iterates over the whole database, returns exactly what
  decoding the last payload sent for the id gives, and calls for other ids have no influence.
\<close>

theorem level_database_is_a_map:
  assumes "level_ready db" "\<forall>(now, m, p)\<in>set cs. level_safe (SessionID p)" "list_all (serialisable reg) cs"
    and "level_safe sid"
  shows "\<exists>d'. level_Load now sid m (run_syncs (level_ops reg) cs db) =
     (fst (loads_blob (replay reg cs (level_stored db) sid) m), snd (loads_blob (replay reg cs (level_stored db) sid) m), d')"
  using level_map.load_value [OF assms, of now m] by (simp add: level_ops_def)

theorem level_database_is_a_map_witness:
  "let db = \<lparr>le_pairs = [(''a'', GobBroken)], le_open = True, le_async = False, le_pending = []\<rparr>
   in \<exists>d' r m'. level_Load 0 ''x'' [] (run_syncs (level_ops (\<lambda>_. False)) [(0, [], sample_payload ''x'')] db) = (r, m', d') \<and>
        Lifetime r = \<lparr>lt_Time = 9, lt_timer = None\<rparr>"
proof -
  let ?db = "\<lparr>le_pairs = [(''a'', GobBroken)], le_open = True, le_async = False, le_pending = []\<rparr>"
  have "level_ready ?db" by (simp add: level_ready_def level_live_def kv_sorted_Cons)
  then have "\<exists>d'. level_Load 0 ''x'' [] (run_syncs (level_ops (\<lambda>_. False)) [(0, [], sample_payload ''x'')] ?db) =
      (fst (loads_blob (Some (GobBytes [(''k'', GInt 1)] 9)) []), snd (loads_blob (Some (GobBytes [(''k'', GInt 1)] 9)) []), d')"
    using level_database_is_a_map [of ?db "[(0, [], sample_payload ''x'')]" "\<lambda>_. False" "''x''" 0 "[]"] sample_Serialize
    by (simp add: serialisable_def synced_blob_def level_safe_def sample_payload_def)
  then show ?thesis by (auto simp: loads_blob_def DecodeRemoteStore_def)
qed

text \<open>
  C32. Opening a LevelDB database removes exactly the sessions that have expired: \<open>New\<close> on a directory
  that LevelDB can open returns a database and no error, in which every session is as stored in
  the directory except those whose lifetime is over. An empty path or a failing \<open>OpenFile\<close> gives no
  database and an error.
\<close>

theorem level_New_removes_expired:
  assumes "\<forall>ps. openf path = Some ps \<longrightarrow> kv_sorted ps" "level_safe sid"
  shows "case (if path = [] then None else openf path) of
       None \<Rightarrow> level_New openf path now m = (None, False, m)
     | Some ps \<Rightarrow>
         \<exists>db m'. level_New openf path now m = (Some db, True, m') \<and> level_ready db \<and> level_stored db sid =
           (case map_of ps sid of
              Some (GobBytes es t) \<Rightarrow> if t \<noteq> 0 \<and> t < now then None else Some (GobBytes es t)
            | b \<Rightarrow> b)"
proof (cases "if path = [] then None else openf path")
  case (Some ps)
  then have a: "path \<noteq> []" "openf path = Some ps" "kv_sorted ps" using assms(1) by (auto split: if_splits)
  let ?sw = "kv_sweep now ps m ps"
  let ?db = "\<lparr>le_pairs = snd ?sw, le_open = True, le_async = False, le_pending = []\<rparr>"
  have "level_New openf path now m = (Some ?db, True, fst ?sw)"
    using a(1,2) by (simp add: level_New_def level_NewFromDB_def level_Cleanup_def case_prod_beta)
  moreover have "level_ready ?db" using kv_sorted_sweep [OF a(3)] by (simp add: level_ready_def level_live_def)
  moreover have "level_stored ?db sid =
       (case map_of ps sid of
          Some (GobBytes es t) \<Rightarrow> if t \<noteq> 0 \<and> t < now then None else Some (GobBytes es t)
        | b \<Rightarrow> b)"
    using kv_sweep_lookup [OF a(3) kv_sorted_distinct [OF a(3)], of now m sid] assms(2)
    by (auto simp: level_stored_def level_safe_def blob_expired_def split: option.split blob.split)
  ultimately show ?thesis using Some by auto
qed (auto simp: level_New_def split: if_splits)

theorem level_New_removes_expired_witness:
  "(\<exists>db m'. level_New (\<lambda>_. Some [(''a'', GobBytes [] 5), (''b'', GobBroken)]) ''d'' 10 [] = (Some db, True, m') \<and>
      level_stored db ''a'' = None) \<and>
   level_New (\<lambda>_. None) ''d'' 10 [] = (None, False, [])"
proof -
  have "kv_sorted [(''a'', GobBytes [] 5), (''b'', GobBroken)]" by (simp add: kv_sorted_Cons)
  then show ?thesis
    using level_New_removes_expired [of "\<lambda>_. Some [(''a'', GobBytes [] 5), (''b'', GobBroken)]" "''d''" "''a''" 10 "[]"]
      level_New_removes_expired [of "\<lambda>_. None" "''d''" "''a''" 10 "[]"]
    by (auto simp: level_safe_def)
qed

end
