(* ===== verification/BadgerDB.thy ===== *)
theory BadgerDB
  imports KV
begin

text \<open>
  Model of \<^verbatim>\<open>sessiondb/badger/database.go\<close> over the vendored Badger engine (its files
  \<^verbatim>\<open>iterator.go\<close> and \<^verbatim>\<open>transaction.go\<close>). \<open>ba_pairs\<close> are the live key-value pairs in the order of the
  keys; older versions and deletion markers are not kept. Operations are called on an open database.

  \<open>Cleanup\<close> deletes with \<open>txn.Delete(item.Key())\<close>, and \<open>Key\<close> returns the item's own byte slice, which
  the transaction keeps until the commit. The iterator recycles its items and their buffers, so
  the buffers are explicit here: \<open>bi_heap\<close> holds the byte arrays, a slice is an address and a
  length, \<open>bi_items\<close> the items (a pointer to one is its index), \<open>bi_data\<close> and \<open>bi_waste\<close> the queues of
  prefetched and of reusable items, \<open>bi_mi\<close> what the underlying merge iterator has still to
  deliver. \<open>grow\<close> gives the spare capacity that \<open>append\<close> chooses when it allocates.
\<close>

type_synonym bslice = "(nat \<times> nat) option"

definition slice_bytes :: "string list \<Rightarrow> bslice \<Rightarrow> string" where
  "slice_bytes h s = (case s of None \<Rightarrow> [] | Some (a, l) \<Rightarrow> take l (h ! a))"

definition Safecopy :: "(nat \<Rightarrow> nat) \<Rightarrow> bslice \<Rightarrow> string \<Rightarrow> string list \<Rightarrow> bslice \<times> string list" where
  "Safecopy grow a src h =
     (case a of
        None \<Rightarrow>
          if src = [] then (None, h)
          else (Some (length h, length src), h @ [src @ replicate (grow (length src)) (CHR 0x00)])
      | Some (adr, l) \<Rightarrow>
          if length src \<le> length (h ! adr) then (Some (adr, length src), h[adr := src @ drop (length src) (h ! adr)])
          else (Some (length h, length src), h @ [src @ replicate (grow (length src)) (CHR 0x00)]))"

section \<open>The iterator\<close>

record bitem =
  it_key :: bslice
  it_val :: blob

record biter =
  bi_mi :: kv
  bi_heap :: "string list"
  bi_items :: "bitem list"
  bi_item :: "nat option"
  bi_data :: "nat list"
  bi_waste :: "nat list"

definition iter_newItem :: "biter \<Rightarrow> nat \<times> biter" where
  "iter_newItem it =
     (case bi_waste it of
        [] \<Rightarrow> (length (bi_items it), it\<lparr>bi_items := bi_items it @ [\<lparr>it_key = None, it_val = GobBroken\<rparr>]\<rparr>)
      | i # w \<Rightarrow> (i, it\<lparr>bi_waste := w\<rparr>))"

definition iter_fill :: "(nat \<Rightarrow> nat) \<Rightarrow> nat \<Rightarrow> string \<Rightarrow> blob \<Rightarrow> biter \<Rightarrow> biter" where
  "iter_fill grow i k v it =
     (let (key, h) = Safecopy grow (it_key (bi_items it ! i)) k (bi_heap it)
      in it\<lparr>bi_heap := h, bi_items := (bi_items it)[i := \<lparr>it_key = key, it_val = v\<rparr>]\<rparr>)"

definition iter_setItem :: "nat \<Rightarrow> biter \<Rightarrow> biter" where
  "iter_setItem i it =
     (if bi_item it = None then it\<lparr>bi_item := Some i\<rparr> else it\<lparr>bi_data := bi_data it @ [i]\<rparr>)"

definition badgerPrefix :: string where
  "badgerPrefix = ''!badger!''"

definition internal_key :: "string \<Rightarrow> bool" where
  "internal_key k = (take (length badgerPrefix) k = badgerPrefix)"

definition iter_parseItem :: "(nat \<Rightarrow> nat) \<Rightarrow> biter \<Rightarrow> bool \<times> biter" where
  "iter_parseItem grow it =
     (case bi_mi it of
        [] \<Rightarrow> (False, it)
      | (k, v) # mi \<Rightarrow>
          if internal_key k then (False, it\<lparr>bi_mi := mi\<rparr>)
          else
            let (i, it1) = iter_newItem it
            in (True, iter_setItem i ((iter_fill grow i k v it1)\<lparr>bi_mi := mi\<rparr>)))"

lemma parseItem_mi: "bi_mi it \<noteq> [] \<Longrightarrow> iter_parseItem grow it = (b, it') \<Longrightarrow> bi_mi it' = tl (bi_mi it)"
  by (auto simp: iter_parseItem_def iter_newItem_def iter_fill_def iter_setItem_def case_prod_beta Let_def
      split: list.splits if_splits)

lemma parseItem_shorter:
  "(b, it') = iter_parseItem grow it \<Longrightarrow> bi_mi it \<noteq> [] \<Longrightarrow> length (bi_mi it') < length (bi_mi it)"
  using parseItem_mi [of it grow b it'] by (cases "bi_mi it") simp_all

function iter_prefetch :: "(nat \<Rightarrow> nat) \<Rightarrow> nat \<Rightarrow> biter \<Rightarrow> biter" where
  "iter_prefetch grow count it =
     (if count = 0 \<or> bi_mi it = [] then it
      else
        let (ok, it') = iter_parseItem grow it
        in iter_prefetch grow (if ok then count - 1 else count) it')"
  by pat_completeness auto
termination
  by (relation "measure (\<lambda>(grow, count, it). length (bi_mi it))")
    (auto intro: parseItem_shorter)

declare iter_prefetch.simps [simp del]

definition iter_Rewind :: "(nat \<Rightarrow> nat) \<Rightarrow> nat \<Rightarrow> kv \<Rightarrow> biter" where
  "iter_Rewind grow prefetchSize ps =
     iter_prefetch grow prefetchSize
       \<lparr>bi_mi = ps, bi_heap = [], bi_items = [], bi_item = None, bi_data = [], bi_waste = []\<rparr>"

function iter_advance :: "(nat \<Rightarrow> nat) \<Rightarrow> biter \<Rightarrow> biter" where
  "iter_advance grow it =
     (if bi_mi it = [] then it
      else
        let (ok, it') = iter_parseItem grow it
        in if ok then it' else iter_advance grow it')"
  by pat_completeness auto
termination
  by (relation "measure (\<lambda>(grow, it). length (bi_mi it))")
    (auto intro: parseItem_shorter)

declare iter_advance.simps [simp del]

definition iter_Next :: "(nat \<Rightarrow> nat) \<Rightarrow> biter \<Rightarrow> biter" where
  "iter_Next grow it =
     iter_advance grow
       (it\<lparr>bi_waste := bi_waste it @ (case bi_item it of None \<Rightarrow> [] | Some i \<Rightarrow> [i]),
           bi_item := (case bi_data it of [] \<Rightarrow> None | i # _ \<Rightarrow> Some i),
           bi_data := tl (bi_data it)\<rparr>)"

text \<open>The items still to be visited, the current one included.\<close>

definition iter_left :: "biter \<Rightarrow> nat" where
  "iter_left it = (if bi_item it = None then 0 else 1) + length (bi_data it) + length (bi_mi it)"

lemma iter_left_parseItem: "iter_left (snd (iter_parseItem grow it)) \<le> iter_left it"
  by (auto simp: iter_left_def iter_parseItem_def iter_newItem_def iter_fill_def iter_setItem_def case_prod_beta Let_def
      split: list.splits)

lemma iter_left_advance: "iter_left (iter_advance grow it) \<le> iter_left it"
proof (induction grow it rule: iter_advance.induct)
  case (1 grow it)
  obtain ok it' where p: "iter_parseItem grow it = (ok, it')" by (cases "iter_parseItem grow it")
  show ?case
    using 1 [OF _ p [symmetric] refl] iter_left_parseItem [of grow it]
    by (subst iter_advance.simps) (auto simp: p)
qed

lemma iter_left_Next: "bi_item it = Some i \<Longrightarrow> iter_left (iter_Next grow it) < iter_left it"
  unfolding iter_Next_def
  by (rule le_less_trans [OF iter_left_advance]) (auto simp: iter_left_def split: list.split)

section \<open>Transactions\<close>

definition maxKeySize :: nat where
  "maxKeySize = 2 ^ 20"

definition bad_key :: "string \<Rightarrow> bool" where
  "bad_key key = (length key = 0 \<or> length key > maxKeySize)"

text \<open>
  The pending deletions of an update transaction: the map \<open>pendingWrites\<close> from the key to the
  entry, whose own key is the slice that the caller passed.
\<close>

type_synonym txn_writes = "(string \<times> bslice) list"

definition txn_Delete :: "string list \<Rightarrow> bslice \<Rightarrow> txn_writes \<Rightarrow> bool \<times> txn_writes" where
  "txn_Delete h key w =
     (if bad_key (slice_bytes h key) then (False, w) else (True, AList.update (slice_bytes h key) key w))"

definition txn_Commit :: "string list \<Rightarrow> txn_writes \<Rightarrow> kv \<Rightarrow> kv" where
  "txn_Commit h w ps = fold (\<lambda>(_, key). kv_delete (slice_bytes h key)) w ps"

section \<open>The database\<close>

record badger_db =
  ba_pairs :: kv
  ba_open :: bool

text \<open>
  The loop of \<open>Cleanup\<close>; the flag tells whether some value did not decode or some deletion was
  refused, that is, whether \<open>errMsg\<close> is not empty.
\<close>

function badger_cleanup_loop ::
  "(nat \<Rightarrow> nat) \<Rightarrow> time \<Rightarrow> biter \<Rightarrow> mem \<Rightarrow> bool \<Rightarrow> txn_writes \<Rightarrow> biter \<times> mem \<times> bool \<times> txn_writes" where
  "badger_cleanup_loop grow now it m err w =
     (case bi_item it of
        None \<Rightarrow> (it, m, err, w)
      | Some i \<Rightarrow>
          let item = bi_items it ! i;
              (storeDB, derr, m1) = DecodeRemoteStore (it_val item) m;
              (err1, w1) =
                (if derr then (True, w)
                 else if LifeTime_HasExpired now (Lifetime storeDB)
                 then let (ok, w') = txn_Delete (bi_heap it) (it_key item) w in (err \<or> \<not> ok, w')
                 else (err, w))
          in badger_cleanup_loop grow now (iter_Next grow it) m1 err1 w1)"
  by pat_completeness auto
termination
  by (relation "measure (\<lambda>(grow, now, it, m, err, w). iter_left it)") (auto simp: iter_left_Next)

declare badger_cleanup_loop.simps [simp del]

definition PrefetchSize :: nat where
  "PrefetchSize = 100"

text \<open>The iterator is closed before the transaction is committed, and the error of the commit is ignored.\<close>

definition badger_Cleanup :: "(nat \<Rightarrow> nat) \<Rightarrow> time \<Rightarrow> mem \<Rightarrow> badger_db \<Rightarrow> bool \<times> mem \<times> badger_db" where
  "badger_Cleanup grow now m db =
     (let (it, m1, err, w) =
            badger_cleanup_loop grow now (iter_Rewind grow PrefetchSize (ba_pairs db)) m False []
      in (\<not> err, m1, db\<lparr>ba_pairs := txn_Commit (bi_heap it) w (ba_pairs db)\<rparr>))"

definition badger_Async :: "bool \<Rightarrow> badger_db \<Rightarrow> badger_db" where
  "badger_Async useGoRoutines db = db"

definition badger_Load :: "time \<Rightarrow> string \<Rightarrow> mem \<Rightarrow> badger_db \<Rightarrow> RemoteStore \<times> mem \<times> badger_db" where
  "badger_Load now sid m db =
     (if length sid = 0 then (zero_remote, m, db)
      else case map_of (ba_pairs db) sid of
             None \<Rightarrow> (zero_remote, m, db)
           | Some b \<Rightarrow> (let (storeDB, err, m1) = DecodeRemoteStore b m in (storeDB, m1, db)))"

definition badger_destroy :: "string \<Rightarrow> badger_db \<Rightarrow> bool \<times> badger_db" where
  "badger_destroy bsid db =
     (if bad_key bsid then (False, db) else (True, db\<lparr>ba_pairs := kv_delete bsid (ba_pairs db)\<rparr>))"

text \<open>A serialisation error is logged, and the bytes written so far are stored all the same.\<close>

definition badger_sync :: "(gtype \<Rightarrow> bool) \<Rightarrow> mem \<Rightarrow> SyncPayload \<Rightarrow> badger_db \<Rightarrow> badger_db" where
  "badger_sync reg m p db =
     (if PAction p = ActionDestroy then snd (badger_destroy (SessionID p) db)
      else
        let (s, err) = RemoteStore_Serialize reg m (PStore p)
        in if bad_key (SessionID p) then db else db\<lparr>ba_pairs := kv_put (SessionID p) s (ba_pairs db)\<rparr>)"

definition badger_Sync :: "(gtype \<Rightarrow> bool) \<Rightarrow> time \<Rightarrow> mem \<Rightarrow> SyncPayload \<Rightarrow> badger_db \<Rightarrow> badger_db" where
  "badger_Sync reg now m p db = badger_sync reg m p db"

definition badger_Close :: "badger_db \<Rightarrow> badger_db" where
  "badger_Close db = db\<lparr>ba_open := False\<rparr>"

definition badger_NewFromDB ::
  "(nat \<Rightarrow> nat) \<Rightarrow> kv option \<Rightarrow> time \<Rightarrow> mem \<Rightarrow> badger_db option \<times> bool \<times> mem" where
  "badger_NewFromDB grow service now m =
     (case service of
        None \<Rightarrow> (None, False, m)
      | Some ps \<Rightarrow>
          (let (ok, m1, db) = badger_Cleanup grow now m \<lparr>ba_pairs = ps, ba_open = True\<rparr> in (Some db, ok, m1)))"

definition badger_New ::
  "(nat \<Rightarrow> nat) \<Rightarrow> (string \<Rightarrow> kv option) \<Rightarrow> string \<Rightarrow> time \<Rightarrow> mem \<Rightarrow> fs
     \<Rightarrow> badger_db option \<times> bool \<times> mem \<times> fs" where
  "badger_New grow openf directoryPath now m f =
     (if directoryPath = [] then (None, False, m, f)
      else
        let dir = (if last directoryPath \<noteq> CHR ''/'' then directoryPath @ ''/'' else directoryPath);
            (ok, f1) = os_MkdirAll dir f
        in if \<not> ok then (None, False, m, f1)
           else case openf dir of
                  None \<Rightarrow> (None, False, m, f1)
                | Some ps \<Rightarrow> (let (db, err, m1) = badger_NewFromDB grow (Some ps) now m in (db, err, m1, f1)))"

definition badger_ops :: "(gtype \<Rightarrow> bool) \<Rightarrow> badger_db dbops" where
  "badger_ops reg = \<lparr>db_Load = badger_Load, db_Sync = badger_Sync reg\<rparr>"

section \<open>The Badger database as a map\<close>

definition badger_inv :: "badger_db \<Rightarrow> bool" where
  "badger_inv db = kv_ok (ba_pairs db)"

definition badger_ready :: "badger_db \<Rightarrow> bool" where
  "badger_ready db = (ba_open db \<and> kv_sorted (ba_pairs db))"

definition badger_safe :: "string \<Rightarrow> bool" where
  "badger_safe sid = (\<not> bad_key sid)"

definition badger_stored :: "badger_db \<Rightarrow> string \<Rightarrow> blob option" where
  "badger_stored db = map_of (ba_pairs db)"

lemma badger_sync_pairs:
  "badger_sync reg m p db =
     db\<lparr>ba_pairs := (if bad_key (SessionID p) then ba_pairs db
                     else kv_synced p (fst (RemoteStore_Serialize reg m (PStore p))) (ba_pairs db))\<rparr>"
  by (simp add: badger_sync_def badger_destroy_def kv_synced_def case_prod_beta)

lemma badger_Load_stored:
  "badger_Load now sid m db =
     (let (r, m') = loads_blob (if sid = [] then None else badger_stored db sid) m in (r, m', db))"
  by (simp add: badger_Load_def badger_stored_def loads_blob_def case_prod_beta split: option.split)

lemma kv_ok_map_of: "kv_ok ps \<Longrightarrow> map_of ps k = Some b \<Longrightarrow> blob_ok b"
  by (auto simp: kv_ok_def dest!: map_of_SomeD)

interpretation badger_wf: wf_database "badger_ops reg" badger_inv for reg
proof
  fix d now sid m r m' d'
  assume "badger_inv d" "db_Load (badger_ops reg) now sid m d = (r, m', d')"
  then show "wf_store (Values r) \<and> lt_timer (Lifetime r) = None \<and> badger_inv d'"
    using zero_remote_wf DecodeRemoteStore_wf kv_ok_map_of
    by (fastforce simp: badger_ops_def badger_Load_stored badger_stored_def loads_blob_def badger_inv_def
        split: if_splits option.splits prod.splits)
next
  fix d now m and p :: SyncPayload
  assume "badger_inv d" "wf_store (Values (PStore p))"
  then show "badger_inv (db_Sync (badger_ops reg) now m p d)"
    by (simp add: badger_ops_def badger_Sync_def badger_sync_pairs badger_inv_def kv_ok_synced blob_ok_Serialize)
qed

interpretation badger_map: overwriting_database "badger_ops reg" reg badger_ready badger_safe badger_stored for reg
proof
  fix d sid now m r m' d'
  assume "badger_ready d" "badger_safe sid" "db_Load (badger_ops reg) now sid m d = (r, m', d')"
  then show "badger_ready d' \<and> (\<forall>x. badger_safe x \<longrightarrow> badger_stored d' x = badger_stored d x) \<and>
      (r, m') = loads_blob (badger_stored d sid) m"
    by (auto simp: badger_ops_def badger_Load_stored badger_safe_def bad_key_def case_prod_beta)
next
  fix d now m x and p :: SyncPayload
  assume "badger_ready d" "badger_safe (SessionID p)"
  then show "badger_stored (db_Sync (badger_ops reg) now m p d) x =
      ((badger_stored d)(SessionID p := synced_blob reg m p)) x"
    and "badger_ready (db_Sync (badger_ops reg) now m p d)"
    by (simp_all add: badger_ops_def badger_Sync_def badger_sync_pairs badger_ready_def badger_safe_def
        badger_stored_def kv_sorted_synced map_of_kv_synced)
  then show "badger_stored (db_Sync (badger_ops reg) now m p d) x =
      ((badger_stored d)(SessionID p := synced_blob reg m p)) x" by simp
qed

end
