(* ===== verification/BadgerCleanup.thy ===== *)
theory BadgerCleanup
  imports BadgerDB
begin

text \<open>
  What \<open>Cleanup\<close> of the Badger database removes. The iterator delivers the pairs \<open>ks\<close> (those whose key
  is not internal to Badger) one after the other; with a prefetch size of \<open>P\<close>, pair \<open>i\<close> is held by
  the item \<open>i mod P\<close>, whose key buffer pair \<open>i + P\<close> takes over as soon as the loop leaves pair \<open>i\<close>. The
  transaction holds the buffers, so at the commit the deletion of pair \<open>i\<close> has become the deletion
  of the last pair with the same remainder. The invariant \<open>iter_filled\<close> describes the items after
  \<open>N\<close> pairs were fetched, \<open>iter_at\<close> the position \<open>j\<close> of the loop.
\<close>

definition visible :: "kv \<Rightarrow> kv" where
  "visible ps = filter (\<lambda>(k, v). \<not> internal_key k) ps"

definition keys_ok :: "nat \<Rightarrow> kv \<Rightarrow> bool" where
  "keys_ok P ks =
     ((\<forall>p\<in>set ks. \<not> bad_key (fst p)) \<and>
      (length ks \<le> P \<or> (\<forall>p\<in>set ks. length (fst p) = length (fst (hd ks)))))"

definition holds_pair :: "nat \<Rightarrow> kv \<Rightarrow> nat \<Rightarrow> biter \<Rightarrow> bool" where
  "holds_pair P ks i it =
     (bi_items it ! (i mod P) = \<lparr>it_key = Some (i mod P, length (fst (ks ! i))), it_val = snd (ks ! i)\<rparr> \<and>
      take (length (fst (ks ! i))) (bi_heap it ! (i mod P)) = fst (ks ! i))"

definition iter_filled :: "nat \<Rightarrow> kv \<Rightarrow> nat \<Rightarrow> biter \<Rightarrow> bool" where
  "iter_filled P ks N it =
     (visible (bi_mi it) = drop N ks \<and> N \<le> length ks \<and>
      length (bi_heap it) = min N P \<and> length (bi_items it) = min N P \<and>
      (\<forall>i<N. N \<le> i + P \<longrightarrow> holds_pair P ks i it))"

definition iter_at :: "nat \<Rightarrow> nat \<Rightarrow> nat \<Rightarrow> biter \<Rightarrow> bool" where
  "iter_at P j N it =
     (bi_item it = (if j < N then Some (j mod P) else None) \<and> bi_data it = map (\<lambda>i. i mod P) [Suc j..<N])"

lemma keys_ok_nth: "keys_ok P ks \<Longrightarrow> i < length ks \<Longrightarrow> \<not> bad_key (fst (ks ! i))"
  by (simp add: keys_ok_def)

lemma keys_ok_length:
  "keys_ok P ks \<Longrightarrow> P < length ks \<Longrightarrow> i < length ks \<Longrightarrow> j < length ks \<Longrightarrow> length (fst (ks ! i)) = length (fst (ks ! j))"
  by (simp add: keys_ok_def)

lemma mod_window: "(i::nat) < N \<Longrightarrow> N < i + P \<Longrightarrow> i mod P \<noteq> N mod P"
proof
  assume i: "i < N" "N < i + P" and eq: "i mod P = N mod P"
  then have "P dvd N - i" using mod_eq_dvd_iff_nat [of i N P] by simp
  with i show False using dvd_imp_le [of P "N - i"] by auto
qed

section \<open>Fetching a pair\<close>

text \<open>\<open>iter_put\<close> is the effect of fetching pair \<open>N\<close> on the buffers and items.\<close>

definition iter_put :: "(nat \<Rightarrow> nat) \<Rightarrow> string \<Rightarrow> blob \<Rightarrow> biter \<Rightarrow> biter" where
  "iter_put grow k v it = (let (i, it1) = iter_newItem it in iter_fill grow i k v it1)"

lemma parseItem_internal:
  "bi_mi it = (k, v) # mi \<Longrightarrow> internal_key k \<Longrightarrow> iter_parseItem grow it = (False, it\<lparr>bi_mi := mi\<rparr>)"
  by (simp add: iter_parseItem_def)

lemma parseItem_visible:
  "bi_mi it = (k, v) # mi \<Longrightarrow> \<not> internal_key k \<Longrightarrow>
     iter_parseItem grow it = (True, iter_setItem (fst (iter_newItem it)) ((iter_put grow k v it)\<lparr>bi_mi := mi\<rparr>))"
  by (simp add: iter_parseItem_def iter_put_def case_prod_beta Let_def)

lemma iter_put_fresh:
  assumes "keys_ok P ks" "iter_filled P ks N it" "N < length ks" "ks ! N = (k, v)" "N < P" "bi_waste it = []"
    and "it' = iter_put grow k v it"
  shows "fst (iter_newItem it) = N mod P \<and> bi_waste it' = [] \<and> bi_item it' = bi_item it \<and> bi_data it' = bi_data it \<and>
     length (bi_heap it') = Suc N \<and> length (bi_items it') = Suc N \<and> (\<forall>i<Suc N. holds_pair P ks i it')"
proof -
  have k: "k \<noteq> []" using keys_ok_nth [OF assms(1,3)] assms(4) by (auto simp: bad_key_def)
  have l: "length (bi_heap it) = N" "length (bi_items it) = N" using assms(2,5) by (simp_all add: iter_filled_def)
  have it': "it' = it\<lparr>bi_heap := bi_heap it @ [k @ replicate (grow (length k)) (CHR 0x00)],
      bi_items := bi_items it @ [\<lparr>it_key = Some (N, length k), it_val = v\<rparr>]\<rparr>"
    using assms(6,7) k l by (simp add: iter_put_def iter_newItem_def iter_fill_def Safecopy_def nth_append list_update_append)
  have "holds_pair P ks i it'" if "i < Suc N" for i
  proof (cases "i = N")
    case True
    then show ?thesis using assms(4,5) l unfolding it' by (simp add: holds_pair_def nth_append)
  next
    case False
    then have "holds_pair P ks i it" "i < N" using assms(2,5) that by (simp_all add: iter_filled_def)
    then show ?thesis using assms(5) l unfolding it' by (simp add: holds_pair_def nth_append)
  qed
  then show ?thesis using assms(5,6) l unfolding it' by (simp add: iter_newItem_def)
qed

lemma iter_put_reused:
  assumes "0 < P" "keys_ok P ks" "iter_filled P ks N it" "N < length ks" "ks ! N = (k, v)" "P \<le> N"
    and "bi_waste it = [N mod P]" "it' = iter_put grow k v it"
  shows "fst (iter_newItem it) = N mod P \<and> bi_waste it' = [] \<and> bi_item it' = bi_item it \<and> bi_data it' = bi_data it \<and>
     length (bi_heap it') = P \<and> length (bi_items it') = P \<and> (\<forall>i<Suc N. Suc N \<le> i + P \<longrightarrow> holds_pair P ks i it')"
proof -
  let ?s = "N mod P"
  have l: "length (bi_heap it) = P" "length (bi_items it) = P" "?s < P"
    using assms(1,3,6) by (simp_all add: iter_filled_def)
  have "N - P < N" "(N - P) mod P = ?s" using assms(1,6) by (simp_all add: le_mod_geq [symmetric])
  then have old: "bi_items it ! ?s = \<lparr>it_key = Some (?s, length (fst (ks ! (N - P)))), it_val = snd (ks ! (N - P))\<rparr>"
    "take (length (fst (ks ! (N - P)))) (bi_heap it ! ?s) = fst (ks ! (N - P))"
    using assms(3,6) unfolding iter_filled_def holds_pair_def by (metis le_add_diff_inverse2 order_refl)+
  have len: "length (fst (ks ! (N - P))) = length k" using keys_ok_length [OF assms(2), of "N - P" N] assms(4,5,6) by simp
  have cap: "length k \<le> length (bi_heap it ! ?s)" using arg_cong [OF old(2), of length] len by simp
  have it': "it' = it\<lparr>bi_waste := [], bi_heap := (bi_heap it)[?s := k @ drop (length k) (bi_heap it ! ?s)],
      bi_items := (bi_items it)[?s := \<lparr>it_key = Some (?s, length k), it_val = v\<rparr>]\<rparr>"
    using assms(7,8) old(1) cap by (simp add: iter_put_def iter_newItem_def iter_fill_def Safecopy_def)
  have "holds_pair P ks i it'" if i: "i < Suc N" "Suc N \<le> i + P" for i
  proof (cases "i = N")
    case True
    then show ?thesis using assms(5) l unfolding it' by (simp add: holds_pair_def)
  next
    case False
    then have "i mod P \<noteq> ?s" "holds_pair P ks i it" using mod_window [of i N P] i assms(3) by (simp_all add: iter_filled_def)
    then show ?thesis unfolding it' by (simp add: holds_pair_def)
  qed
  then show ?thesis using assms(7) l unfolding it' by (simp add: iter_newItem_def)
qed

lemma parse_step:
  assumes "0 < P" "keys_ok P ks" "iter_filled P ks N it" "iter_at P j N it" "j \<le> N"
    and "bi_mi it = (k, v) # mi" "\<not> internal_key k" "bi_waste it = (if N < P then [] else [N mod P])"
  obtains it' where "iter_parseItem grow it = (True, it')" "N < length ks" "iter_filled P ks (Suc N) it'"
    "iter_at P j (Suc N) it'" "bi_waste it' = []"
proof -
  have vis: "(k, v) # visible mi = drop N ks" using assms(3,6,7) by (simp add: iter_filled_def visible_def)
  then have N: "N < length ks" by (cases "N < length ks") simp_all
  then have kv: "ks ! N = (k, v)" "visible mi = drop (Suc N) ks"
    by (simp_all add: vis [unfolded Cons_nth_drop_Suc [OF N, symmetric], simplified])
  let ?it = "iter_put grow k v it" and ?it' = "iter_setItem (N mod P) ((iter_put grow k v it)\<lparr>bi_mi := mi\<rparr>)"
  have put: "fst (iter_newItem it) = N mod P" "bi_waste ?it = []" "bi_item ?it = bi_item it" "bi_data ?it = bi_data it"
    "length (bi_heap ?it) = min (Suc N) P" "length (bi_items ?it) = min (Suc N) P"
    "\<forall>i<Suc N. Suc N \<le> i + P \<longrightarrow> holds_pair P ks i ?it"
    using iter_put_fresh [OF assms(2,3) N kv(1), of ?it grow] iter_put_reused [OF assms(1,2,3) N kv(1), of ?it grow] assms(8)
    by (cases "N < P"; simp)+
  have "iter_parseItem grow it = (True, ?it')" using parseItem_visible [OF assms(6,7)] put(1) by simp
  moreover have "iter_filled P ks (Suc N) ?it'"
    using put(5,6,7) kv(2) N by (simp add: iter_filled_def holds_pair_def iter_setItem_def)
  moreover have "iter_at P j (Suc N) ?it'"
    using put(3,4) assms(4,5) by (cases "j = N") (simp_all add: iter_at_def iter_setItem_def)
  moreover have "bi_waste ?it' = []" using put(2) by (simp add: iter_setItem_def)
  ultimately show thesis using N that by blast
qed

lemma parse_skip:
  assumes "iter_filled P ks N it" "iter_at P j N it" "bi_mi it = (k, v) # mi" "internal_key k"
  shows "iter_parseItem grow it = (False, it\<lparr>bi_mi := mi\<rparr>)" "iter_filled P ks N (it\<lparr>bi_mi := mi\<rparr>)"
    "iter_at P j N (it\<lparr>bi_mi := mi\<rparr>)"
  using assms by (simp_all add: parseItem_internal iter_filled_def iter_at_def visible_def holds_pair_def)

lemma iter_advance_spec:
  assumes "0 < P" "keys_ok P ks" "iter_filled P ks N it" "iter_at P j N it" "j \<le> N"
    and "N < length ks \<longrightarrow> bi_waste it = (if N < P then [] else [N mod P])"
  shows "let N' = min (length ks) (Suc N); it' = iter_advance grow it in
     iter_filled P ks N' it' \<and> iter_at P j N' it' \<and> (N < length ks \<longrightarrow> bi_waste it' = [])"
  using assms
proof (induction grow it rule: iter_advance.induct)
  case (1 grow it)
  show ?case
  proof (cases "bi_mi it")
    case Nil
    then have "length ks \<le> N" "iter_advance grow it = it"
      using "1.prems"(3) by (simp_all add: iter_filled_def visible_def iter_advance.simps)
    then show ?thesis using "1.prems"(3,4) by (simp add: Let_def iter_filled_def)
  next
    case (Cons p mi)
    obtain k v where mi: "bi_mi it = (k, v) # mi" using Cons by (cases p) simp
    show ?thesis
    proof (cases "internal_key k")
      case True
      note skip = parse_skip [OF "1.prems"(3,4) mi True]
      have "iter_advance grow it = iter_advance grow (it\<lparr>bi_mi := mi\<rparr>)"
        using skip(1) mi by (simp add: iter_advance.simps [of grow it])
      then show ?thesis
        using "1.IH" [OF _ skip(1) [of grow, symmetric] refl _ "1.prems"(1,2) skip(2,3) "1.prems"(5)] "1.prems"(6) mi
        by simp
    next
      case False
      have N: "N < length ks" using "1.prems"(3) mi False by (cases "N < length ks") (simp_all add: iter_filled_def visible_def)
      then have w: "bi_waste it = (if N < P then [] else [N mod P])" using "1.prems"(6) by simp
      obtain it' where "iter_parseItem grow it = (True, it')" "iter_filled P ks (Suc N) it'"
        "iter_at P j (Suc N) it'" "bi_waste it' = []"
        using parse_step [OF "1.prems"(1,2,3,4,5) mi False w, of grow] by metis
      then show ?thesis using mi N by (subst iter_advance.simps) (simp add: Let_def min_absorb2)
    qed
  qed
qed

lemma iter_prefetch_spec:
  assumes "0 < P" "keys_ok P ks" "iter_filled P ks N it" "iter_at P 0 N it" "bi_waste it = []" "N + count = P"
  shows "let N' = min (length ks) P; it' = iter_prefetch grow count it in
     iter_filled P ks N' it' \<and> iter_at P 0 N' it' \<and> bi_waste it' = []"
  using assms
proof (induction grow count it arbitrary: N rule: iter_prefetch.induct)
  case (1 grow count it)
  show ?case
  proof (cases "bi_mi it = [] \<or> count = 0")
    case True
    then have "min (length ks) P = N" "iter_prefetch grow count it = it"
      using "1.prems"(3,6) by (auto simp: iter_filled_def visible_def iter_prefetch.simps)
    then show ?thesis using "1.prems"(3,4,5) by (simp add: Let_def)
  next
    case False
    then obtain k v mi where mi: "bi_mi it = (k, v) # mi" and c: "\<not> (count = 0 \<or> bi_mi it = [])"
      by (cases "bi_mi it") auto
    show ?thesis
    proof (cases "internal_key k")
      case True
      note skip = parse_skip [OF "1.prems"(3,4) mi True]
      have "iter_prefetch grow count it = iter_prefetch grow count (it\<lparr>bi_mi := mi\<rparr>)"
        using skip(1) mi c by (simp add: iter_prefetch.simps [of grow count it])
      then show ?thesis
        using "1.IH" [OF c skip(1) [of grow, symmetric] refl "1.prems"(1,2), of N] skip(2,3) "1.prems"(5,6)
        by simp
    next
      case vis: False
      have w: "bi_waste it = (if N < P then [] else [N mod P])" using "1.prems"(5,6) c by simp
      obtain it' where it': "iter_parseItem grow it = (True, it')" "iter_filled P ks (Suc N) it'"
        "iter_at P 0 (Suc N) it'" "bi_waste it' = []"
        using parse_step [OF "1.prems"(1,2,3,4) le0 mi vis w, of grow] by metis
      have "iter_prefetch grow count it = iter_prefetch grow (count - 1) it'"
        using it'(1) c by (simp add: iter_prefetch.simps [of grow count it])
      then show ?thesis
        using "1.IH" [OF c it'(1) [symmetric] refl "1.prems"(1,2), of "Suc N"] it'(2,3,4) "1.prems"(6) c
        by simp
    qed
  qed
qed

section \<open>The loop\<close>

definition iter_pos :: "nat \<Rightarrow> kv \<Rightarrow> nat \<Rightarrow> biter \<Rightarrow> bool" where
  "iter_pos P ks j it =
     (iter_filled P ks (min (length ks) (j + P)) it \<and> iter_at P j (min (length ks) (j + P)) it \<and>
      (j + P < length ks \<longrightarrow> bi_waste it = []))"

lemma iter_pos_Rewind:
  assumes "0 < P" "keys_ok P (visible ps)"
  shows "iter_pos P (visible ps) 0 (iter_Rewind grow P ps)"
  using iter_prefetch_spec [OF assms, of 0 "\<lparr>bi_mi = ps, bi_heap = [], bi_items = [], bi_item = None, bi_data = [],
      bi_waste = []\<rparr>" P grow]
  by (simp add: iter_pos_def iter_Rewind_def Let_def iter_filled_def iter_at_def)

lemma iter_pos_Next:
  assumes "0 < P" "keys_ok P ks" "iter_pos P ks j it" "j < length ks"
  shows "iter_pos P ks (Suc j) (iter_Next grow it)"
proof -
  let ?N = "min (length ks) (j + P)"
  let ?it = "it\<lparr>bi_waste := bi_waste it @ (case bi_item it of None \<Rightarrow> [] | Some i \<Rightarrow> [i]),
      bi_item := (case bi_data it of [] \<Rightarrow> None | i # _ \<Rightarrow> Some i), bi_data := tl (bi_data it)\<rparr>"
  have j: "j < ?N" using assms(1,4) by simp
  have at: "bi_item it = Some (j mod P)" "bi_data it = map (\<lambda>i. i mod P) [Suc j..<?N]"
    using assms(3) j by (simp_all add: iter_pos_def iter_at_def)
  have "iter_filled P ks ?N ?it" using assms(3) by (simp add: iter_pos_def iter_filled_def holds_pair_def)
  moreover have "iter_at P (Suc j) ?N ?it"
  proof (cases "Suc j < ?N")
    case True
    with at(2) show ?thesis by (simp add: iter_at_def upt_rec [of "Suc j"])
  next
    case False
    then have "[Suc j..<?N] = []" "[Suc (Suc j)..<?N] = []" unfolding upt_eq_Nil_conv by linarith+
    with at(2) False show ?thesis by (simp only: iter_at_def) simp
  qed
  moreover have "?N < length ks \<longrightarrow> bi_waste ?it = (if ?N < P then [] else [?N mod P])"
    using assms(1,3) at(1) by (simp add: iter_pos_def min_def)
  ultimately have adv: "let N' = min (length ks) (Suc ?N); it' = iter_advance grow ?it in
     iter_filled P ks N' it' \<and> iter_at P (Suc j) N' it' \<and> (?N < length ks \<longrightarrow> bi_waste it' = [])"
    using iter_advance_spec [OF assms(1,2), of ?N ?it "Suc j" grow] j by simp
  have "min (length ks) (Suc ?N) = min (length ks) (Suc j + P)" by simp
  with adv show ?thesis by (simp add: iter_pos_def iter_Next_def Let_def min_def)
qed

lemma iter_pos_item:
  assumes "0 < P" "iter_pos P ks j it"
  shows "j < length ks \<Longrightarrow> bi_item it = Some (j mod P) \<and> holds_pair P ks j it"
    and "length ks \<le> j \<Longrightarrow> bi_item it = None"
  using assms by (auto simp: iter_pos_def iter_at_def iter_filled_def)

definition deletion :: "nat \<Rightarrow> kv \<Rightarrow> nat \<Rightarrow> string \<times> bslice" where
  "deletion P ks i = (fst (ks ! i), Some (i mod P, length (fst (ks ! i))))"

definition expired_at :: "time \<Rightarrow> kv \<Rightarrow> nat \<Rightarrow> bool" where
  "expired_at now ks i = blob_expired now (snd (ks ! i))"

lemma alist_update_fresh: "k \<notin> fst ` set w \<Longrightarrow> AList.update k v w = w @ [(k, v)]"
  by (induction w) auto

lemma cleanup_loop_step:
  assumes "0 < P" "keys_ok P ks" "iter_pos P ks j it" "j < length ks" "fst (ks ! j) \<notin> fst ` set w"
  shows "\<exists>m1. badger_cleanup_loop grow now it m err w =
     badger_cleanup_loop grow now (iter_Next grow it) m1 (err \<or> snd (ks ! j) = GobBroken)
       (if expired_at now ks j then w @ [deletion P ks j] else w)"
proof -
  obtain r derr m1 where dec: "DecodeRemoteStore (snd (ks ! j)) m = (r, derr, m1)"
    by (cases "DecodeRemoteStore (snd (ks ! j)) m") auto
  have derr: "derr \<longleftrightarrow> snd (ks ! j) = GobBroken" using dec
    by (cases "snd (ks ! j)") (auto simp: DecodeRemoteStore_def case_prod_beta Let_def)
  have exp: "LifeTime_HasExpired now (Lifetime r) = expired_at now ks j"
    using Decode_expired [of now "snd (ks ! j)" m] dec by (simp add: expired_at_def)
  have item: "bi_item it = Some (j mod P)" "it_val (bi_items it ! (j mod P)) = snd (ks ! j)"
    "it_key (bi_items it ! (j mod P)) = Some (j mod P, length (fst (ks ! j)))"
    "slice_bytes (bi_heap it) (Some (j mod P, length (fst (ks ! j)))) = fst (ks ! j)"
    using iter_pos_item(1) [OF assms(1,3,4)] by (simp_all add: holds_pair_def slice_bytes_def)
  have del: "txn_Delete (bi_heap it) (it_key (bi_items it ! (j mod P))) w = (True, w @ [deletion P ks j])"
    using keys_ok_nth [OF assms(2,4)] item(3,4) alist_update_fresh [OF assms(5)]
    by (simp add: txn_Delete_def deletion_def)
  have "expired_at now ks j \<Longrightarrow> snd (ks ! j) \<noteq> GobBroken" by (auto simp: expired_at_def blob_expired_def)
  then show ?thesis
    using derr exp item(1,2) del dec
    by (intro exI [of _ m1]) (auto simp: badger_cleanup_loop.simps [of grow now it m err w] Let_def)
qed

lemma cleanup_loop_spec:
  assumes "0 < P" "keys_ok P ks" "distinct (map fst ks)" "iter_pos P ks j it" "j \<le> length ks"
    and "fst ` set w \<subseteq> (\<lambda>i. fst (ks ! i)) ` {0..<j}"
    and "badger_cleanup_loop grow now it m err w = (it', m', err', w')"
  shows "iter_pos P ks (length ks) it' \<and> (err' \<longleftrightarrow> err \<or> (\<exists>i\<in>{j..<length ks}. snd (ks ! i) = GobBroken)) \<and>
     w' = w @ map (deletion P ks) (filter (expired_at now ks) [j..<length ks])"
  using assms(4-7)
proof (induction "length ks - j" arbitrary: j it m err w)
  case 0
  then have j: "j = length ks" by simp
  then have "bi_item it = None" using iter_pos_item(2) [OF assms(1) "0.prems"(1)] by simp
  with 0 j show ?case by (auto simp: badger_cleanup_loop.simps [of grow now it])
next
  case (Suc n)
  then have j: "j < length ks" by simp
  have fresh: "fst (ks ! j) \<notin> fst ` set w"
  proof
    assume "fst (ks ! j) \<in> fst ` set w"
    then obtain i where "i < j" "fst (ks ! j) = fst (ks ! i)" using Suc.prems(3) by auto
    then show False using assms(3) j by (auto simp: distinct_conv_nth)
  qed
  let ?w = "if expired_at now ks j then w @ [deletion P ks j] else w"
  obtain m1 where step: "badger_cleanup_loop grow now it m err w =
      badger_cleanup_loop grow now (iter_Next grow it) m1 (err \<or> snd (ks ! j) = GobBroken) ?w"
    using cleanup_loop_step [OF assms(1,2) Suc.prems(1) j fresh] by blast
  have n: "n = length ks - Suc j" "Suc j \<le> length ks" using Suc.hyps(2) j by simp_all
  have sub: "fst ` set ?w \<subseteq> (\<lambda>i. fst (ks ! i)) ` {0..<Suc j}"
    using Suc.prems(3) unfolding atLeast0_lessThan_Suc by (auto simp: deletion_def)
  have "iter_pos P ks (length ks) it' \<and>
      (err' \<longleftrightarrow> (err \<or> snd (ks ! j) = GobBroken) \<or> (\<exists>i\<in>{Suc j..<length ks}. snd (ks ! i) = GobBroken)) \<and>
      w' = ?w @ map (deletion P ks) (filter (expired_at now ks) [Suc j..<length ks])"
    by (rule Suc.hyps(1) [OF n(1) iter_pos_Next [OF assms(1,2) Suc.prems(1) j] n(2) sub
          Suc.prems(4) [unfolded step]])
  moreover have "[j..<length ks] = j # [Suc j..<length ks]" using j by (rule upt_conv_Cons)
  moreover have "{j..<length ks} = insert j {Suc j..<length ks}" using j by auto
  ultimately show ?case by auto
qed

section \<open>The commit\<close>

text \<open>The pair that ends up in the buffer of pair \<open>i\<close> when \<open>n\<close> pairs were fetched.\<close>

definition last_in_buffer :: "nat \<Rightarrow> nat \<Rightarrow> nat \<Rightarrow> nat" where
  "last_in_buffer P n i = i + P * ((n - 1 - i) div P)"

lemma last_in_buffer_window:
  assumes "0 < P" "i < n"
  shows "last_in_buffer P n i < n" "n \<le> last_in_buffer P n i + P" "last_in_buffer P n i mod P = i mod P"
proof -
  have "P * ((n - 1 - i) div P) + (n - 1 - i) mod P = n - 1 - i" "(n - 1 - i) mod P < P"
    using assms(1) by simp_all
  then show "last_in_buffer P n i < n" "n \<le> last_in_buffer P n i + P"
    using assms(2) unfolding last_in_buffer_def by linarith+
qed (simp add: last_in_buffer_def)

lemma last_in_buffer_small: "n \<le> P \<Longrightarrow> i < n \<Longrightarrow> last_in_buffer P n i = i"
  by (simp add: last_in_buffer_def)

lemma commit_key:
  assumes "0 < P" "keys_ok P ks" "iter_pos P ks (length ks) it" "i < length ks"
  shows "slice_bytes (bi_heap it) (snd (deletion P ks i)) = fst (ks ! last_in_buffer P (length ks) i)"
proof -
  let ?l = "last_in_buffer P (length ks) i"
  note l = last_in_buffer_window [OF assms(1,4)]
  have "holds_pair P ks ?l it" using assms(3) l(1,2) by (simp add: iter_pos_def iter_filled_def)
  moreover have "length (fst (ks ! ?l)) = length (fst (ks ! i))"
  proof (cases "length ks \<le> P")
    case True
    then show ?thesis using last_in_buffer_small [OF _ assms(4)] by simp
  next
    case False
    then show ?thesis by (intro keys_ok_length [OF assms(2) _ l(1) assms(4)]) simp
  qed
  ultimately show ?thesis using l(3) by (simp add: deletion_def slice_bytes_def holds_pair_def)
qed

lemma map_of_fold_kv_delete:
  "kv_sorted ps \<Longrightarrow> map_of (fold kv_delete qs ps) q = (if q \<in> set qs then None else map_of ps q)"
  by (induction qs arbitrary: ps) (auto simp: kv_sorted_delete map_of_kv_delete)

lemma kv_sorted_visible: "kv_sorted ps \<Longrightarrow> kv_sorted (visible ps)"
  unfolding kv_sorted_def visible_def sorted_wrt_map by (rule sorted_wrt_filter)

lemma txn_Commit_fold: "txn_Commit h w ps = fold kv_delete (map (\<lambda>e. slice_bytes h (snd e)) w) ps"
  unfolding txn_Commit_def fold_map by (rule fold_cong) (auto simp: fun_eq_iff)

text \<open>What \<open>Cleanup\<close> deletes.\<close>

lemma badger_Cleanup_deletes:
  assumes "kv_sorted (ba_pairs db)" "ks = visible (ba_pairs db)" "keys_ok PrefetchSize ks"
    and "ok = fst (badger_Cleanup grow now m db)" "db' = snd (snd (badger_Cleanup grow now m db))"
  shows "badger_stored db' q =
     (if \<exists>i<length ks. expired_at now ks i \<and> q = fst (ks ! last_in_buffer PrefetchSize (length ks) i)
      then None else badger_stored db q)"
    and "ok \<longleftrightarrow> (\<forall>i<length ks. snd (ks ! i) \<noteq> GobBroken)"
proof -
  let ?P = "PrefetchSize" and ?n = "length ks" and ?it = "iter_Rewind grow PrefetchSize (ba_pairs db)"
  have P: "0 < ?P" by (simp add: PrefetchSize_def)
  obtain it' m1 err w' where loop: "badger_cleanup_loop grow now ?it m False [] = (it', m1, err, w')"
    by (cases "badger_cleanup_loop grow now ?it m False []") auto
  have "distinct (map fst ks)" using kv_sorted_distinct [OF kv_sorted_visible [OF assms(1)]] assms(2) by simp
  then have spec: "iter_pos ?P ks ?n it'" "err \<longleftrightarrow> (\<exists>i\<in>{0..<?n}. snd (ks ! i) = GobBroken)"
    "w' = map (deletion ?P ks) (filter (expired_at now ks) [0..<?n])"
    using cleanup_loop_spec [OF P assms(3) _ _ _ _ loop] iter_pos_Rewind [OF P assms(3) [unfolded assms(2)], of grow]
      assms(2) by simp_all
  have res: "ok = (\<not> err)" "ba_pairs db' = txn_Commit (bi_heap it') w' (ba_pairs db)"
    using assms(4,5) loop by (simp_all add: badger_Cleanup_def)
  let ?qs = "map (\<lambda>i. fst (ks ! last_in_buffer ?P ?n i)) (filter (expired_at now ks) [0..<?n])"
  have "map (\<lambda>e. slice_bytes (bi_heap it') (snd e)) w' = ?qs"
    using commit_key [OF P assms(3) spec(1)] by (simp add: spec(3))
  then show "badger_stored db' q =
     (if \<exists>i<?n. expired_at now ks i \<and> q = fst (ks ! last_in_buffer ?P ?n i) then None else badger_stored db q)"
    using map_of_fold_kv_delete [OF assms(1), of ?qs q]
    by (auto simp: badger_stored_def res(2) txn_Commit_fold)
  show "ok \<longleftrightarrow> (\<forall>i<?n. snd (ks ! i) \<noteq> GobBroken)" using res(1) spec(2) by auto
qed

section \<open>Properties\<close>

text \<open>
  C27. The Badger database is a map from session ids to stores, in the same sense as the others: for
  session ids of 1 to 1048576 bytes, after any sequence of \<open>Sync\<close> calls whose payloads can be
  serialised, \<open>Load\<close> returns exactly what decoding the last payload sent for the id gives, and calls
  for other ids have no influence.
\<close>

theorem badger_database_is_a_map:
  assumes "badger_ready db" "\<forall>(now, m, p)\<in>set cs. badger_safe (SessionID p)" "list_all (serialisable reg) cs"
    and "badger_safe sid"
  shows "\<exists>d'. badger_Load now sid m (run_syncs (badger_ops reg) cs db) =
     (fst (loads_blob (replay reg cs (badger_stored db) sid) m), snd (loads_blob (replay reg cs (badger_stored db) sid) m), d')"
  using badger_map.load_value [OF assms, of now m] by (simp add: badger_ops_def)

theorem badger_database_is_a_map_witness:
  "let db = \<lparr>ba_pairs = [(''a'', GobBroken)], ba_open = True\<rparr>
   in \<exists>d' r m'. badger_Load 0 ''x'' [] (run_syncs (badger_ops (\<lambda>_. False)) [(0, [], sample_payload ''x'')] db) = (r, m', d') \<and>
        Lifetime r = \<lparr>lt_Time = 9, lt_timer = None\<rparr>"
proof -
  let ?db = "\<lparr>ba_pairs = [(''a'', GobBroken)], ba_open = True\<rparr>"
  have "badger_ready ?db" by (simp add: badger_ready_def kv_sorted_Cons)
  then have "\<exists>d'. badger_Load 0 ''x'' [] (run_syncs (badger_ops (\<lambda>_. False)) [(0, [], sample_payload ''x'')] ?db) =
      (fst (loads_blob (Some (GobBytes [(''k'', GInt 1)] 9)) []), snd (loads_blob (Some (GobBytes [(''k'', GInt 1)] 9)) []), d')"
    using badger_database_is_a_map [of ?db "[(0, [], sample_payload ''x'')]" "\<lambda>_. False" "''x''" 0 "[]"] sample_Serialize
    by (simp add: serialisable_def synced_blob_def badger_safe_def bad_key_def maxKeySize_def sample_payload_def)
  then show ?thesis by (auto simp: loads_blob_def DecodeRemoteStore_def)
qed

text \<open>
  C28. The iteration of \<open>Cleanup\<close> ends after exactly one round per pair: after \<open>j\<close> calls of \<open>Next\<close>
  following \<open>Rewind\<close> the iterator's item holds key and value of the \<open>j\<close>-th pair that is not internal to
  Badger, whatever buffers were recycled, and once all were visited the iterator is no longer valid. (With more
  than 100 pairs: for keys of one length, such as the default session ids.)
\<close>

theorem badger_iterator_visits_all:
  assumes "keys_ok PrefetchSize (visible ps)" "j \<le> length (visible ps)"
    and "it = (iter_Next grow ^^ j) (iter_Rewind grow PrefetchSize ps)"
  shows "if j < length (visible ps)
     then \<exists>i. bi_item it = Some i \<and>
        (slice_bytes (bi_heap it) (it_key (bi_items it ! i)), it_val (bi_items it ! i)) = visible ps ! j
     else bi_item it = None"
proof -
  have P: "0 < PrefetchSize" by (simp add: PrefetchSize_def)
  have "iter_pos PrefetchSize (visible ps) j ((iter_Next grow ^^ j) (iter_Rewind grow PrefetchSize ps))"
    using assms(2)
  proof (induction j)
    case 0
    show ?case using iter_pos_Rewind [OF P assms(1)] by simp
  next
    case (Suc j)
    then show ?case using iter_pos_Next [OF P assms(1), of j _ grow] by simp
  qed
  then have "iter_pos PrefetchSize (visible ps) j it" using assms(3) by simp
  then show ?thesis
    using iter_pos_item [OF P] by (auto simp: holds_pair_def slice_bytes_def)
qed

theorem badger_iterator_visits_all_witness:
  "let it = (iter_Next (\<lambda>_. 0) ^^ 1) (iter_Rewind (\<lambda>_. 0) PrefetchSize [(''!badger!x'', GobBroken), (''a'', GobBytes [] 5), (''b'', GobBytes [] 0)])
   in \<exists>i. bi_item it = Some i \<and>
        (slice_bytes (bi_heap it) (it_key (bi_items it ! i)), it_val (bi_items it ! i)) = (''b'', GobBytes [] 0)"
proof -
  let ?ps = "[(''!badger!x'', GobBroken), (''a'', GobBytes [] 5), (''b'', GobBytes [] 0)]"
  have v: "visible ?ps = [(''a'', GobBytes [] 5), (''b'', GobBytes [] 0)]"
    by (simp add: visible_def internal_key_def badgerPrefix_def)
  then have "keys_ok PrefetchSize (visible ?ps)" by (simp add: keys_ok_def bad_key_def maxKeySize_def)
  then show ?thesis
    using badger_iterator_visits_all [of ?ps 1 _ "\<lambda>_. 0", OF _ _ refl] v by (simp add: Let_def)
qed

text \<open>
  C31. With at most 100 pairs (the iterator's prefetch size) \<open>Cleanup\<close> is exact: it removes the
  sessions whose lifetime has expired and no others, and it reports an error if and only if some value
  does not decode.
\<close>

theorem badger_Cleanup_removes_expired:
  assumes "kv_sorted (ba_pairs db)" "\<forall>p\<in>set (ba_pairs db). badger_safe (fst p) \<and> \<not> internal_key (fst p)"
    and "length (ba_pairs db) \<le> PrefetchSize"
  shows "badger_stored (snd (snd (badger_Cleanup grow now m db))) sid =
       (case badger_stored db sid of
          Some (GobBytes es t) \<Rightarrow> if t \<noteq> 0 \<and> t < now then None else Some (GobBytes es t)
        | b \<Rightarrow> b) \<and>
     (fst (badger_Cleanup grow now m db) \<longleftrightarrow> GobBroken \<notin> snd ` set (ba_pairs db))"
proof -
  let ?ks = "ba_pairs db"
  have v: "?ks = visible ?ks" using assms(2) unfolding visible_def by (auto intro!: filter_True [symmetric])
  have ok: "keys_ok PrefetchSize ?ks" using assms(2,3) by (simp add: keys_ok_def badger_safe_def)
  note del = badger_Cleanup_deletes [OF assms(1) v ok refl refl]
  have "(\<exists>i<length ?ks. expired_at now ?ks i \<and> sid = fst (?ks ! last_in_buffer PrefetchSize (length ?ks) i)) \<longleftrightarrow>
      (\<exists>i<length ?ks. blob_expired now (snd (?ks ! i)) \<and> sid = fst (?ks ! i))"
    using last_in_buffer_small [OF assms(3)] by (auto simp: expired_at_def)
  also have "\<dots> \<longleftrightarrow> (\<exists>b. (sid, b) \<in> set ?ks \<and> blob_expired now b)"
    by (auto simp: in_set_conv_nth) (metis prod.collapse)
  finally have "badger_stored (snd (snd (badger_Cleanup grow now m db))) sid =
      (if \<exists>b. map_of ?ks sid = Some b \<and> blob_expired now b then None else map_of ?ks sid)"
    using del(1) [of grow now m sid] map_of_eq_Some_iff [OF kv_sorted_distinct [OF assms(1)]]
    by (simp add: badger_stored_def) blast
  moreover have "fst (badger_Cleanup grow now m db) \<longleftrightarrow> GobBroken \<notin> snd ` set ?ks"
    unfolding del(2) set_map [symmetric] in_set_conv_nth by auto
  ultimately show ?thesis
    by (auto simp: badger_stored_def blob_expired_def split: option.split blob.split)
qed

theorem badger_Cleanup_removes_expired_witness:
  "let db = \<lparr>ba_pairs = [(''a'', GobBytes [] 5), (''b'', GobBytes [] 50)], ba_open = True\<rparr>
   in badger_stored (snd (snd (badger_Cleanup (\<lambda>_. 0) 10 [] db))) ''a'' = None \<and>
      badger_stored (snd (snd (badger_Cleanup (\<lambda>_. 0) 10 [] db))) ''b'' = Some (GobBytes [] 50)"
proof -
  let ?db = "\<lparr>ba_pairs = [(''a'', GobBytes [] 5), (''b'', GobBytes [] 50)], ba_open = True\<rparr>"
  have "kv_sorted (ba_pairs ?db)" "\<forall>p\<in>set (ba_pairs ?db). badger_safe (fst p) \<and> \<not> internal_key (fst p)"
    "length (ba_pairs ?db) \<le> PrefetchSize"
    by (simp_all add: kv_sorted_Cons badger_safe_def bad_key_def maxKeySize_def internal_key_def badgerPrefix_def
        PrefetchSize_def)
  note cl = badger_Cleanup_removes_expired [OF this, of "\<lambda>_. 0" 10 "[]"]
  show ?thesis using cl [of "''a''"] cl [of "''b''"] by (simp add: badger_stored_def)
qed

text \<open>
  C37. With more than 100 sessions \<open>Cleanup\<close> removes the wrong ones. \<open>Cleanup\<close> hands the iterator's
  own key slice to \<open>txn.Delete\<close>, and the buffer has been overwritten when the transaction commits. If all
  session ids have the same length, as the default ids have, and an expired session at position \<open>j\<close>
  is followed by at least 100 others, then it stays in the database, and the last session of those at
  distance 100, 200, ... from it is deleted instead, expired or not.
\<close>

theorem badger_Cleanup_deletes_wrong_session:
  assumes "kv_sorted (ba_pairs db)" "\<forall>p\<in>set (ba_pairs db). badger_safe (fst p) \<and> \<not> internal_key (fst p)"
    and "\<forall>p\<in>set (ba_pairs db). length (fst p) = l" "ba_pairs db ! j = (sid, GobBytes es t)" "t \<noteq> 0" "t < now"
    and "j + 100 < length (ba_pairs db)" "i = j + 100 * ((length (ba_pairs db) - 1 - j) div 100)"
  shows "badger_stored (snd (snd (badger_Cleanup grow now m db))) sid = Some (GobBytes es t) \<and>
     badger_stored (snd (snd (badger_Cleanup grow now m db))) (fst (ba_pairs db ! i)) = None"
proof -
  let ?ks = "ba_pairs db" and ?n = "length (ba_pairs db)"
  have v: "?ks = visible ?ks" using assms(2) unfolding visible_def by (auto intro!: filter_True [symmetric])
  have "?ks \<noteq> []" using assms(7) by auto
  then have ok: "keys_ok PrefetchSize ?ks" using assms(2,3) by (simp add: keys_ok_def badger_safe_def)
  note del = badger_Cleanup_deletes(1) [OF assms(1) v ok refl refl]
  have P: "0 < PrefetchSize" "PrefetchSize = 100" by (simp_all add: PrefetchSize_def)
  have j: "j < ?n" "expired_at now ?ks j" using assms(4-7) by (simp_all add: expired_at_def blob_expired_def)
  have "sid \<noteq> fst (?ks ! last_in_buffer PrefetchSize ?n i')" if "i' < ?n" for i'
  proof
    assume "sid = fst (?ks ! last_in_buffer PrefetchSize ?n i')"
    then have "last_in_buffer PrefetchSize ?n i' = j"
      using kv_sorted_distinct [OF assms(1)] last_in_buffer_window(1) [OF P(1) that] j(1) assms(4)
      by (metis distinct_conv_nth fst_conv length_map nth_map)
    then show False using last_in_buffer_window(2) [OF P(1) that] assms(7) P(2) by simp
  qed
  moreover have "map_of ?ks sid = Some (GobBytes es t)"
    using map_of_eq_Some_iff [OF kv_sorted_distinct [OF assms(1)]] nth_mem [OF j(1)] assms(4) by simp
  ultimately show ?thesis
    using del j assms(8) P(2) by (auto simp: badger_stored_def last_in_buffer_def)
qed

lemma kv_sorted_chars:
  assumes "n \<le> 256"
  shows "kv_sorted (map (\<lambda>i. ([char_of (i::nat)], f i)) [0..<n])"
  using assms by (auto simp: kv_sorted_def sorted_wrt_map comp_def less_char_def sorted_wrt_iff_nth_less)

theorem badger_Cleanup_deletes_wrong_session_witness:
  "let db = \<lparr>ba_pairs = map (\<lambda>i. ([char_of (i::nat)], GobBytes [] (if i = 0 then 5 else 0))) [0..<101], ba_open = True\<rparr>
   in badger_stored (snd (snd (badger_Cleanup (\<lambda>_. 0) 10 [] db))) [char_of (0::nat)] = Some (GobBytes [] 5) \<and>
      badger_stored (snd (snd (badger_Cleanup (\<lambda>_. 0) 10 [] db))) [char_of (100::nat)] = None"
proof -
  let ?f = "\<lambda>i. ([char_of (i::nat)], GobBytes [] (if i = 0 then 5 else 0))"
  let ?db = "\<lparr>ba_pairs = map ?f [0..<101], ba_open = True\<rparr>"
  have sorted: "kv_sorted (ba_pairs ?db)" using kv_sorted_chars [of 101] by simp
  have safe: "\<forall>p\<in>set (ba_pairs ?db). badger_safe (fst p) \<and> \<not> internal_key (fst p)"
    "\<forall>p\<in>set (ba_pairs ?db). length (fst p) = 1"
    by (auto simp: badger_safe_def bad_key_def maxKeySize_def internal_key_def badgerPrefix_def)
  have "ba_pairs ?db ! 0 = ([char_of (0::nat)], GobBytes [] 5)" "fst (ba_pairs ?db ! 100) = [char_of (100::nat)]"
    by (simp_all del: upt_rec_numeral)
  then show ?thesis
    using badger_Cleanup_deletes_wrong_session [OF sorted safe, of 0 "[char_of (0::nat)]" "[]" 5 10 100 "\<lambda>_. 0" "[]"]
    by (simp del: upt_rec_numeral)
qed

end
