(* ===== verification/RedisService.thy ===== *)
theory RedisService
  imports DatabaseSpec
begin

text \<open>
  Model of \<^verbatim>\<open>sessiondb/redis/service/service.go\<close> and \<^verbatim>\<open>config.go\<close>, with the connection pool of the
  vendored Redis client (\<^verbatim>\<open>redigo/redis/pool.go\<close>).

  The Redis server and the network are outside the repository: a record \<open>'s redis_server\<close> of two
  operations, dialling and one command, over a state \<open>'s\<close> of which the definitions know nothing. A
  connection is a number. A command is answered by a value, by an error reply, or the connection
  breaks (\<open>ConnError\<close>), after which the pool does not keep it. \<open>redis_server_ok\<close> collects what is
  documented of a reachable server with a given address, password and databases; only theorems
  assume it.
\<close>

section \<open>Commands and replies\<close>

datatype redis_cmd =
    PING
  | AUTH string
  | SELECT string
  | GET string
  | SET string blob
  | SETEX string int blob
  | DEL string
  | SCAN int

datatype redis_val = RNil | RStatus string | RBulk blob | RInteger int | RArray "redis_val list"

datatype redis_reply = Reply redis_val | ReplyError | ConnError

record 's redis_server =
  srv_dial :: "string \<Rightarrow> string \<Rightarrow> 's \<Rightarrow> nat option \<times> 's"
  srv_do :: "time \<Rightarrow> nat \<Rightarrow> redis_cmd \<Rightarrow> 's \<Rightarrow> redis_reply \<times> 's"

definition reply_ok :: "redis_reply \<Rightarrow> bool" where
  "reply_ok r = (case r of Reply v \<Rightarrow> True | _ \<Rightarrow> False)"

section \<open>Configuration\<close>

record redis_config =
  Network :: string
  Addr :: string
  Password :: string
  RDatabase :: string
  MaxIdle :: int
  MaxActive :: int
  IdleTimeout :: duration
  Prefix :: string

definition DefaultRedisNetwork :: string where
  "DefaultRedisNetwork = ''tcp''"

definition DefaultRedisAddr :: string where
  "DefaultRedisAddr = ''127.0.0.1:6379''"

definition DefaultRedisIdleTimeout :: duration where
  "DefaultRedisIdleTimeout = 5 * 60 * Second"

definition redis_DefaultConfig :: redis_config where
  "redis_DefaultConfig =
     \<lparr>Network = DefaultRedisNetwork, Addr = DefaultRedisAddr, Password = [], RDatabase = [], MaxIdle = 0,
      MaxActive = 0, IdleTimeout = DefaultRedisIdleTimeout, Prefix = []\<rparr>"

section \<open>The pool\<close>

text \<open>
  \<open>pl_Dial\<close> tells which closure \<open>Connect\<close> has installed, none, the one that dials, or the one that
  dials and selects a database; the closures read the configuration when they run. \<open>pl_idle\<close> are the
  idle connections with the instant they were returned, the most recent first.
\<close>

datatype dialer = NoDial | DialPlain | DialSelect

record rpool =
  pl_Dial :: dialer
  pl_TestOnBorrow :: bool
  pl_MaxIdle :: int
  pl_MaxActive :: int
  pl_IdleTimeout :: duration
  pl_closed :: bool
  pl_active :: int
  pl_idle :: "(nat \<times> time) list"

definition zero_rpool :: rpool where
  "zero_rpool =
     \<lparr>pl_Dial = NoDial, pl_TestOnBorrow = False, pl_MaxIdle = 0, pl_MaxActive = 0, pl_IdleTimeout = 0,
      pl_closed = False, pl_active = 0, pl_idle = []\<rparr>"

text \<open>\<open>dial\<close>: open a connection and authenticate.\<close>

definition redis_dial :: "'s redis_server \<Rightarrow> time \<Rightarrow> string \<Rightarrow> string \<Rightarrow> string \<Rightarrow> 's \<Rightarrow> nat option \<times> 's" where
  "redis_dial srv now network addr pass s =
     (let network = (if network = [] then DefaultRedisNetwork else network);
          addr = (if addr = [] then DefaultRedisAddr else addr)
      in case srv_dial srv network addr s of
           (None, s1) \<Rightarrow> (None, s1)
         | (Some c, s1) \<Rightarrow>
             if pass \<noteq> [] then
               (let (r, s2) = srv_do srv now c (AUTH pass) s1 in (if reply_ok r then Some c else None, s2))
             else (Some c, s1))"

definition pool_dial ::
  "'s redis_server \<Rightarrow> time \<Rightarrow> redis_config \<Rightarrow> dialer \<Rightarrow> 's \<Rightarrow> nat option outcome \<times> 's" where
  "pool_dial srv now cfg d s =
     (case d of
        NoDial \<Rightarrow> (Panic ''invalid memory address or nil pointer dereference'', s)
      | DialPlain \<Rightarrow> (let (c, s1) = redis_dial srv now (Network cfg) (Addr cfg) (Password cfg) s in (Ret c, s1))
      | DialSelect \<Rightarrow>
          (case redis_dial srv now (Network cfg) (Addr cfg) (Password cfg) s of
             (None, s1) \<Rightarrow> (Ret None, s1)
           | (Some c, s1) \<Rightarrow>
               (let (r, s2) = srv_do srv now c (SELECT (RDatabase cfg)) s1
                in (Ret (if reply_ok r then Some c else None), s2))))"

text \<open>Close connections that have been idle for too long, oldest first.\<close>

definition pool_prune :: "time \<Rightarrow> rpool \<Rightarrow> rpool" where
  "pool_prune now p =
     (if pl_IdleTimeout p > 0 then
        (let keep = rev (dropWhile (\<lambda>(c, t). \<not> Time_After (Time_Add t (pl_IdleTimeout p)) now) (rev (pl_idle p)))
         in p\<lparr>pl_idle := keep, pl_active := pl_active p - int (length (pl_idle p) - length keep)\<rparr>)
      else p)"

text \<open>Take idle connections from the front until one passes the test.\<close>

fun pool_borrow ::
  "'s redis_server \<Rightarrow> time \<Rightarrow> (nat \<times> time) list \<Rightarrow> rpool \<Rightarrow> 's \<Rightarrow> nat option \<times> rpool \<times> 's" where
  "pool_borrow srv now [] p s = (None, p\<lparr>pl_idle := []\<rparr>, s)"
| "pool_borrow srv now ((c, t) # idle) p s =
     (if \<not> pl_TestOnBorrow p then (Some c, p\<lparr>pl_idle := idle\<rparr>, s)
      else
        let (r, s1) = srv_do srv now c PING s
        in if reply_ok r then (Some c, p\<lparr>pl_idle := idle\<rparr>, s1)
           else pool_borrow srv now idle (p\<lparr>pl_active := pl_active p - 1\<rparr>) s1)"

text \<open>\<open>None\<close> is the connection whose every method returns an error.\<close>

definition pool_get ::
  "'s redis_server \<Rightarrow> time \<Rightarrow> redis_config \<Rightarrow> rpool \<Rightarrow> 's \<Rightarrow> nat option outcome \<times> rpool \<times> 's" where
  "pool_get srv now cfg p s =
     (let p0 = pool_prune now p in
      case pool_borrow srv now (pl_idle p0) p0 s of
        (Some c, p1, s1) \<Rightarrow> (Ret (Some c), p1, s1)
      | (None, p1, s1) \<Rightarrow>
          if pl_closed p1 then (Ret None, p1, s1)
          else if pl_MaxActive p1 = 0 \<or> pl_active p1 < pl_MaxActive p1 then
            (let p2 = p1\<lparr>pl_active := pl_active p1 + 1\<rparr>
             in case pool_dial srv now cfg (pl_Dial p2) s1 of
                  (Ret (Some c), s2) \<Rightarrow> (Ret (Some c), p2, s2)
                | (Ret None, s2) \<Rightarrow> (Ret None, p2\<lparr>pl_active := pl_active p2 - 1\<rparr>, s2)
                | (e, s2) \<Rightarrow> (e, p2, s2))
          else (Ret None, p1, s1))"

definition pool_put :: "time \<Rightarrow> nat \<Rightarrow> bool \<Rightarrow> rpool \<Rightarrow> rpool" where
  "pool_put now c broken p =
     (if \<not> pl_closed p \<and> \<not> broken then
        (let idle = (c, now) # pl_idle p in
         if int (length idle) > pl_MaxIdle p
         then p\<lparr>pl_idle := butlast idle, pl_active := pl_active p - 1\<rparr>
         else p\<lparr>pl_idle := idle\<rparr>)
      else p\<lparr>pl_active := pl_active p - 1\<rparr>)"

definition pool_Close :: "rpool \<Rightarrow> rpool" where
  "pool_Close p = p\<lparr>pl_idle := [], pl_closed := True, pl_active := pl_active p - int (length (pl_idle p))\<rparr>"

section \<open>The service\<close>

record redis_service =
  Connected :: bool
  RConfig :: redis_config
  pool :: "rpool option"

datatype redis_error = ConnFailed | RedisFailed | KeyNotFound | UnexpectedType | RedisClosed

text \<open>
  \<open>c := r.pool.Get(); defer c.Close(); c.Do(cmd)\<close>. A connection that could not be had answers
  every command with an error.
\<close>

definition service_do ::
  "'s redis_server \<Rightarrow> time \<Rightarrow> redis_cmd \<Rightarrow> redis_service \<Rightarrow> 's
     \<Rightarrow> redis_reply outcome \<times> redis_service \<times> 's" where
  "service_do srv now cmd r s =
     (case pool r of
        None \<Rightarrow> (Panic ''invalid memory address or nil pointer dereference'', r, s)
      | Some p \<Rightarrow>
          (case pool_get srv now (RConfig r) p s of
             (Ret (Some c), p1, s1) \<Rightarrow>
               (let (reply, s2) = srv_do srv now c cmd s1
                in (Ret reply, r\<lparr>pool := Some (pool_put now c (reply = ConnError) p1)\<rparr>, s2))
           | (Ret None, p1, s1) \<Rightarrow> (Ret ConnError, r\<lparr>pool := Some p1\<rparr>, s1)
           | (Blocked, p1, s1) \<Rightarrow> (Blocked, r\<lparr>pool := Some p1\<rparr>, s1)
           | (Panic e, p1, s1) \<Rightarrow> (Panic e, r\<lparr>pool := Some p1\<rparr>, s1)))"

definition map_reply ::
  "(redis_reply \<Rightarrow> 'a) \<Rightarrow> redis_reply outcome \<times> redis_service \<times> 's \<Rightarrow> 'a outcome \<times> redis_service \<times> 's" where
  "map_reply f x =
     (case x of
        (Ret reply, r, s) \<Rightarrow> (Ret (f reply), r, s)
      | (Blocked, r, s) \<Rightarrow> (Blocked, r, s)
      | (Panic e, r, s) \<Rightarrow> (Panic e, r, s))"

text \<open>The second component tells whether the error is nil.\<close>

definition PingPong ::
  "'s redis_server \<Rightarrow> time \<Rightarrow> redis_service \<Rightarrow> 's \<Rightarrow> (bool \<times> bool) outcome \<times> redis_service \<times> 's" where
  "PingPong srv now r s =
     map_reply (\<lambda>reply. case reply of
         Reply msg \<Rightarrow> (msg = RStatus ''PONG'', True)
       | _ \<Rightarrow> (False, False))
       (service_do srv now PING r s)"

definition CloseConnection :: "redis_service \<Rightarrow> redis_error option \<times> redis_service" where
  "CloseConnection r =
     (case pool r of
        None \<Rightarrow> (Some RedisClosed, r)
      | Some p \<Rightarrow> (None, r\<lparr>pool := Some (pool_Close p)\<rparr>))"

definition reply_error :: "redis_reply \<Rightarrow> redis_error option" where
  "reply_error reply = (case reply of Reply v \<Rightarrow> None | ReplyError \<Rightarrow> Some RedisFailed | ConnError \<Rightarrow> Some ConnFailed)"

definition service_Set ::
  "'s redis_server \<Rightarrow> time \<Rightarrow> string \<Rightarrow> blob \<Rightarrow> int \<Rightarrow> redis_service \<Rightarrow> 's
     \<Rightarrow> redis_error option outcome \<times> redis_service \<times> 's" where
  "service_Set srv now key value secondsLifetime r s =
     map_reply reply_error
       (service_do srv now
          (if secondsLifetime > 0 then SETEX (Prefix (RConfig r) @ key) secondsLifetime value
           else SET (Prefix (RConfig r) @ key) value) r s)"

definition get_result :: "redis_reply \<Rightarrow> redis_error + redis_val" where
  "get_result reply =
     (case reply of
        Reply RNil \<Rightarrow> Inl KeyNotFound
      | Reply v \<Rightarrow> Inr v
      | ReplyError \<Rightarrow> Inl RedisFailed
      | ConnError \<Rightarrow> Inl ConnFailed)"

definition service_Get ::
  "'s redis_server \<Rightarrow> time \<Rightarrow> string \<Rightarrow> redis_service \<Rightarrow> 's
     \<Rightarrow> (redis_error + redis_val) outcome \<times> redis_service \<times> 's" where
  "service_Get srv now key r s =
     map_reply get_result (service_do srv now (GET (Prefix (RConfig r) @ key)) r s)"

text \<open>\<open>Inr RNil\<close> is a nil value without an error.\<close>

definition service_GetAll ::
  "'s redis_server \<Rightarrow> time \<Rightarrow> redis_service \<Rightarrow> 's \<Rightarrow> (redis_error + redis_val) outcome \<times> redis_service \<times> 's" where
  "service_GetAll srv now r s =
     map_reply (\<lambda>reply. case reply of Reply v \<Rightarrow> Inr v | ReplyError \<Rightarrow> Inl RedisFailed | ConnError \<Rightarrow> Inl ConnFailed)
       (service_do srv now (SCAN 0) r s)"

text \<open>\<open>redis.Bytes\<close>: a bulk string, or the bytes of a status, which hold no store.\<close>

definition redis_Bytes :: "redis_val \<Rightarrow> redis_error + blob" where
  "redis_Bytes v = (case v of RBulk b \<Rightarrow> Inr b | RStatus t \<Rightarrow> Inr GobBroken | RNil \<Rightarrow> Inl KeyNotFound | _ \<Rightarrow> Inl UnexpectedType)"

definition service_GetBytes ::
  "'s redis_server \<Rightarrow> time \<Rightarrow> string \<Rightarrow> redis_service \<Rightarrow> 's
     \<Rightarrow> (redis_error + blob) outcome \<times> redis_service \<times> 's" where
  "service_GetBytes srv now key r s =
     map_reply (\<lambda>reply. case get_result reply of Inl e \<Rightarrow> Inl e | Inr v \<Rightarrow> redis_Bytes v)
       (service_do srv now (GET (Prefix (RConfig r) @ key)) r s)"

definition service_Delete ::
  "'s redis_server \<Rightarrow> time \<Rightarrow> string \<Rightarrow> redis_service \<Rightarrow> 's
     \<Rightarrow> redis_error option outcome \<times> redis_service \<times> 's" where
  "service_Delete srv now key r s =
     map_reply reply_error (service_do srv now (DEL (Prefix (RConfig r) @ key)) r s)"

text \<open>The pool gets the default idle timeout, not the configured one.\<close>

definition Connect :: "redis_service \<Rightarrow> redis_service" where
  "Connect r =
     (let c = RConfig r;
          c1 = (if IdleTimeout c \<le> 0 then c\<lparr>IdleTimeout := DefaultRedisIdleTimeout\<rparr> else c);
          c2 = (if Network c1 = [] then c1\<lparr>Network := DefaultRedisNetwork\<rparr> else c1);
          c3 = (if Addr c2 = [] then c2\<lparr>Addr := DefaultRedisAddr\<rparr> else c2)
      in r\<lparr>RConfig := c3, Connected := True,
           pool := Some (zero_rpool\<lparr>pl_IdleTimeout := DefaultRedisIdleTimeout, pl_MaxIdle := MaxIdle c3,
             pl_MaxActive := MaxActive c3, pl_TestOnBorrow := True,
             pl_Dial := (if RDatabase c3 \<noteq> [] then DialSelect else DialPlain)\<rparr>)\<rparr>)"

definition service_New :: "redis_config list \<Rightarrow> redis_service" where
  "service_New cfg =
     \<lparr>Connected = False, RConfig = (case cfg of [] \<Rightarrow> redis_DefaultConfig | c # _ \<Rightarrow> c), pool = Some zero_rpool\<rparr>"

end
