(* ===== verification/RedisDB.thy ===== *)
theory RedisDB
  imports RedisService FileDB
begin

text \<open>
  Model of \<^verbatim>\<open>sessiondb/redis/database.go\<close>. \<open>rd_srv\<close> is the state of the server and the network,
  \<open>rd_pending\<close> the payloads of the goroutines that asynchronous mode has started, and \<open>rd_panic\<close>
  records that a call has panicked.
\<close>

record 's redis_db =
  rd_redis :: redis_service
  rd_async :: bool
  rd_srv :: 's
  rd_pending :: "SyncPayload list"
  rd_panic :: bool

definition redis_New :: "redis_config list \<Rightarrow> 's \<Rightarrow> 's redis_db" where
  "redis_New cfg s =
     \<lparr>rd_redis = service_New cfg, rd_async = False, rd_srv = s, rd_pending = [], rd_panic = False\<rparr>"

definition redis_Config :: "'s redis_db \<Rightarrow> redis_config" where
  "redis_Config db = RConfig (rd_redis db)"

definition redis_Async :: "bool \<Rightarrow> 's redis_db \<Rightarrow> 's redis_db" where
  "redis_Async useGoRoutines db = db\<lparr>rd_async := useGoRoutines\<rparr>"

text \<open>A call of the service: its state and the server's are kept, a panic is recorded.\<close>

definition redis_call ::
  "(redis_service \<Rightarrow> 's \<Rightarrow> 'a outcome \<times> redis_service \<times> 's) \<Rightarrow> 's redis_db \<Rightarrow> 'a option \<times> 's redis_db" where
  "redis_call f db =
     (case f (rd_redis db) (rd_srv db) of
        (Ret x, r, s) \<Rightarrow> (Some x, db\<lparr>rd_redis := r, rd_srv := s\<rparr>)
      | (_, r, s) \<Rightarrow> (None, db\<lparr>rd_redis := r, rd_srv := s, rd_panic := True\<rparr>))"

definition redis_fetch ::
  "'s redis_server \<Rightarrow> time \<Rightarrow> string \<Rightarrow> mem \<Rightarrow> 's redis_db \<Rightarrow> RemoteStore \<times> mem \<times> 's redis_db" where
  "redis_fetch srv now sid m db =
     (case redis_call (service_Get srv now sid) db of
        (Some (Inr (RBulk storeB)), db1) \<Rightarrow>
          (let (storeDB, err, m1) = DecodeRemoteStore storeB m in (storeDB, m1, db1))
      | (_, db1) \<Rightarrow> (zero_remote, m, db1))"

definition redis_Load ::
  "'s redis_server \<Rightarrow> time \<Rightarrow> string \<Rightarrow> mem \<Rightarrow> 's redis_db \<Rightarrow> RemoteStore \<times> mem \<times> 's redis_db" where
  "redis_Load srv now sid m db =
     (if \<not> Connected (rd_redis db) then
        (case redis_call (PingPong srv now) (db\<lparr>rd_redis := Connect (rd_redis db)\<rparr>) of
           (Some (pong, True), db1) \<Rightarrow> redis_fetch srv now sid m db1
         | (_, db1) \<Rightarrow> (zero_remote, m, db1))
      else redis_fetch srv now sid m db)"

text \<open>The lifetime that \<open>sync\<close> asks Redis for, in seconds; 0 is none.\<close>

definition sync_seconds :: "time \<Rightarrow> LifeTime \<Rightarrow> int" where
  "sync_seconds now lifetime =
     (if \<not> Time_IsZero (lt_Time lifetime) then seconds_int (Time_Sub (lt_Time lifetime) now) else 0)"

definition redis_sync ::
  "'s redis_server \<Rightarrow> (gtype \<Rightarrow> bool) \<Rightarrow> time \<Rightarrow> mem \<Rightarrow> SyncPayload \<Rightarrow> 's redis_db \<Rightarrow> 's redis_db" where
  "redis_sync srv reg now m p db =
     (if PAction p = ActionDestroy then snd (redis_call (service_Delete srv now (SessionID p)) db)
      else
        let (storeB, err) = RemoteStore_Serialize reg m (PStore p) in
        if err then db
        else snd (redis_call (service_Set srv now (SessionID p) storeB (sync_seconds now (Lifetime (PStore p)))) db))"

definition redis_Sync ::
  "'s redis_server \<Rightarrow> (gtype \<Rightarrow> bool) \<Rightarrow> time \<Rightarrow> mem \<Rightarrow> SyncPayload \<Rightarrow> 's redis_db \<Rightarrow> 's redis_db" where
  "redis_Sync srv reg now m p db =
     (if rd_async db then db\<lparr>rd_pending := rd_pending db @ [p]\<rparr> else redis_sync srv reg now m p db)"

text \<open>The goroutine at position \<open>i\<close> of the pending ones runs.\<close>

definition redis_run_pending ::
  "'s redis_server \<Rightarrow> (gtype \<Rightarrow> bool) \<Rightarrow> time \<Rightarrow> mem \<Rightarrow> nat \<Rightarrow> 's redis_db \<Rightarrow> 's redis_db" where
  "redis_run_pending srv reg now m i db =
     (if i < length (rd_pending db)
      then redis_sync srv reg now m (rd_pending db ! i) (db\<lparr>rd_pending := without_nth i (rd_pending db)\<rparr>)
      else db)"

definition redis_Close :: "'s redis_db \<Rightarrow> redis_error option \<times> 's redis_db" where
  "redis_Close db = (let (err, r) = CloseConnection (rd_redis db) in (err, db\<lparr>rd_redis := r\<rparr>))"

definition redis_ops :: "'s redis_server \<Rightarrow> (gtype \<Rightarrow> bool) \<Rightarrow> 's redis_db dbops" where
  "redis_ops srv reg = \<lparr>db_Load = redis_Load srv, db_Sync = redis_Sync srv reg\<rparr>"

section \<open>What is assumed of the server\<close>

text \<open>
  How a server is set up: the network and address it listens on, the password it requires (empty for
  none), and the names that \<open>SELECT\<close> accepts (the numbers of its databases, \<open>0\<close> among them).
\<close>

record redis_site =
  rs_network :: string
  rs_addr :: string
  rs_password :: string
  rs_databases :: "string list"

text \<open>The database of a new connection is database 0.\<close>

definition db_index :: "string \<Rightarrow> string" where
  "db_index d = (if d = [] then ''0'' else d)"

text \<open>
  The configuration is one for this server: its address and password are the server's, and its
  database, if it names one, is a database of the server.
\<close>

definition serves :: "redis_site \<Rightarrow> redis_config \<Rightarrow> bool" where
  "serves site cfg =
     ((if Network cfg = [] then DefaultRedisNetwork else Network cfg) = rs_network site \<and>
      (if Addr cfg = [] then DefaultRedisAddr else Addr cfg) = rs_addr site \<and>
      Password cfg = rs_password site \<and> (RDatabase cfg = [] \<or> RDatabase cfg \<in> set (rs_databases site)))"

text \<open>
  \<open>redis_server_ok srv site ok conns sel data\<close> states the documented behaviour of a reachable server
  set up as \<open>site\<close> whose resources (memory, clients) are not exhausted. In the states \<open>ok\<close>, dialling
  its address succeeds with a connection that is not one of the open ones \<open>conns\<close>; \<open>sel\<close> tells of a
  connection whether it may send commands (at once when no password is required, otherwise after
  \<open>AUTH\<close> with the right one) and which database it works on (database 0 until a \<open>SELECT\<close>). The
  commands that \<open>cmd_allowed\<close> admits are answered, and \<open>GET\<close>, \<open>SET\<close>, \<open>SETEX\<close>, \<open>DEL\<close> act on
  \<open>data\<close>, which maps the database and the key to the value and the instant at which it expires, if
  any. Nothing is assumed of other addresses, of a wrong password, of \<open>AUTH\<close> on a server without a
  password, of commands before \<open>AUTH\<close>, of databases that do not exist, or of expirations that are not
  positive or out of range: Redis answers those with an error.
\<close>

type_synonym redis_data = "string \<Rightarrow> string \<Rightarrow> (blob \<times> time option) option"

type_synonym redis_conns = "nat \<Rightarrow> bool \<times> string"

definition live_entry :: "time \<Rightarrow> (blob \<times> time option) option \<Rightarrow> blob option" where
  "live_entry now e =
     (case e of
        None \<Rightarrow> None
      | Some (b, None) \<Rightarrow> Some b
      | Some (b, Some t) \<Rightarrow> if now < t then Some b else None)"

definition put_entry :: "string \<Rightarrow> string \<Rightarrow> (blob \<times> time option) option \<Rightarrow> redis_data \<Rightarrow> redis_data" where
  "put_entry d k e data = data(d := (data d)(k := e))"

definition dial_ok ::
  "'s redis_server \<Rightarrow> redis_site \<Rightarrow> ('s \<Rightarrow> bool) \<Rightarrow> ('s \<Rightarrow> nat set) \<Rightarrow> ('s \<Rightarrow> redis_conns)
     \<Rightarrow> ('s \<Rightarrow> redis_data) \<Rightarrow> bool" where
  "dial_ok srv site ok conns sel data =
     (\<forall>s. ok s \<longrightarrow>
        (\<exists>c s'. srv_dial srv (rs_network site) (rs_addr site) s = (Some c, s') \<and> ok s' \<and> c \<notin> conns s \<and>
           conns s' = insert c (conns s) \<and> sel s' = (sel s)(c := (rs_password site = [], ''0'')) \<and>
           data s' = data s))"

text \<open>The commands that a connection may send, \<open>auth\<close> telling whether it is past \<open>AUTH\<close>.\<close>

fun cmd_allowed :: "redis_site \<Rightarrow> bool \<Rightarrow> redis_cmd \<Rightarrow> bool" where
  "cmd_allowed site auth (AUTH p) = (p = rs_password site \<and> p \<noteq> [])"
| "cmd_allowed site auth (SELECT d) = (auth \<and> d \<in> set (rs_databases site))"
| "cmd_allowed site auth (SETEX k n v) = (auth \<and> 0 < n \<and> n < 2 ^ 40)"
| "cmd_allowed site auth _ = auth"

text \<open>The effect of a command on the connections and the data, and its reply.\<close>

fun cmd_effect ::
  "time \<Rightarrow> nat \<Rightarrow> redis_cmd \<Rightarrow> redis_conns \<Rightarrow> redis_data \<Rightarrow> redis_conns \<times> redis_data" where
  "cmd_effect now c (AUTH p) sl dt = (sl(c := (True, snd (sl c))), dt)"
| "cmd_effect now c (SELECT d) sl dt = (sl(c := (fst (sl c), d)), dt)"
| "cmd_effect now c (SET k v) sl dt = (sl, put_entry (snd (sl c)) k (Some (v, None)) dt)"
| "cmd_effect now c (SETEX k n v) sl dt = (sl, put_entry (snd (sl c)) k (Some (v, Some (now + n * Second))) dt)"
| "cmd_effect now c (DEL k) sl dt = (sl, put_entry (snd (sl c)) k None dt)"
| "cmd_effect now c _ sl dt = (sl, dt)"

fun cmd_reply :: "time \<Rightarrow> nat \<Rightarrow> redis_cmd \<Rightarrow> redis_conns \<Rightarrow> redis_data \<Rightarrow> redis_val \<Rightarrow> bool" where
  "cmd_reply now c PING sl dt v = (v = RStatus ''PONG'')"
| "cmd_reply now c (GET k) sl dt v =
     (v = (case live_entry now (dt (snd (sl c)) k) of None \<Rightarrow> RNil | Some b \<Rightarrow> RBulk b))"
| "cmd_reply now c _ sl dt v = True"

definition commands_ok ::
  "'s redis_server \<Rightarrow> redis_site \<Rightarrow> ('s \<Rightarrow> bool) \<Rightarrow> ('s \<Rightarrow> nat set) \<Rightarrow> ('s \<Rightarrow> redis_conns)
     \<Rightarrow> ('s \<Rightarrow> redis_data) \<Rightarrow> bool" where
  "commands_ok srv site ok conns sel data =
     (\<forall>s now c cmd. ok s \<longrightarrow> c \<in> conns s \<longrightarrow> cmd_allowed site (fst (sel s c)) cmd \<longrightarrow>
        (\<exists>v s'. srv_do srv now c cmd s = (Reply v, s') \<and> ok s' \<and> conns s' = conns s \<and>
           cmd_reply now c cmd (sel s) (data s) v \<and> (sel s', data s') = cmd_effect now c cmd (sel s) (data s)))"

definition redis_server_ok ::
  "'s redis_server \<Rightarrow> redis_site \<Rightarrow> ('s \<Rightarrow> bool) \<Rightarrow> ('s \<Rightarrow> nat set) \<Rightarrow> ('s \<Rightarrow> redis_conns)
     \<Rightarrow> ('s \<Rightarrow> redis_data) \<Rightarrow> bool" where
  "redis_server_ok srv site ok conns sel data =
     (dial_ok srv site ok conns sel data \<and> commands_ok srv site ok conns sel data)"

lemma server_dial:
  assumes "redis_server_ok srv site ok conns sel data" "ok s"
  obtains c s' where "srv_dial srv (rs_network site) (rs_addr site) s = (Some c, s')" "ok s'" "c \<notin> conns s"
    "conns s' = insert c (conns s)" "sel s' = (sel s)(c := (rs_password site = [], ''0''))" "data s' = data s"
  using assms unfolding redis_server_ok_def dial_ok_def by blast

lemma server_do:
  assumes "redis_server_ok srv site ok conns sel data" "ok s" "c \<in> conns s" "cmd_allowed site (fst (sel s c)) cmd"
  obtains v s' where "srv_do srv now c cmd s = (Reply v, s')" "ok s'" "conns s' = conns s"
    "cmd_reply now c cmd (sel s) (data s) v" "sel s' = fst (cmd_effect now c cmd (sel s) (data s))"
    "data s' = snd (cmd_effect now c cmd (sel s) (data s))"
  using assms unfolding redis_server_ok_def commands_ok_def by (metis fst_conv snd_conv)

section \<open>The pool on a working server\<close>

text \<open>
  An open pool for this server whose idle connections are distinct, open, past \<open>AUTH\<close> and on the
  configured database; \<open>used\<close> is the number of connections in use.
\<close>

definition pool_ok ::
  "redis_site \<Rightarrow> ('s \<Rightarrow> nat set) \<Rightarrow> ('s \<Rightarrow> redis_conns) \<Rightarrow> redis_config \<Rightarrow> nat \<Rightarrow> 's \<Rightarrow> rpool \<Rightarrow> bool" where
  "pool_ok site conns sel cfg used s p =
     (serves site cfg \<and> \<not> pl_closed p \<and> pl_MaxActive p \<ge> 0 \<and> pl_TestOnBorrow p \<and>
      pl_Dial p = (if RDatabase cfg \<noteq> [] then DialSelect else DialPlain) \<and>
      pl_active p = int (length (pl_idle p) + used) \<and> distinct (map fst (pl_idle p)) \<and>
      (\<forall>c\<in>fst ` set (pl_idle p). c \<in> conns s \<and> sel s c = (True, db_index (RDatabase cfg))))"

lemma pool_ok_prune:
  assumes "pool_ok site conns sel cfg used s p"
  shows "pool_ok site conns sel cfg used s (pool_prune now p)"
proof -
  let ?keep = "rev (dropWhile (\<lambda>(c, t). \<not> Time_After (Time_Add t (pl_IdleTimeout p)) now) (rev (pl_idle p)))"
  have len: "length ?keep \<le> length (pl_idle p)" using length_dropWhile_le [of _ "rev (pl_idle p)"] by simp
  have "set ?keep \<subseteq> set (pl_idle p)" by (auto dest: set_dropWhileD)
  moreover have "distinct (map fst ?keep)"
    using assms unfolding pool_ok_def rev_map [symmetric] distinct_rev dropWhile_map [symmetric]
    by (metis (no_types, lifting) distinct_rev distinct_map distinct_dropWhile inj_on_subset rev_map set_dropWhileD set_rev subsetI)
  ultimately show ?thesis using assms len by (auto simp: pool_ok_def pool_prune_def Let_def)
qed

lemma redis_dial_ok:
  assumes srv: "redis_server_ok srv site ok conns sel data" "ok s" and cfg: "serves site cfg"
  obtains c s' where "redis_dial srv now (Network cfg) (Addr cfg) (Password cfg) s = (Some c, s')" "ok s'"
    "c \<notin> conns s" "conns s' = insert c (conns s)" "sel s' = (sel s)(c := (True, ''0''))" "data s' = data s"
proof -
  obtain c s1 where d: "srv_dial srv (rs_network site) (rs_addr site) s = (Some c, s1)" "ok s1" "c \<notin> conns s"
    "conns s1 = insert c (conns s)" "sel s1 = (sel s)(c := (rs_password site = [], ''0''))" "data s1 = data s"
    using server_dial [OF srv] by metis
  have eq: "redis_dial srv now (Network cfg) (Addr cfg) (Password cfg) s =
      (if rs_password site \<noteq> [] then
         (let (r, s2) = srv_do srv now c (AUTH (rs_password site)) s1 in (if reply_ok r then Some c else None, s2))
       else (Some c, s1))"
    using cfg d(1) unfolding serves_def redis_dial_def Let_def by simp
  show thesis
  proof (cases "rs_password site = []")
    case True
    then show thesis using that d eq by simp
  next
    case False
    then have "c \<in> conns s1" "cmd_allowed site (fst (sel s1 c)) (AUTH (rs_password site))" using d(4) by simp_all
    then obtain v s2 where "srv_do srv now c (AUTH (rs_password site)) s1 = (Reply v, s2)" "ok s2"
      "conns s2 = conns s1" "sel s2 = (sel s1)(c := (True, ''0''))" "data s2 = data s1"
      using server_do [OF srv(1) d(2), of c "AUTH (rs_password site)" now] d(5) by auto
    then show thesis using that d False eq by (simp add: reply_ok_def)
  qed
qed

lemma pool_dial_ok:
  assumes srv: "redis_server_ok srv site ok conns sel data" "ok s" and cfg: "serves site cfg"
    and d: "dl = (if RDatabase cfg \<noteq> [] then DialSelect else DialPlain)"
  obtains c s' where "pool_dial srv now cfg dl s = (Ret (Some c), s')" "ok s'" "c \<notin> conns s"
    "conns s' = insert c (conns s)" "sel s' = (sel s)(c := (True, db_index (RDatabase cfg)))" "data s' = data s"
proof -
  obtain c s1 where c: "redis_dial srv now (Network cfg) (Addr cfg) (Password cfg) s = (Some c, s1)" "ok s1" "c \<notin> conns s"
    "conns s1 = insert c (conns s)" "sel s1 = (sel s)(c := (True, ''0''))" "data s1 = data s"
    using redis_dial_ok [OF srv cfg] by metis
  show thesis
  proof (cases "RDatabase cfg = []")
    case True
    then show thesis using that c d by (simp add: pool_dial_def db_index_def)
  next
    case False
    then have "c \<in> conns s1" "cmd_allowed site (fst (sel s1 c)) (SELECT (RDatabase cfg))"
      using c(4,5) cfg by (simp_all add: serves_def)
    then obtain v s2 where "srv_do srv now c (SELECT (RDatabase cfg)) s1 = (Reply v, s2)" "ok s2" "conns s2 = conns s1"
      "sel s2 = (sel s1)(c := (True, RDatabase cfg))" "data s2 = data s1"
      using server_do [OF srv(1) c(2), of c "SELECT (RDatabase cfg)" now] c(5) by auto
    then show thesis using that c d False by (simp add: pool_dial_def reply_ok_def db_index_def)
  qed
qed

lemma pool_get_ok:
  assumes srv: "redis_server_ok srv site ok conns sel data" "ok s" and p: "pool_ok site conns sel cfg 0 s p"
  obtains c p' s' where "pool_get srv now cfg p s = (Ret (Some c), p', s')" "ok s'" "data s' = data s"
    "pool_ok site conns sel cfg 1 s' p'" "c \<in> conns s'" "sel s' c = (True, db_index (RDatabase cfg))" "c \<notin> fst ` set (pl_idle p')"
proof -
  let ?p = "pool_prune now p"
  note q = pool_ok_prune [OF p, of now]
  show thesis
  proof (cases "pl_idle ?p")
    case (Cons ct idle)
    obtain c t where ct: "ct = (c, t)" by (cases ct)
    have c: "c \<in> conns s" "sel s c = (True, db_index (RDatabase cfg))" using q Cons ct by (auto simp: pool_ok_def)
    obtain s' where ping: "srv_do srv now c PING s = (Reply (RStatus ''PONG''), s')" "ok s'" "conns s' = conns s" "sel s' = sel s"
      "data s' = data s"
      using server_do [OF srv c(1), of PING now] c(2) by auto
    have "pool_get srv now cfg p s = (Ret (Some c), ?p\<lparr>pl_idle := idle\<rparr>, s')"
      using Cons ct ping(1) q by (simp add: pool_get_def reply_ok_def pool_ok_def)
    moreover have "pool_ok site conns sel cfg 1 s' (?p\<lparr>pl_idle := idle\<rparr>)" "c \<notin> fst ` set idle"
      using q Cons ct ping(3,4) by (auto simp: pool_ok_def)
    ultimately show thesis using that ping c by simp
  next
    case Nil
    obtain c s' where dial: "pool_dial srv now cfg (pl_Dial ?p) s = (Ret (Some c), s')" "ok s'" "c \<notin> conns s"
      "conns s' = insert c (conns s)" "sel s' = (sel s)(c := (True, db_index (RDatabase cfg)))" "data s' = data s"
      using pool_dial_ok [OF srv, of cfg "pl_Dial ?p" now] q by (auto simp: pool_ok_def)
    let ?p' = "?p\<lparr>pl_idle := [], pl_active := pl_active ?p + 1\<rparr>"
    have "pl_MaxActive ?p = 0 \<or> 0 < pl_MaxActive ?p" "\<not> pl_closed ?p" "pl_active ?p = 0"
      using q Nil by (auto simp: pool_ok_def)
    then have "pool_get srv now cfg p s = (Ret (Some c), ?p', s')"
      using Nil dial(1) by (simp add: pool_get_def Let_def)
    moreover have "pool_ok site conns sel cfg 1 s' ?p'" using q Nil by (simp add: pool_ok_def)
    ultimately show thesis using that dial by simp
  qed
qed

lemma pool_ok_idle:
  assumes "pool_ok site conns sel cfg 1 s p" "set idle \<subseteq> insert (c, now) (set (pl_idle p))" "distinct (map fst idle)"
    and "c \<in> conns s" "sel s c = (True, db_index (RDatabase cfg))"
  shows "pool_ok site conns sel cfg 0 s (p\<lparr>pl_idle := idle, pl_active := int (length idle)\<rparr>)"
  using assms by (auto simp: pool_ok_def)

lemma pool_put_ok:
  assumes p: "pool_ok site conns sel cfg 1 s p" and c: "c \<in> conns s" "sel s c = (True, db_index (RDatabase cfg))" "c \<notin> fst ` set (pl_idle p)"
  shows "pool_ok site conns sel cfg 0 s (pool_put now c False p)"
proof -
  let ?l = "(c, now) # pl_idle p"
  have dist: "distinct (map fst ?l)" using p c(3) by (simp add: pool_ok_def)
  have act: "pl_active p = int (length ?l)" "\<not> pl_closed p" using p by (simp_all add: pool_ok_def)
  show ?thesis
  proof (cases "int (length ?l) > pl_MaxIdle p")
    case True
    have "set (butlast ?l) \<subseteq> set ?l" "distinct (map fst (butlast ?l))"
      using dist by (auto dest: in_set_butlastD simp: map_butlast distinct_butlast simp del: butlast.simps)
    with pool_ok_idle [OF p _ _ c(1,2), of "butlast ?l" now] show ?thesis
      using True act by (simp add: pool_put_def del: butlast.simps)
  next
    case False
    have "p\<lparr>pl_idle := ?l\<rparr> = p\<lparr>pl_idle := ?l, pl_active := int (length ?l)\<rparr>" using act(1) by simp
    then show ?thesis
      using False act(2) pool_ok_idle [OF p _ dist c(1,2), of now] by (simp add: pool_put_def Let_def)
  qed
qed

section \<open>The service on a working server\<close>

definition service_ok ::
  "redis_site \<Rightarrow> ('s \<Rightarrow> nat set) \<Rightarrow> ('s \<Rightarrow> redis_conns) \<Rightarrow> 's \<Rightarrow> redis_service \<Rightarrow> bool" where
  "service_ok site conns sel s r =
     (Connected r \<and> (case pool r of None \<Rightarrow> False | Some p \<Rightarrow> pool_ok site conns sel (RConfig r) 0 s p))"

text \<open>
  Commands that act on the data only, with an expiration that Redis takes; \<open>SELECT\<close> and \<open>AUTH\<close> are
  sent by \<open>dial\<close> alone.
\<close>

fun data_cmd :: "redis_cmd \<Rightarrow> bool" where
  "data_cmd (SELECT d) = False"
| "data_cmd (AUTH p) = False"
| "data_cmd (SETEX k n v) = (0 < n \<and> n < 2 ^ 40)"
| "data_cmd _ = True"

text \<open>The same effect and reply, on the database that the service is configured with.\<close>

definition service_effect :: "time \<Rightarrow> redis_cmd \<Rightarrow> string \<Rightarrow> redis_data \<Rightarrow> redis_data" where
  "service_effect now cmd d dt = snd (cmd_effect now 0 cmd (\<lambda>_. (True, d)) dt)"

lemma cmd_effect_data:
  "data_cmd cmd \<Longrightarrow> sl c = (True, d) \<Longrightarrow> cmd_effect now c cmd sl dt = (sl, service_effect now cmd d dt)"
  by (cases cmd) (simp_all add: service_effect_def)

lemma data_cmd_allowed: "data_cmd cmd \<Longrightarrow> cmd_allowed site True cmd"
  by (cases cmd) simp_all

lemma cmd_reply_data: "sl c = (True, d) \<Longrightarrow> cmd_reply now c cmd sl dt v = cmd_reply now 0 cmd (\<lambda>_. (True, d)) dt v"
  by (cases cmd) simp_all

lemma service_do_ok:
  assumes srv: "redis_server_ok srv site ok conns sel data" "ok s" and r: "service_ok site conns sel s r" and cmd: "data_cmd cmd"
  obtains v r' s' where "service_do srv now cmd r s = (Ret (Reply v), r', s')" "ok s'" "service_ok site conns sel s' r'"
    "RConfig r' = RConfig r" "data s' = service_effect now cmd (db_index (RDatabase (RConfig r))) (data s)"
    "cmd_reply now 0 cmd (\<lambda>_. (True, db_index (RDatabase (RConfig r)))) (data s) v"
proof -
  obtain p where p: "pool r = Some p" "pool_ok site conns sel (RConfig r) 0 s p" using r by (auto simp: service_ok_def split: option.splits)
  obtain c p1 s1 where get: "pool_get srv now (RConfig r) p s = (Ret (Some c), p1, s1)" "ok s1" "data s1 = data s"
    "pool_ok site conns sel (RConfig r) 1 s1 p1" "c \<in> conns s1" "sel s1 c = (True, db_index (RDatabase (RConfig r)))" "c \<notin> fst ` set (pl_idle p1)"
    using pool_get_ok [OF srv p(2)] by metis
  obtain v s2 where done': "srv_do srv now c cmd s1 = (Reply v, s2)" "ok s2" "conns s2 = conns s1"
    "cmd_reply now c cmd (sel s1) (data s1) v" "sel s2 = fst (cmd_effect now c cmd (sel s1) (data s1))"
    "data s2 = snd (cmd_effect now c cmd (sel s1) (data s1))"
    using server_do [OF srv(1) get(2,5), of cmd now] data_cmd_allowed [OF cmd] get(6) by (metis fst_conv)
  have eff: "sel s2 = sel s1" "data s2 = service_effect now cmd (db_index (RDatabase (RConfig r))) (data s)"
    using done'(5,6) cmd_effect_data [of cmd "sel s1", OF cmd get(6)] get(3) by simp_all
  have "pool_ok site conns sel (RConfig r) 1 s2 p1" using get(4) done'(3) eff(1) by (simp add: pool_ok_def)
  then have "pool_ok site conns sel (RConfig r) 0 s2 (pool_put now c False p1)"
    using pool_put_ok [of site conns sel "RConfig r" s2 p1 c now] get(5,6,7) done'(3) eff(1) by simp
  then show thesis
    using that [of v "r\<lparr>pool := Some (pool_put now c False p1)\<rparr>" s2] p(1) get(1,3) done'(1,2,4) eff(2) r
      cmd_reply_data [of "sel s1", OF get(6)]
    by (simp add: service_do_def service_ok_def)
qed

lemma Connect_ok:
  assumes "MaxActive (RConfig r) \<ge> 0" "serves site (RConfig r)"
  shows "service_ok site conns sel s (Connect r)" "RDatabase (RConfig (Connect r)) = RDatabase (RConfig r)"
    "Prefix (RConfig (Connect r)) = Prefix (RConfig r)"
  using assms by (auto simp: service_ok_def Connect_def pool_ok_def zero_rpool_def serves_def Let_def)

section \<open>The database on a working server\<close>

definition redis_ready ::
  "redis_site \<Rightarrow> ('s \<Rightarrow> bool) \<Rightarrow> ('s \<Rightarrow> nat set) \<Rightarrow> ('s \<Rightarrow> redis_conns) \<Rightarrow> 's redis_db \<Rightarrow> bool" where
  "redis_ready site ok conns sel db =
     (ok (rd_srv db) \<and> service_ok site conns sel (rd_srv db) (rd_redis db) \<and> \<not> rd_async db \<and> \<not> rd_panic db)"

definition redis_stored :: "('s \<Rightarrow> redis_data) \<Rightarrow> 's redis_db \<Rightarrow> string \<Rightarrow> (blob \<times> time option) option" where
  "redis_stored data db sid =
     data (rd_srv db) (db_index (RDatabase (redis_Config db))) (Prefix (redis_Config db) @ sid)"

text \<open>What \<open>Sync\<close> stores for a payload: the store, and the instant at which Redis drops it.\<close>

definition redis_entry :: "(gtype \<Rightarrow> bool) \<Rightarrow> time \<Rightarrow> mem \<Rightarrow> SyncPayload \<Rightarrow> (blob \<times> time option) option" where
  "redis_entry reg now m p =
     (let n = sync_seconds now (Lifetime (PStore p)) in
      map_option (\<lambda>b. (b, if n > 0 then Some (now + n * Second) else None)) (synced_blob reg m p))"

fun redis_replay ::
  "(gtype \<Rightarrow> bool) \<Rightarrow> sync_call list \<Rightarrow> (string \<rightharpoonup> blob \<times> time option) \<Rightarrow> (string \<rightharpoonup> blob \<times> time option)" where
  "redis_replay reg [] st = st"
| "redis_replay reg ((now, m, p) # cs) st = redis_replay reg cs (st(SessionID p := redis_entry reg now m p))"

lemma sync_seconds_less: "sync_seconds now lt < 2 ^ 40"
proof -
  define d where "d = Time_Sub (lt_Time lt) now"
  have "d \<le> max_duration" using Time_Sub_range by (simp add: d_def)
  then have "d div Second \<le> max_duration div Second" by (intro zdiv_mono1) (simp_all add: Second_def)
  then have "seconds_int d < 2 ^ 40"
    using seconds_int_bounds [of d] seconds_int_small [of d]
    by (cases "0 \<le> d") (auto simp: max_duration_def Second_def)
  then show ?thesis by (simp add: sync_seconds_def d_def)
qed

lemma redis_call_do:
  assumes srv: "redis_server_ok srv site ok conns sel data" and db: "redis_ready site ok conns sel db"
    and cmd: "data_cmd cmd"
  obtains v db' where "redis_call (\<lambda>r s. map_reply f (service_do srv now cmd r s)) db = (Some (f (Reply v)), db')"
    "redis_ready site ok conns sel db'" "redis_Config db' = redis_Config db"
    "data (rd_srv db') = service_effect now cmd (db_index (RDatabase (redis_Config db))) (data (rd_srv db))"
    "cmd_reply now 0 cmd (\<lambda>_. (True, db_index (RDatabase (redis_Config db)))) (data (rd_srv db)) v"
proof -
  have d: "ok (rd_srv db)" "service_ok site conns sel (rd_srv db) (rd_redis db)" "\<not> rd_async db" "\<not> rd_panic db"
    using db by (simp_all add: redis_ready_def)
  obtain v r' s' where "service_do srv now cmd (rd_redis db) (rd_srv db) = (Ret (Reply v), r', s')" "ok s'"
    "service_ok site conns sel s' r'" "RConfig r' = RConfig (rd_redis db)"
    "data s' = service_effect now cmd (db_index (RDatabase (RConfig (rd_redis db)))) (data (rd_srv db))"
    "cmd_reply now 0 cmd (\<lambda>_. (True, db_index (RDatabase (RConfig (rd_redis db))))) (data (rd_srv db)) v"
    using service_do_ok [OF srv d(1,2) cmd] by metis
  then show thesis
    using that [of v "db\<lparr>rd_redis := r', rd_srv := s'\<rparr>"] d(3,4)
    by (simp add: redis_call_def map_reply_def redis_ready_def redis_Config_def)
qed

lemma redis_call_cong: "f (rd_redis db) (rd_srv db) = g (rd_redis db) (rd_srv db) \<Longrightarrow> redis_call f db = redis_call g db"
  by (simp add: redis_call_def)

lemma redis_fetch_ok:
  assumes srv: "redis_server_ok srv site ok conns sel data" and db: "redis_ready site ok conns sel db"
  obtains db' where "redis_fetch srv now sid m db =
      (fst (loads_blob (live_entry now (redis_stored data db sid)) m),
       snd (loads_blob (live_entry now (redis_stored data db sid)) m), db')"
    "redis_ready site ok conns sel db'" "redis_stored data db' = redis_stored data db"
proof -
  let ?k = "Prefix (redis_Config db) @ sid"
  obtain v db' where call: "redis_call (\<lambda>r s. map_reply get_result (service_do srv now (GET ?k) r s)) db =
      (Some (get_result (Reply v)), db')"
    and db': "redis_ready site ok conns sel db'" "redis_Config db' = redis_Config db"
    "data (rd_srv db') = data (rd_srv db)"
    and v: "v = (case live_entry now (redis_stored data db sid) of None \<Rightarrow> RNil | Some b \<Rightarrow> RBulk b)"
    using redis_call_do [OF srv db, of "GET ?k" get_result now] by (auto simp: service_effect_def redis_stored_def)
  have "redis_call (service_Get srv now sid) db = (Some (get_result (Reply v)), db')"
    using call by (simp add: redis_call_def service_Get_def redis_Config_def)
  then have "redis_fetch srv now sid m db =
      (fst (loads_blob (live_entry now (redis_stored data db sid)) m),
       snd (loads_blob (live_entry now (redis_stored data db sid)) m), db')"
    by (cases "live_entry now (redis_stored data db sid)")
      (simp_all add: redis_fetch_def v get_result_def loads_blob_def case_prod_beta)
  then show thesis using that db' by (simp add: redis_stored_def fun_eq_iff)
qed

lemma redis_sync_ok:
  assumes srv: "redis_server_ok srv site ok conns sel data" and db: "redis_ready site ok conns sel db"
    and ser: "serialisable reg (now, m, p)"
  shows "redis_ready site ok conns sel (redis_sync srv reg now m p db) \<and>
     redis_stored data (redis_sync srv reg now m p db) = (redis_stored data db)(SessionID p := redis_entry reg now m p)"
proof -
  let ?k = "Prefix (redis_Config db) @ SessionID p" and ?b = "fst (RemoteStore_Serialize reg m (PStore p))"
    and ?n = "sync_seconds now (Lifetime (PStore p))"
  define cmd where "cmd = (if PAction p = ActionDestroy then DEL ?k else if ?n > 0 then SETEX ?k ?n ?b else SET ?k ?b)"
  have "data_cmd cmd" using sync_seconds_less by (simp add: cmd_def)
  then obtain v db' where call: "redis_call (\<lambda>r s. map_reply reply_error (service_do srv now cmd r s)) db =
      (Some (reply_error (Reply v)), db')"
    and db': "redis_ready site ok conns sel db'" "redis_Config db' = redis_Config db"
    "data (rd_srv db') = service_effect now cmd (db_index (RDatabase (redis_Config db))) (data (rd_srv db))"
    using redis_call_do [OF srv db, of cmd reply_error now] by metis
  have "\<not> snd (RemoteStore_Serialize reg m (PStore p))" if "PAction p \<noteq> ActionDestroy"
    using ser that by (simp add: serialisable_def)
  moreover have "redis_call (service_Delete srv now (SessionID p)) db = (Some (reply_error (Reply v)), db')"
    if "PAction p = ActionDestroy"
    by (rule trans [OF redis_call_cong call]) (simp add: that cmd_def service_Delete_def redis_Config_def)
  moreover have "redis_call (service_Set srv now (SessionID p) ?b ?n) db = (Some (reply_error (Reply v)), db')"
    if "PAction p \<noteq> ActionDestroy"
    by (rule trans [OF redis_call_cong call]) (simp add: that cmd_def service_Set_def redis_Config_def)
  ultimately have "redis_sync srv reg now m p db = db'" by (simp add: redis_sync_def case_prod_beta)
  moreover have "redis_stored data db' = (redis_stored data db)(SessionID p := redis_entry reg now m p)"
    using db'(2,3)
    by (auto simp: redis_stored_def fun_eq_iff cmd_def service_effect_def put_entry_def redis_entry_def synced_blob_def Let_def)
  ultimately show ?thesis using db'(1) by simp
qed

lemma redis_run_syncs_ok:
  assumes srv: "redis_server_ok srv site ok conns sel data" and db: "redis_ready site ok conns sel db"
    and ser: "list_all (serialisable reg) cs"
  shows "redis_ready site ok conns sel (run_syncs (redis_ops srv reg) cs db) \<and>
     redis_stored data (run_syncs (redis_ops srv reg) cs db) = redis_replay reg cs (redis_stored data db)"
  using db ser
proof (induction cs arbitrary: db)
  case (Cons c cs)
  obtain now m p where c: "c = (now, m, p)" by (cases c)
  have "db_Sync (redis_ops srv reg) now m p db = redis_sync srv reg now m p db"
    using Cons.prems(1) by (simp add: redis_ops_def redis_Sync_def redis_ready_def)
  then show ?case
    using Cons.IH [of "redis_sync srv reg now m p db"] redis_sync_ok [OF srv Cons.prems(1), of reg now m p] Cons.prems(2) c
    by (simp add: fun_upd_def)
qed simp

lemma redis_Load_ready:
  "redis_ready site ok conns sel db \<Longrightarrow> redis_Load srv now sid m db = redis_fetch srv now sid m db"
  by (auto simp: redis_Load_def redis_ready_def service_ok_def)

lemma redis_Load_connects:
  assumes srv: "redis_server_ok srv site ok conns sel data" "ok s" 
    and cfg: "serves site (redis_Config (redis_New cfg s))" "MaxActive (redis_Config (redis_New cfg s)) \<ge> 0"
  obtains db' where "redis_Load srv now sid m (redis_New cfg s) = redis_fetch srv now sid m db'"
    "redis_ready site ok conns sel db'" "redis_stored data db' = redis_stored data (redis_New cfg s)"
proof -
  let ?db = "redis_New cfg s"
  let ?db1 = "?db\<lparr>rd_redis := Connect (rd_redis ?db)\<rparr>"
  have conn: "service_ok site conns sel s (Connect (rd_redis ?db))"
    "RDatabase (redis_Config ?db1) = RDatabase (redis_Config ?db)" "Prefix (redis_Config ?db1) = Prefix (redis_Config ?db)"
    using Connect_ok [of "rd_redis ?db"] cfg by (simp_all add: redis_Config_def)
  then have r: "redis_ready site ok conns sel ?db1" using srv(2) by (simp add: redis_ready_def redis_New_def)
  obtain v db' where ping: "redis_call (PingPong srv now) ?db1 = (Some (v = RStatus ''PONG'', True), db')"
    "redis_ready site ok conns sel db'" "redis_Config db' = redis_Config ?db1" "data (rd_srv db') = data s"
    by (rule redis_call_do [OF srv(1) r, where cmd = PING and now = now and f = "\<lambda>reply. case reply of
         Reply msg \<Rightarrow> (msg = RStatus ''PONG'', True) | _ \<Rightarrow> (False, False)"])
      (auto simp: PingPong_def [abs_def] service_effect_def redis_New_def)
  have "redis_Load srv now sid m ?db = redis_fetch srv now sid m db'"
    using ping(1) by (simp add: redis_Load_def redis_New_def service_New_def)
  moreover have "redis_stored data db' = redis_stored data ?db"
    using ping(3,4) conn(2,3) by (simp add: redis_stored_def fun_eq_iff redis_New_def)
  ultimately show thesis using that ping(2) by blast
qed

section \<open>A reference server\<close>

text \<open>
  A server that keeps its data in memory and answers exactly the commands that \<open>cmd_allowed\<close> admits;
  it refuses every other command and every other address. It shows that the assumptions can hold, and
  the instances of the theorems run on it.
\<close>

record mem_redis =
  mr_next :: nat
  mr_sel :: redis_conns
  mr_data :: redis_data

definition mem_dial :: "redis_site \<Rightarrow> string \<Rightarrow> string \<Rightarrow> mem_redis \<Rightarrow> nat option \<times> mem_redis" where
  "mem_dial site network addr s =
     (if network = rs_network site \<and> addr = rs_addr site then
        (Some (mr_next s), s\<lparr>mr_next := Suc (mr_next s),
           mr_sel := (mr_sel s)(mr_next s := (rs_password site = [], ''0''))\<rparr>)
      else (None, s))"

definition mem_reply :: "time \<Rightarrow> nat \<Rightarrow> redis_cmd \<Rightarrow> mem_redis \<Rightarrow> redis_val" where
  "mem_reply now c cmd s =
     (case cmd of
        PING \<Rightarrow> RStatus ''PONG''
      | GET k \<Rightarrow> (case live_entry now (mr_data s (snd (mr_sel s c)) k) of None \<Rightarrow> RNil | Some b \<Rightarrow> RBulk b)
      | DEL k \<Rightarrow> RInteger (if live_entry now (mr_data s (snd (mr_sel s c)) k) = None then 0 else 1)
      | SCAN n \<Rightarrow> RArray []
      | _ \<Rightarrow> RStatus ''OK'')"

definition mem_server :: "redis_site \<Rightarrow> mem_redis redis_server" where
  "mem_server site =
     \<lparr>srv_dial = mem_dial site,
      srv_do = (\<lambda>now c cmd s.
        if c < mr_next s \<and> cmd_allowed site (fst (mr_sel s c)) cmd then
          (let (sl, dt) = cmd_effect now c cmd (mr_sel s) (mr_data s)
           in (Reply (mem_reply now c cmd s), s\<lparr>mr_sel := sl, mr_data := dt\<rparr>))
        else (ReplyError, s))\<rparr>"

definition mem_empty :: mem_redis where
  "mem_empty = \<lparr>mr_next = 0, mr_sel = (\<lambda>_. (False, [])), mr_data = (\<lambda>_ _. None)\<rparr>"

lemma mem_server_ok: "redis_server_ok (mem_server site) site (\<lambda>_. True) (\<lambda>s. {..<mr_next s}) mr_sel mr_data"
proof -
  have "cmd_reply now c cmd (mr_sel s) (mr_data s) (mem_reply now c cmd s)" for now c cmd and s :: mem_redis
    by (cases cmd) (simp_all add: mem_reply_def)
  then show ?thesis
    by (auto simp: redis_server_ok_def dial_ok_def commands_ok_def mem_server_def mem_dial_def lessThan_Suc case_prod_beta)
qed

text \<open>A server with a password and two databases, and a configuration for the second of them.\<close>

definition mem_site :: redis_site where
  "mem_site = \<lparr>rs_network = ''tcp'', rs_addr = ''127.0.0.1:6379'', rs_password = ''pw'', rs_databases = [''0'', ''1'']\<rparr>"

definition mem_config :: redis_config where
  "mem_config = redis_DefaultConfig\<lparr>Password := ''pw'', RDatabase := ''1'', Prefix := ''s:''\<rparr>"

lemma mem_config_ok:
  "serves mem_site (redis_Config (redis_New [mem_config] s))" "MaxActive (redis_Config (redis_New [mem_config] s)) \<ge> 0"
  by (simp_all add: serves_def mem_site_def mem_config_def redis_Config_def redis_New_def service_New_def
      redis_DefaultConfig_def DefaultRedisNetwork_def DefaultRedisAddr_def)

lemma service_do_New:
  "service_do srv now cmd (service_New cfg) s =
     (Panic ''invalid memory address or nil pointer dereference'',
      (service_New cfg)\<lparr>pool := Some (zero_rpool\<lparr>pl_active := 1\<rparr>)\<rparr>, s)"
  by (simp add: service_do_def service_New_def pool_get_def pool_prune_def zero_rpool_def pool_dial_def)

lemma mem_db_ready:
  "redis_ready mem_site (\<lambda>_. True) (\<lambda>s. {..<mr_next s}) mr_sel
     (snd (snd (redis_Load (mem_server mem_site) 0 ''x'' [] (redis_New [mem_config] mem_empty))))"
proof -
  obtain db where db: "redis_Load (mem_server mem_site) 0 ''x'' [] (redis_New [mem_config] mem_empty) =
      redis_fetch (mem_server mem_site) 0 ''x'' [] db"
    "redis_ready mem_site (\<lambda>_. True) (\<lambda>s. {..<mr_next s}) mr_sel db"
    using redis_Load_connects [OF mem_server_ok _ mem_config_ok, of 0 "''x''" "[]"] by auto
  then show ?thesis using redis_fetch_ok [OF mem_server_ok db(2), of 0 "''x''" "[]"] by (metis snd_conv)
qed

lemma redis_entry_expiration:
  assumes "PAction p \<noteq> ActionDestroy" "RemoteStore_Serialize reg m (PStore p) = (b, False)"
    and "t = lt_Time (Lifetime (PStore p))" "t - now \<le> max_duration" "min_duration \<le> t - now"
  shows "if t \<noteq> 0 \<and> now + Second \<le> t
     then \<exists>u. redis_entry reg now m p = Some (b, Some u) \<and> t - Second < u \<and> u \<le> t + Second
     else redis_entry reg now m p = Some (b, None)"
proof -
  let ?n = "sync_seconds now (Lifetime (PStore p))"
  have entry: "redis_entry reg now m p = Some (b, if ?n > 0 then Some (now + ?n * Second) else None)"
    using assms(1,2) by (simp add: redis_entry_def synced_blob_def Let_def)
  have n: "?n = (if t = 0 then 0 else seconds_int (t - now))"
    using assms(3,4,5) by (simp add: sync_seconds_def Time_IsZero_def Time_Sub_exact)
  have S: "0 < Second" by (simp add: Second_def)
  show ?thesis
  proof (cases "t \<noteq> 0 \<and> now + Second \<le> t")
    case True
    define d where "d = t - now"
    have "Second \<le> d" using True by (simp add: d_def)
    then have b: "d div Second \<le> ?n" "?n \<le> d div Second + 1" "1 \<le> d div Second"
      using seconds_int_bounds [of d] n True S pos_imp_zdiv_pos_iff [OF S, of d] by (simp_all add: d_def)
    have div: "d div Second * Second + d mod Second = d" "0 \<le> d mod Second" "d mod Second < Second" using S by simp_all
    have "d div Second * Second \<le> ?n * Second" "?n * Second \<le> (d div Second + 1) * Second"
      using b(1,2) S by (simp_all add: mult_right_mono)
    then have "d - Second < ?n * Second" "?n * Second \<le> d + Second" using div unfolding distrib_right by linarith+
    then show ?thesis using True entry b(1,3) by (simp add: d_def)
  next
    case False
    then have "?n \<le> 0" using seconds_int_small [of "t - now"] n by auto
    then show ?thesis using False entry by simp
  qed
qed

section \<open>Properties\<close>

text \<open>
  C15. On a Redis server that works as documented and that the configuration is for (its address, its
  password, one of its databases), the database is a map from session ids to stores with an expiration.
  A new database connects on its first \<open>Load\<close>, through the pool, authenticating and selecting the
  configured database as required; after it, for any sequence of \<open>Sync\<close> calls
  whose payloads can be serialised, \<open>Load\<close> of an id returns exactly what decoding the last payload sent for it
  gives, unless it was destroyed or the lifetime given to Redis is over, or what the server held under
  the prefixed key before. The configuration must not limit the active connections to a negative
  number; a configuration that names no database works on database 0.
\<close>

theorem redis_database_is_a_map:
  assumes "redis_server_ok srv site ok conns sel data" "ok s"
    and "serves site (redis_Config (redis_New cfg s))" "MaxActive (redis_Config (redis_New cfg s)) \<ge> 0"
    and "list_all (serialisable reg) cs"
    and "e = redis_replay reg cs (redis_stored data (redis_New cfg s)) sid"
  shows "\<exists>db'. redis_Load srv now sid m
       (run_syncs (redis_ops srv reg) cs (snd (snd (redis_Load srv now\<^sub>0 sid\<^sub>0 m\<^sub>0 (redis_New cfg s))))) =
     (fst (loads_blob (live_entry now e) m), snd (loads_blob (live_entry now e) m), db')"
proof -
  obtain db1 where con: "redis_Load srv now\<^sub>0 sid\<^sub>0 m\<^sub>0 (redis_New cfg s) = redis_fetch srv now\<^sub>0 sid\<^sub>0 m\<^sub>0 db1"
    "redis_ready site ok conns sel db1" "redis_stored data db1 = redis_stored data (redis_New cfg s)"
    using redis_Load_connects [OF assms(1-4)] by metis
  obtain db2 where db2: "snd (snd (redis_fetch srv now\<^sub>0 sid\<^sub>0 m\<^sub>0 db1)) = db2" "redis_ready site ok conns sel db2"
    "redis_stored data db2 = redis_stored data db1"
    using redis_fetch_ok [OF assms(1) con(2), of now\<^sub>0 sid\<^sub>0 m\<^sub>0] by (metis snd_conv)
  let ?db3 = "run_syncs (redis_ops srv reg) cs db2"
  have db3: "redis_ready site ok conns sel ?db3" "redis_stored data ?db3 sid = e"
    using redis_run_syncs_ok [OF assms(1) db2(2) assms(5)] db2(3) con(3) assms(6) by simp_all
  then show ?thesis
    using redis_fetch_ok [OF assms(1) db3(1), of now sid m] redis_Load_ready [OF db3(1), of srv now sid m] con(1) db2(1)
    by metis
qed

theorem redis_database_is_a_map_witness:
  "\<exists>r m' db'. redis_Load (mem_server mem_site) 0 ''x'' []
       (run_syncs (redis_ops (mem_server mem_site) (\<lambda>_. False)) [(0, [], sample_payload ''x'')]
         (snd (snd (redis_Load (mem_server mem_site) 0 ''x'' [] (redis_New [mem_config] mem_empty))))) = (r, m', db') \<and>
     Lifetime r = \<lparr>lt_Time = 9, lt_timer = None\<rparr>"
proof -
  have n: "sync_seconds 0 (Lifetime (PStore (sample_payload ''x''))) \<le> 0"
    using seconds_int_small [of "Time_Sub 9 0"]
    by (simp add: sync_seconds_def sample_payload_def sample_store_def Time_IsZero_def Time_Sub_def min_duration_def
        max_duration_def Second_def)
  have "redis_entry (\<lambda>_. False) 0 [] (sample_payload ''x'') = Some (GobBytes [(''k'', GInt 1)] 9, None)"
    using n sample_Serialize by (simp add: redis_entry_def synced_blob_def sample_payload_def Let_def)
  then have "\<exists>db'. redis_Load (mem_server mem_site) 0 ''x'' []
       (run_syncs (redis_ops (mem_server mem_site) (\<lambda>_. False)) [(0, [], sample_payload ''x'')]
         (snd (snd (redis_Load (mem_server mem_site) 0 ''x'' [] (redis_New [mem_config] mem_empty))))) =
     (fst (loads_blob (Some (GobBytes [(''k'', GInt 1)] 9)) []), snd (loads_blob (Some (GobBytes [(''k'', GInt 1)] 9)) []), db')"
    using redis_database_is_a_map [OF mem_server_ok, where s = mem_empty and cfg = "[mem_config]" and reg = "\<lambda>_. False"
        and cs = "[(0, [], sample_payload ''x'')]" and sid = "''x''" and now = 0 and m = "[]" and now\<^sub>0 = 0
        and sid\<^sub>0 = "''x''" and m\<^sub>0 = "[]", OF _ mem_config_ok _ refl] sample_Serialize
    by (simp add: serialisable_def live_entry_def sample_payload_def)
  then show ?thesis by (auto simp: loads_blob_def DecodeRemoteStore_def)
qed

text \<open>
  C30. The lifetime that \<open>Sync\<close> gives to a Redis key, once the database is connected to a server that
  works as documented and measures time by the same clock. A session that expires at least one second from
  now gets a key that Redis drops within one second of the session's own expiration (the remaining time
  is cut to whole seconds, after a floating-point rounding that can only add up to one second); the difference must fit a
  64-bit duration. But a session without an expiration, and also one that expires in less than a second
  or has expired already, is stored without any: that key stays in Redis for ever.
\<close>

theorem redis_Sync_expiration:
  assumes "redis_server_ok srv site ok conns sel data" "redis_ready site ok conns sel db"
    and "PAction p \<noteq> ActionDestroy" "RemoteStore_Serialize reg m (PStore p) = (b, False)"
    and "t = lt_Time (Lifetime (PStore p))" "t - now \<le> max_duration" "min_duration \<le> t - now"
  shows "if t \<noteq> 0 \<and> now + Second \<le> t
     then \<exists>u. redis_stored data (redis_Sync srv reg now m p db) (SessionID p) = Some (b, Some u) \<and>
        t - Second < u \<and> u \<le> t + Second
     else redis_stored data (redis_Sync srv reg now m p db) (SessionID p) = Some (b, None)"
proof -
  have "redis_stored data (redis_Sync srv reg now m p db) (SessionID p) = redis_entry reg now m p"
    using redis_sync_ok [OF assms(1,2), of reg now m p] assms(2,4)
    by (simp add: redis_Sync_def redis_ready_def serialisable_def)
  then show ?thesis using redis_entry_expiration [OF assms(3-7)] by simp
qed

theorem redis_Sync_expiration_witness:
  "let db = snd (snd (redis_Load (mem_server mem_site) 0 ''x'' [] (redis_New [mem_config] mem_empty)))
   in redis_stored mr_data (redis_Sync (mem_server mem_site) (\<lambda>_. False) 8 [] (sample_payload ''x'') db) ''x'' =
        Some (GobBytes [(''k'', GInt 1)] 9, None) \<and>
      (\<exists>u. redis_stored mr_data (redis_Sync (mem_server mem_site) (\<lambda>_. False) (- 5000000000) [] (sample_payload ''x'') db) ''x'' =
          Some (GobBytes [(''k'', GInt 1)] 9, Some u) \<and> - 1000000000 < u \<and> u \<le> 1000000009)"
proof -
  let ?db = "snd (snd (redis_Load (mem_server mem_site) 0 ''x'' [] (redis_New [mem_config] mem_empty)))"
  have e: "PAction (sample_payload ''x'') \<noteq> ActionDestroy"
    "RemoteStore_Serialize (\<lambda>_. False) [] (PStore (sample_payload ''x'')) = (GobBytes [(''k'', GInt 1)] 9, False)"
    "9 = lt_Time (Lifetime (PStore (sample_payload ''x'')))" and sid: "SessionID (sample_payload ''x'') = ''x''"
    using sample_Serialize by (simp_all add: sample_payload_def) (simp add: sample_store_def)
  show ?thesis
    using redis_Sync_expiration [OF mem_server_ok mem_db_ready e, of 8]
      redis_Sync_expiration [OF mem_server_ok mem_db_ready e, of "- 5000000000"]
    by (auto simp: Second_def max_duration_def min_duration_def sid Let_def)
qed

text \<open>
  C39. Only \<open>Load\<close> connects. A \<open>Sync\<close> of a payload that can be serialised, on a new database on which
  \<open>Load\<close> was never called (a database registered while sessions already exist), calls the nil \<open>Dial\<close> of
  the empty pool and panics, whatever the configuration and the server.
\<close>

theorem redis_Sync_before_Load_panics:
  assumes "serialisable reg (now, m, p)"
  shows "rd_panic (redis_Sync srv reg now m p (redis_New cfg s)) \<and> rd_srv (redis_Sync srv reg now m p (redis_New cfg s)) = s"
  using assms
  by (auto simp: redis_Sync_def redis_sync_def redis_New_def redis_call_def service_Delete_def service_Set_def
      service_do_New map_reply_def serialisable_def case_prod_beta)

theorem redis_Sync_before_Load_panics_witness:
  "rd_panic (redis_Sync (mem_server mem_site) (\<lambda>_. False) 0 [] (sample_payload ''x'') (redis_New [mem_config] mem_empty))"
  using redis_Sync_before_Load_panics [of "\<lambda>_. False" 0 "[]" "sample_payload ''x''" "mem_server mem_site" "[mem_config]" mem_empty] sample_Serialize
  by (simp add: serialisable_def sample_payload_def)

end
