(* ===== verification/Backends.thy ===== *)
theory Backends
  imports BoltDB LevelDB BadgerCleanup RedisDB
begin

text \<open>
  Properties that compare the back-ends: what they do with a payload that cannot be serialised, and
  how the order of the goroutines matters in asynchronous mode.
\<close>

section \<open>Asynchronous mode\<close>

lemma file_working_Async: "file_ready db \<Longrightarrow> file_working (file_Async True db)"
  by (simp add: file_working_def file_Async_def file_ready_def sessPath_def)

lemma file_pending_Async [simp]: "fd_pending (file_Async a db) = fd_pending db"
  by (simp add: file_Async_def)

lemma file_stored_Async [simp]: "file_stored (file_Async a db) = file_stored db"
  by (simp add: file_stored_def file_Async_def sessPath_def fun_eq_iff)

text \<open>
  C40. The scheduler may run the goroutines in another order. If a session is changed and then
  destroyed, and the goroutine of the destroy payload runs first, the file of the destroyed session is
  written again and stays: the session is back in the database.
\<close>

theorem file_async_destroyed_session_returns:
  assumes "file_ready db" "fd_pending db = []" "safe_sid sid" "SessionID p = sid" "SessionID q = sid"
    and "PAction p \<noteq> ActionDestroy" "PAction q = ActionDestroy"
    and "RemoteStore_Serialize reg m\<^sub>2 (PStore p) = (b, False)"
  shows "file_stored (file_run_pending reg m\<^sub>2 0 (file_run_pending reg m\<^sub>1 1
       (file_Sync reg now m q (file_Sync reg now m p (file_Async True db))))) sid = Some b"
  using file_async.reordered_destroy [OF file_working_Async [OF assms(1)] _ assms(3,4,5,7), of reg now m\<^sub>2 m\<^sub>1 m]
    assms(2,6,8)
  by (simp add: file_ops_def serialisable_def synced_blob_def)

theorem file_async_destroyed_session_returns_witness:
  "file_stored (file_run_pending (\<lambda>_. False) [] 0 (file_run_pending (\<lambda>_. False) [] 1
     (file_Sync (\<lambda>_. False) 0 [] ((sample_payload ''x'')\<lparr>PAction := ActionDestroy\<rparr>)
       (file_Sync (\<lambda>_. False) 0 [] (sample_payload ''x'') (file_Async True file_sample_db))))) ''x'' =
   Some (GobBytes [(''k'', GInt 1)] 9)"
  using file_async_destroyed_session_returns [OF file_db_ready, of "''x''" "sample_payload ''x''"
      "(sample_payload ''x'')\<lparr>PAction := ActionDestroy\<rparr>" "\<lambda>_. False" "[]"] sample_Serialize
  by (simp add: sample_payload_def safe_sid_def file_sample_db_def)

section \<open>Payloads that cannot be serialised\<close>

text \<open>
  C38. A payload whose store holds a value that gob cannot send (a type that is not registered)
  destroys the stored session in three back-ends: \<open>sync\<close> of the BoltDB, LevelDB and Badger databases
  logs the error and stores what was written, so that the next \<open>Load\<close> finds nothing, although an
  earlier version of the session was stored. The file database keeps the earlier version.
\<close>

theorem unserialisable_payload_loses_session:
  assumes "bolt_ready bdb" "level_ready ldb" "badger_ready gdb" "file_ready fdb"
    and "bolt_safe sid" "safe_sid sid" "SessionID p = sid" "PAction p \<noteq> ActionDestroy"
    and "snd (RemoteStore_Serialize reg m (PStore p))"
  shows "fst (bolt_Load now' sid m' (bolt_Sync reg now m p bdb)) = zero_remote \<and>
     fst (level_Load now' sid m' (level_Sync reg now m p ldb)) = zero_remote \<and>
     fst (badger_Load now' sid m' (badger_Sync reg now m p gdb)) = zero_remote \<and>
     file_stored (file_Sync reg now m p fdb) sid = file_stored fdb sid"
proof -
  have safe: "bolt_safe (SessionID p)" "level_safe (SessionID p)" "badger_safe (SessionID p)"
    using assms(5,7) by (auto simp: bolt_safe_def level_safe_def badger_safe_def bad_key_def maxKeySize_def)
  have "fst (bolt_Load now' sid m' (bolt_Sync reg now m p bdb)) = zero_remote"
    using bolt_map.load_after_broken_sync [OF assms(1) safe(1) assms(8,9) refl, of now' m' now] assms(7)
    by (metis bolt_ops_def dbops.select_convs prod.collapse)
  moreover have "fst (level_Load now' sid m' (level_Sync reg now m p ldb)) = zero_remote"
    using level_map.load_after_broken_sync [OF assms(2) safe(2) assms(8,9) refl, of now' m' now] assms(7)
    by (metis level_ops_def dbops.select_convs prod.collapse)
  moreover have "fst (badger_Load now' sid m' (badger_Sync reg now m p gdb)) = zero_remote"
    using badger_map.load_after_broken_sync [OF assms(3) safe(3) assms(8,9) refl, of now' m' now] assms(7)
    by (metis badger_ops_def dbops.select_convs prod.collapse)
  moreover have "file_stored (file_Sync reg now m p fdb) sid = file_stored fdb sid"
    using assms(4,8,9) by (simp add: file_Sync_def file_ready_def file_sync_def file_override_def case_prod_beta)
  ultimately show ?thesis by simp
qed

definition broken_payload :: "string \<Rightarrow> SyncPayload" where
  "broken_payload sid = zero_payload\<lparr>SessionID := sid, PAction := ActionInsert, PStore :=
     \<lparr>Values = \<lparr>arr = [\<lparr>Key = ''k'', ValueRaw = VOther 5, immutable = False\<rparr>], slen = 1\<rparr>, Lifetime = zero_lifetime\<rparr>\<rparr>"

theorem unserialisable_payload_loses_session_witness:
  "let ldb = \<lparr>le_pairs = [(''x'', GobBytes [(''k'', GInt 1)] 9)], le_open = True, le_async = False, le_pending = []\<rparr>
   in fst (level_Load 0 ''x'' [] (level_Sync (\<lambda>_. False) 0 [] (broken_payload ''x'') ldb)) = zero_remote \<and>
      level_stored ldb ''x'' = Some (GobBytes [(''k'', GInt 1)] 9)"
proof -
  let ?ldb = "\<lparr>le_pairs = [(''x'', GobBytes [(''k'', GInt 1)] 9)], le_open = True, le_async = False, le_pending = []\<rparr>"
  let ?bdb = "\<lparr>bo_table = ''t'', bo_buckets = [(''t'', [])], bo_open = True, bo_async = False, bo_pending = []\<rparr>"
  let ?gdb = "\<lparr>ba_pairs = [], ba_open = True\<rparr>"
  have "snd (RemoteStore_Serialize (\<lambda>_. False) [] (PStore (broken_payload ''x'')))"
    by (simp add: broken_payload_def RemoteStore_Serialize_def gob_entries_def store_elems_def gob_depth_def registered_def)
  moreover have "bolt_ready ?bdb" "level_ready ?ldb" "badger_ready ?gdb"
    by (simp_all add: bolt_ready_def bolt_live_def bolt_getBucket_def level_ready_def level_live_def kv_sorted_Cons badger_ready_def)
  ultimately show ?thesis
    using unserialisable_payload_loses_session [of ?bdb ?ldb ?gdb file_sample_db "''x''" "broken_payload ''x''" "\<lambda>_. False" "[]" 0 "[]" 0]
      file_db_ready
    by (simp add: bolt_safe_def safe_sid_def broken_payload_def level_stored_def)
qed

end
