(* ===== verification/Examples.thy ===== *)
theory Examples
  imports HttpApp Backends
begin

text \<open>
  The applications under \<^verbatim>\<open>_examples/\<close>: for each one the manager that its \<open>main\<close> sets up and the handlers
  it registers. The five applications \<^verbatim>\<open>standalone\<close>, \<^verbatim>\<open>securecookie\<close>, \<^verbatim>\<open>database/file\<close>, \<^verbatim>\<open>database/boltdb\<close>
  and \<^verbatim>\<open>database/redis\<close> register the same handlers for a value \<open>name\<close>, which are defined once
  (\<open>name_\<close>); they differ in the configuration and the database.

  Packages \<open>securecookie\<close> and \<open>fasthttp\<close> are not part of the sources: what the applications call of them is
  an argument. A \<open>businessModel\<close> is a struct with one string; as the value of an opaque kind it is
  numbered by the bytes of that string.
\<close>

section \<open>The handlers for a name\<close>

definition name_index :: "'d handler" where
  "name_index r = respond (Write ''You should navigate to the /set, /get, /delete, /clear,/destroy instead'')"

definition name_set :: "'d dbops \<Rightarrow> 'd handler" where
  "name_set ops r ws =
     bind_out (with_cookies (Start ops r) ws) (\<lambda>s ws1.
       bind_out (session_call (Session_Set ops s ''name'' (VString ''iris'')) ws1) (\<lambda>_ ws2.
         bind_out (session_call (on_session s (Session_GetString ''name'')) ws2) (\<lambda>name.
           respond (Write (''All ok session setted to: '' @ name)))))"

definition name_get :: "'d dbops \<Rightarrow> 'd handler" where
  "name_get ops r ws =
     bind_out (with_cookies (Start ops r) ws) (\<lambda>s ws1.
       bind_out (session_call (on_session s (Session_GetString ''name'')) ws1) (\<lambda>name.
         respond (Write (''The name on the /set was: '' @ name))))"

definition name_delete :: "'d dbops \<Rightarrow> 'd handler" where
  "name_delete ops r ws =
     bind_out (with_cookies (Start ops r) ws) (\<lambda>s ws1.
       bind_out (session_call (Session_Delete ops s ''name'') ws1) (\<lambda>_ ws2. (Ret (), ws2)))"

definition name_clear :: "'d dbops \<Rightarrow> 'd handler" where
  "name_clear ops r ws =
     bind_out (with_cookies (Start ops r) ws) (\<lambda>s. session_call (Session_Clear ops s))"

definition name_update :: "'d handler" where
  "name_update r = with_cookies (ShiftExpiration r)"

definition name_destroy :: "'d dbops \<Rightarrow> 'd handler" where
  "name_destroy ops r = with_cookies (Destroy ops r)"

definition name_routes :: "'d dbops \<Rightarrow> (string \<times> 'd handler) list" where
  "name_routes ops =
     [(''/'', name_index), (''/set'', name_set ops), (''/get'', name_get ops), (''/delete'', name_delete ops),
      (''/clear'', name_clear ops), (''/update'', name_update), (''/destroy'', name_destroy ops)]"

section \<open>standalone\<close>

fun string_code :: "string \<Rightarrow> nat" where
  "string_code [] = 0"
| "string_code (c # cs) = Suc (of_char c + 256 * string_code cs)"

fun code_string :: "nat \<Rightarrow> string" where
  "code_string 0 = []"
| "code_string (Suc n) = char_of (n mod 256) # code_string (n div 256)"

lemma code_string_inverse [simp]: "code_string (string_code s) = s"
  by (induction s) simp_all

definition businessModel :: "string \<Rightarrow> val" where
  "businessModel Name = VOther (string_code Name)"

definition businessModel_Name :: "val \<Rightarrow> string" where
  "businessModel_Name v = (case v of VOther n \<Rightarrow> code_string n | _ \<Rightarrow> [])"

lemma businessModel_Name_simp [simp]: "businessModel_Name (businessModel s) = s"
  by (simp add: businessModel_Name_def businessModel_def)

text \<open>A composite literal in a handler, and \<open>v.([]businessModel)[i]\<close> read and written.\<close>

definition new_slice :: "val list \<Rightarrow> 'd world \<Rightarrow> val outcome \<times> 'd world" where
  "new_slice xs w =
     (let (a, m) = mem_alloc (CArr xs) (w_mem w)
      in (Ret (VSlice KOther (Some a) 0 (length xs) (length xs)), w\<lparr>w_mem := m\<rparr>))"

definition assert_slice :: "val \<Rightarrow> nat \<Rightarrow> unit outcome" where
  "assert_slice v i =
     (case v of
        VSlice KOther a off n c \<Rightarrow> if i < n then Ret () else Panic ''index out of range''
      | _ \<Rightarrow> Panic ''interface conversion'')"

definition slice_read :: "val \<Rightarrow> nat \<Rightarrow> 'd world \<Rightarrow> val outcome \<times> 'd world" where
  "slice_read v i w = bind_out (assert_slice v i, w) (\<lambda>_ w1. (Ret (slice_elems (w_mem w1) v ! i), w1))"

definition slice_write :: "val \<Rightarrow> nat \<Rightarrow> val \<Rightarrow> 'd world \<Rightarrow> unit outcome \<times> 'd world" where
  "slice_write v i x w =
     bind_out (assert_slice v i, w) (\<lambda>_ w1. (Ret (), w1\<lparr>w_mem := slice_set (w_mem w1) v i x\<rparr>))"

definition set_immutable :: "'d dbops \<Rightarrow> 'd handler" where
  "set_immutable ops r ws =
     bind_out (session_call (new_slice [businessModel ''Edward'', businessModel ''value 2'']) ws) (\<lambda>business ws1.
       bind_out (with_cookies (Start ops r) ws1) (\<lambda>s ws2.
         bind_out (session_call (Session_SetImmutable ops s ''businessEdit'' business) ws2) (\<lambda>_ ws3.
           bind_out (session_call (on_session s (Session_Get ''businessEdit'')) ws3) (\<lambda>businessGet.
             session_call (slice_write businessGet 0 (businessModel ''Gabriel''))))))"

definition get_immutable :: "'d dbops \<Rightarrow> 'd handler" where
  "get_immutable ops r ws =
     bind_out (with_cookies (Start ops r) ws) (\<lambda>s ws1.
       bind_out (session_call (on_session s (Session_Get ''businessEdit'')) ws1) (\<lambda>valSlice ws2.
         if valSlice = VNil then
           respond (\<lambda>w. Write ''please navigate to the <a href='/set_immutable'>/set_immutable</a> first''
             (Header_Set ''Content-Type'' ''text/html; charset=UTF-8'' w)) ws2
         else
           bind_out (session_call (slice_read valSlice 0) ws2) (\<lambda>firstModel ws3.
             if businessModel_Name firstModel \<noteq> ''Edward'' then
               (Panic ''Report this as a bug, immutable data cannot be changed from the caller without re-SetImmutable'', ws3)
             else respond (Write (''[]businessModel[0].Name remains: '' @ businessModel_Name firstModel)) ws3)))"

definition standalone_New where
  "standalone_New rand now gr unlimited =
     New rand now gr unlimited (zero_config\<lparr>Cookie := ''mysessionid'', Expires := 2 * 60 * 60 * Second\<rparr>)"

definition standalone_routes :: "'d dbops \<Rightarrow> (string \<times> 'd handler) list" where
  "standalone_routes ops =
     [(''/'', name_index), (''/set'', name_set ops), (''/get'', name_get ops), (''/delete'', name_delete ops),
      (''/clear'', name_clear ops), (''/update'', name_update), (''/destroy'', name_destroy ops),
      (''/set_immutable'', set_immutable ops), (''/get_immutable'', get_immutable ops)]"

section \<open>securecookie\<close>

text \<open>\<open>securecookie.New\<close> makes the two functions from the keys.\<close>

type_synonym securecookie =
  "string \<Rightarrow> string \<Rightarrow> (nat \<Rightarrow> string \<Rightarrow> string \<Rightarrow> string option) \<times> (nat \<Rightarrow> string \<Rightarrow> string \<Rightarrow> string option option)"

definition securecookie_New :: "securecookie \<Rightarrow> (nat \<Rightarrow> byte list option) \<Rightarrow> time \<Rightarrow> (nat \<Rightarrow> nat) \<Rightarrow> time \<Rightarrow> 'd Sessions" where
  "securecookie_New sc rand now gr unlimited =
     (let secureCookie = sc ''the-big-and-secret-fash-key-here'' ''lot-secret-of-characters-big-too''
      in New rand now gr unlimited
           (zero_config\<lparr>Cookie := ''mycustomsessionid'', Encode := Some (fst secureCookie),
              Decode := Some (snd secureCookie)\<rparr>))"

definition securecookie_routes :: "'d dbops \<Rightarrow> (string \<times> 'd handler) list" where
  "securecookie_routes ops = name_routes ops"

section \<open>The applications with a database\<close>

text \<open>
  They ignore the error of \<open>New\<close>; with a failed one the database is nil and \<open>main\<close> goes on with it (\<open>None\<close>).
\<close>

definition file_example_New ::
  "(nat \<Rightarrow> byte list option) \<Rightarrow> time \<Rightarrow> (nat \<Rightarrow> nat) \<Rightarrow> time \<Rightarrow> fs \<Rightarrow> file_db Sessions option" where
  "file_example_New rand now gr unlimited f =
     (case file_New ''./sessions/'' 438 now [] f of
        (Ret (Some db), m, _) \<Rightarrow>
          (let s = New rand now gr unlimited (zero_config\<lparr>Cookie := ''sessionscookieid'', Expires := 45 * 60 * Second\<rparr>)
           in Some (snd (UseDatabase db (s\<lparr>m_world := (m_world s)\<lparr>w_mem := m\<rparr>\<rparr>))))
      | _ \<Rightarrow> None)"

definition file_example_routes :: "(gtype \<Rightarrow> bool) \<Rightarrow> (string \<times> file_db handler) list" where
  "file_example_routes reg = name_routes (file_ops reg)"

definition boltdb_example_New ::
  "(string \<Rightarrow> (string \<times> kv) list option) \<Rightarrow> (nat \<Rightarrow> byte list option) \<Rightarrow> time \<Rightarrow> (nat \<Rightarrow> nat) \<Rightarrow> time \<Rightarrow> fs
     \<Rightarrow> bolt_db Sessions option" where
  "boltdb_example_New openf rand now gr unlimited f =
     (case bolt_New openf ''./sessions/sessions.db'' ''users'' now [] f of
        (Some db, _, m, _) \<Rightarrow>
          (let s = New rand now gr unlimited (zero_config\<lparr>Cookie := ''sessionscookieid'', Expires := 60 * Second\<rparr>)
           in Some (snd (UseDatabase db (s\<lparr>m_world := (m_world s)\<lparr>w_mem := m\<rparr>\<rparr>))))
      | _ \<Rightarrow> None)"

definition boltdb_example_routes :: "(gtype \<Rightarrow> bool) \<Rightarrow> (string \<times> bolt_db handler) list" where
  "boltdb_example_routes reg = name_routes (bolt_ops reg)"

definition redis_example_New ::
  "(nat \<Rightarrow> byte list option) \<Rightarrow> time \<Rightarrow> (nat \<Rightarrow> nat) \<Rightarrow> time \<Rightarrow> 's \<Rightarrow> 's redis_db Sessions" where
  "redis_example_New rand now gr unlimited srv =
     (let db = redis_New [\<lparr>Network = DefaultRedisNetwork, Addr = DefaultRedisAddr, Password = [], RDatabase = [],
                 MaxIdle = 0, MaxActive = 0, IdleTimeout = DefaultRedisIdleTimeout, Prefix = []\<rparr>] srv
      in snd (UseDatabase db (New rand now gr unlimited (zero_config\<lparr>Cookie := ''sessionscookieid''\<rparr>))))"

definition redis_example_routes :: "'s redis_server \<Rightarrow> (gtype \<Rightarrow> bool) \<Rightarrow> (string \<times> 's redis_db handler) list" where
  "redis_example_routes srv reg = name_routes (redis_ops srv reg)"

section \<open>overview\<close>

definition overview_New where
  "overview_New rand now gr unlimited =
     New rand now gr unlimited (zero_config\<lparr>Cookie := ''mycookiesessionnameid''\<rparr>)"

definition secret :: "'d dbops \<Rightarrow> 'd handler" where
  "secret ops r ws =
     bind_out (with_cookies (Start ops r) ws) (\<lambda>s ws1.
       bind_out (session_call (on_session s (Session_GetBoolean ''authenticated'')) ws1) (\<lambda>(auth, _).
         if \<not> auth then respond (WriteHeader 403) else respond (Write ''The cake is a lie!'')))"

definition login :: "'d dbops \<Rightarrow> 'd handler" where
  "login ops r ws =
     bind_out (with_cookies (Start ops r) ws) (\<lambda>session.
       session_call (Session_Set ops session ''authenticated'' (VBool True)))"

definition logout :: "'d dbops \<Rightarrow> 'd handler" where
  "logout ops r ws =
     bind_out (with_cookies (Start ops r) ws) (\<lambda>session.
       session_call (Session_Set ops session ''authenticated'' (VBool False)))"

definition overview_routes :: "'d dbops \<Rightarrow> (string \<times> 'd handler) list" where
  "overview_routes ops = [(''/secret'', secret ops), (''/login'', login ops), (''/logout'', logout ops)]"

section \<open>flash-messages\<close>

definition flash_New where
  "flash_New rand now gr unlimited = New rand now gr unlimited (zero_config\<lparr>Cookie := ''myappsessionid''\<rparr>)"

definition flash_set :: "'d dbops \<Rightarrow> 'd handler" where
  "flash_set ops r ws =
     bind_out (with_cookies (Start ops r) ws) (\<lambda>s ws1.
       bind_out (session_call (on_session s (Session_SetFlash ''name'' (VString ''iris''))) ws1) (\<lambda>_.
         respond (Write ''Message setted, is available for the next request'')))"

definition flash_get :: "'d dbops \<Rightarrow> 'd handler" where
  "flash_get ops r ws =
     bind_out (with_cookies (Start ops r) ws) (\<lambda>s ws1.
       bind_out (session_call (on_session s (Session_GetFlashString ''name'')) ws1) (\<lambda>name.
         if name = [] then respond (Write ''Empty name!!'') else respond (Write (''Hello '' @ name))))"

definition flash_test :: "'d dbops \<Rightarrow> 'd handler" where
  "flash_test ops r ws =
     bind_out (with_cookies (Start ops r) ws) (\<lambda>s ws1.
       bind_out (session_call (on_session s (Session_GetFlashString ''name'')) ws1) (\<lambda>name.
         if name = [] then respond (Write ''Empty name!!'')
         else respond (\<lambda>w. Write ('', and again from the same context: '' @ name)
                (Write (''Ok you are coming from /set ,the value of the name is '' @ name) w))))"

definition flash_routes :: "'d dbops \<Rightarrow> (string \<times> 'd handler) list" where
  "flash_routes ops = [(''/set'', flash_set ops), (''/get'', flash_get ops), (''/test'', flash_test ops)]"

section \<open>fasthttp\<close>

text \<open>
  The application uses the manager \<open>Default\<close>. \<open>range\<close> visits the map \<open>values\<close> in any order, the argument
  \<open>order\<close>; \<open>fmt\<close> is the text that \<open>fmt.Sprintf\<close> makes of the values with the verb \<open>%#v\<close>.
\<close>

record 'c fasthttp_io =
  fh_Path :: "'c \<Rightarrow> string"
  fh_WriteString :: "string \<Rightarrow> 'c \<Rightarrow> 'c"

definition fasthttp_values :: "(string \<times> val) list" where
  "fasthttp_values =
     [(''Name'', VString ''go-sessions''), (''Days'', VString ''1''),
      (''Secret'', VString (''dsads'' @ [CHR 0xC2, CHR 0xA3] @ ''2132215'' @ [CHR 0xC2, CHR 0xA3] @ ''%%Ssdsa''))]"

fun set_loop :: "'d dbops \<Rightarrow> (string \<times> val) list \<Rightarrow> nat \<Rightarrow> 'd world \<Rightarrow> unit outcome \<times> 'd world" where
  "set_loop ops [] sess w = (Ret (), w)"
| "set_loop ops ((k, v) # vs) sess w = bind_out (Session_Set ops sess k v w) (\<lambda>_. set_loop ops vs sess)"

definition setHandler where
  "setHandler ops fh io order ws =
     bind_out (pkg_StartFasthttp ops fh ws) (\<lambda>sess ws1.
       bind_out (session_call (set_loop ops order sess) ws1) (\<lambda>_.
         respond (fh_WriteString io ''Session saved, go to /get to view the results'')))"

definition getHandler where
  "getHandler ops fh io fmt ws =
     bind_out (pkg_StartFasthttp ops fh ws) (\<lambda>sess ws1.
       bind_out (session_call (on_session sess Session_GetAll) ws1) (\<lambda>sessValues.
         respond (fh_WriteString io (fmt sessValues))))"

definition clearHandler where
  "clearHandler ops fh ws =
     bind_out (pkg_StartFasthttp ops fh ws) (\<lambda>sess. session_call (Session_Clear ops sess))"

definition destroyHandler where
  "destroyHandler ops fh = pkg_DestroyFasthttp ops fh"

definition fasthttp_app where
  "fasthttp_app ops fh io order fmt = (\<lambda>(ctx, s).
     let path = fh_Path io ctx in
     if path = ''/set'' then setHandler ops fh io order (ctx, s)
     else if path = ''/get'' then getHandler ops fh io fmt (ctx, s)
     else if path = ''/clear'' then clearHandler ops fh (ctx, s)
     else if path = ''/destroy'' then destroyHandler ops fh (ctx, s)
     else respond (fh_WriteString io ''Please navigate to /set or /get or /clear or /destroy'') (ctx, s))"

end
