(* ===== verification/OverviewApp.thy ===== *)
theory OverviewApp
  imports Examples
begin

text \<open>
  The application of \<^verbatim>\<open>_examples/overview\<close> authenticates its visitors: it refines an abstract one whose state
  is the set of the authenticated session ids and the number of ids generated so far. The
  simulation relation and its preservation by every request, for any sequence of requests with any
  cookies. Lemmas for requests to managers without \<open>Encode\<close> and \<open>Decode\<close> come first.
\<close>

section \<open>Managers with plain cookies\<close>

text \<open>A manager whose cookie is the session id and whose generator returns \<open>gen n\<close> on its n-th call.\<close>

definition plain_manager :: "(nat \<Rightarrow> string) \<Rightarrow> string \<Rightarrow> Config \<Rightarrow> bool" where
  "plain_manager gen name cfg =
     (Cookie cfg = name \<and> Encode cfg = None \<and> Decode cfg = None \<and>
      (\<exists>g. SessionIDGenerator cfg = Some g \<and> (\<forall>n. g n = Ret (gen n))))"

definition plain_sid :: "(nat \<Rightarrow> string) \<Rightarrow> string \<Rightarrow> nat \<Rightarrow> string" where
  "plain_sid gen cookie n = (if cookie = [] then gen n else cookie)"

lemma visitor_plain:
  "plain_manager gen name (m_config s) \<Longrightarrow>
     visitor cookie s = Some (plain_sid gen cookie (m_calls s), cookie = [])"
  by (auto simp: visitor_def plain_manager_def plain_sid_def decodeCookieValue_def SessionIDGenerator_call_def)

lemma plain_manager_New:
  assumes "\<forall>n. default_generator rand n = Ret (gen n)" "Cookie cfg = name" "name \<noteq> []"
    and "Encode cfg = None" "Decode cfg = None" "SessionIDGenerator cfg = None"
  shows "plain_manager gen name (m_config (New rand now gr unlimited cfg))"
  using assms by (simp add: plain_manager_def New_def)

lemma live_New: "live_world (m_world (New rand now gr unlimited cfg))" "world_map (m_world (New rand now gr unlimited cfg)) = Map.empty"
  using no_db.wf_New [of rand now gr unlimited cfg]
  by (simp_all add: live_world_def sessions_unlocked_def New_def newProvider_def world_map_def fun_eq_iff)

lemma m_calls_New [simp]: "m_calls (New rand now gr unlimited cfg) = 0"
  by (simp add: New_def)

text \<open>What a visit leaves of a manager with plain cookies.\<close>

lemma visited_plain:
  assumes "plain_manager gen name (m_config s)" "visited s sid (cookie = []) vals s'"
  shows "plain_manager gen name (m_config s')" "m_calls s' = (if cookie = [] then Suc (m_calls s) else m_calls s)"
    "live_world (m_world s')" "world_map (m_world s') = (world_map (m_world s))(sid \<mapsto> vals)"
    "w_mem (m_world s') = w_mem (m_world s)"
  using assms by (auto simp: plain_manager_def visited_def)

text \<open>The pages the handlers make: a text with status 200, a bare status, an empty page.\<close>

lemma page_simps:
  assumes "page rw = page new_writer"
  shows "rw_status (WriteHeader 200 (Write text rw)) = Some 200" "rw_body (WriteHeader 200 (Write text rw)) = text"
    "rw_status (WriteHeader 200 (WriteHeader n rw)) = Some n" "rw_body (WriteHeader 200 (WriteHeader n rw)) = []"
    "rw_status (WriteHeader 200 rw) = Some 200" "rw_body (WriteHeader 200 rw) = []"
  using assms by (auto simp: page_def new_writer_def Write_def WriteHeader_def rw_status_def Let_def)

section \<open>The abstract application\<close>

definition overview_spec ::
  "(nat \<Rightarrow> string) \<Rightarrow> string \<times> string \<Rightarrow> nat \<times> string set \<Rightarrow> (nat \<times> string) \<times> nat \<times> string set" where
  "overview_spec gen = (\<lambda>(path, cookie) (n, A).
     let sid = plain_sid gen cookie n;
         (n1, A1) = (if cookie = [] then (Suc n, A - {sid}) else (n, A))
     in if path = ''/secret'' then (if sid \<in> A1 then (200, ''The cake is a lie!'') else (403, []), n1, A1)
        else if path = ''/login'' then ((200, []), n1, insert sid A1)
        else if path = ''/logout'' then ((200, []), n1, A1 - {sid})
        else ((404, ''404 page not found'' @ [CHR 0x0A]), n, A))"

fun spec_run :: "('q \<Rightarrow> 's \<Rightarrow> 'a \<times> 's) \<Rightarrow> 'q list \<Rightarrow> 's \<Rightarrow> 'a list" where
  "spec_run f [] st = []"
| "spec_run f (q # qs) st = fst (f q st) # spec_run f qs (snd (f q st))"

text \<open>The client's view of an abstract answer.\<close>

definition answered :: "nat \<times> string \<Rightarrow> unit outcome \<times> nat option \<times> string" where
  "answered = (\<lambda>(status, body). (Ret (), Some status, body))"

text \<open>If every request keeps the relation and is answered as specified, so is every sequence of requests.\<close>

lemma answers_refine:
  assumes "\<And>path r s st. R s st \<Longrightarrow> \<exists>a s'. answer routes (path, r) s = (a, s') \<and>
      seen a = answered (fst (f (path, GetCookie r name) st)) \<and> R s' (snd (f (path, GetCookie r name) st))"
    and "R s st"
  shows "map seen (fst (answers routes reqs s)) =
     map answered (spec_run f (map (\<lambda>(path, r). (path, GetCookie r name)) reqs) st)"
  using assms(2)
proof (induction reqs arbitrary: s st)
  case (Cons q reqs)
  obtain path r where q: "q = (path, r)" by (cases q)
  obtain a s' where "answer routes (path, r) s = (a, s')" "seen a = answered (fst (f (path, GetCookie r name) st))"
    "R s' (snd (f (path, GetCookie r name) st))"
    using assms(1) [OF Cons.prems] by blast
  with Cons.IH show ?case unfolding q by (simp split: prod.split) (metis fst_conv)
qed simp

section \<open>The simulation\<close>

definition authenticated :: "(string \<rightharpoonup> (string \<rightharpoonup> Entry)) \<Rightarrow> string set" where
  "authenticated A = {sid. \<exists>vals. A sid = Some vals \<and> value_at ''authenticated'' vals = VBool True}"

definition overview_rel :: "(nat \<Rightarrow> string) \<Rightarrow> 'd Sessions \<Rightarrow> nat \<times> string set \<Rightarrow> bool" where
  "overview_rel gen s = (\<lambda>(n, A).
     live_world (m_world s) \<and> plain_manager gen ''mycookiesessionnameid'' (m_config s) \<and> m_calls s = n \<and>
     (\<forall>sid vals. world_map (m_world s) sid = Some vals \<longrightarrow> mutable_at ''authenticated'' vals) \<and>
     A = authenticated (world_map (m_world s)))"

lemma mutable_empty [simp]: "mutable_at k Map.empty" "value_at k Map.empty = VNil"
  by (simp_all add: mutable_at_def value_at_def)

lemma map_save_at:
  "mutable_at k vals \<Longrightarrow> mutable_at k (map_save k v False vals) \<and> value_at k (map_save k v False vals) = v"
  "k' \<noteq> k \<Longrightarrow> mutable_at k' (map_save k v imm vals) = mutable_at k' vals \<and> value_at k' (map_save k v imm vals) = value_at k' vals"
  by (auto simp: mutable_at_def value_at_def map_save_def saved_entry_def split: option.splits)

lemma authenticated_upd:
  "authenticated (A(sid \<mapsto> vals)) =
     (if value_at ''authenticated'' vals = VBool True then insert sid (authenticated A) else authenticated A - {sid})"
  by (auto simp: authenticated_def)

lemma secret_eq:
  "secret ops r ws =
     bind_out (bind_out (with_cookies (Start ops r) ws)
         (\<lambda>s. session_call (on_session s (Session_GetBoolean ''authenticated''))))
       (\<lambda>a. respond (if \<not> fst a then WriteHeader 403 else Write ''The cake is a lie!''))"
  by (simp only: secret_def bind_out_assoc split_def if_distrib [of respond])

lemma values_of_mutable:
  "(\<forall>sid vals. A sid = Some vals \<longrightarrow> mutable_at k vals) \<Longrightarrow> mutable_at k (values_of sid fresh A)"
  by (auto simp: values_of_def split: option.split)

lemma overview_handlers:
  fixes s :: "'d Sessions" and r :: http_request
  assumes "overview_rel gen s (n, A)"
  defines "cookie \<equiv> GetCookie r ''mycookiesessionnameid''"
  defines "sid \<equiv> plain_sid gen cookie n"
  defines "vals \<equiv> values_of sid (cookie = []) (world_map (m_world s))"
  shows "\<exists>rw s'. secret ops r (new_writer, s) =
      (Ret (), (if value_at ''authenticated'' vals = VBool True then Write ''The cake is a lie!'' else WriteHeader 403) rw, s') \<and>
      page rw = page new_writer \<and> visited s sid (cookie = []) vals s'"
    "\<exists>rw s'. login ops r (new_writer, s) = (Ret (), rw, s') \<and> page rw = page new_writer \<and>
      visited s sid (cookie = []) (map_save ''authenticated'' (VBool True) False vals) s'"
    "\<exists>rw s'. logout ops r (new_writer, s) = (Ret (), rw, s') \<and> page rw = page new_writer \<and>
      visited s sid (cookie = []) (map_save ''authenticated'' (VBool False) False vals) s'"
proof -
  have s: "live_world (m_world s)" "plain_manager gen ''mycookiesessionnameid'' (m_config s)" "m_calls s = n"
    "\<forall>sid vals. world_map (m_world s) sid = Some vals \<longrightarrow> mutable_at ''authenticated'' vals"
    using assms(1) by (auto simp: overview_rel_def)
  have name: "Cookie (m_config s) = ''mycookiesessionnameid''" using s(2) by (simp add: plain_manager_def)
  have vis: "visitor (GetCookie r (Cookie (m_config s))) s = Some (sid, cookie = [])"
    using visitor_plain [OF s(2)] s(3) name by (simp add: sid_def cookie_def)
  note op = start_op_page [OF _ s(1) vis, of _ _ _ ops new_writer, folded vals_def]
  have mut: "mutable_at ''authenticated'' vals" using values_of_mutable [OF s(4)] by (simp add: vals_def)
  have bool: "fst (fst (case value_at k vals of VBool b \<Rightarrow> (b, None) | v \<Rightarrow> (False, Some (IntParseError ''bool'' k v)), vals)) \<longleftrightarrow>
      value_at k vals = VBool True" for k
    by (cases "value_at k vals") simp_all
  show "\<exists>rw s'. login ops r (new_writer, s) = (Ret (), rw, s') \<and> page rw = page new_writer \<and>
      visited s sid (cookie = []) (map_save ''authenticated'' (VBool True) False vals) s'"
    unfolding login_def using op [OF session_op_Set] by simp
  show "\<exists>rw s'. logout ops r (new_writer, s) = (Ret (), rw, s') \<and> page rw = page new_writer \<and>
      visited s sid (cookie = []) (map_save ''authenticated'' (VBool False) False vals) s'"
    unfolding logout_def using op [OF session_op_Set] by simp
  show "\<exists>rw s'. secret ops r (new_writer, s) =
      (Ret (), (if value_at ''authenticated'' vals = VBool True then Write ''The cake is a lie!'' else WriteHeader 403) rw, s') \<and>
      page rw = page new_writer \<and> visited s sid (cookie = []) vals s'"
  proof -
    obtain rw s' where "secret ops r (new_writer, s) = (Ret (), (if \<not> fst (fst (case value_at ''authenticated'' vals of
          VBool b \<Rightarrow> (b, None) | v \<Rightarrow> (False, Some (IntParseError ''bool'' ''authenticated'' v)), vals))
        then WriteHeader 403 else Write ''The cake is a lie!'') rw, s')" "page rw = page new_writer"
      "visited s sid (cookie = []) vals s'"
      using start_op_respond [OF session_op_GetBoolean s(1) vis, folded vals_def, OF mut, of ops new_writer
          "\<lambda>a. if \<not> fst a then WriteHeader 403 else Write ''The cake is a lie!''"]
      unfolding secret_eq snd_conv by blast
    then show ?thesis unfolding bool by (cases "value_at ''authenticated'' vals = VBool True") auto
  qed
qed

lemma answer_Ret:
  "ServeMux routes path r (new_writer, s) = (Ret (), rw, s') \<Longrightarrow> answer routes (path, r) s = ((Ret (), WriteHeader 200 rw), s')"
  by (simp add: answer_def)

lemma seen_simps:
  assumes "page rw = page new_writer"
  shows "seen (Ret (), WriteHeader 200 rw) = answered (200, [])"
    "seen (Ret (), WriteHeader 200 (Write text rw)) = answered (200, text)"
    "seen (Ret (), WriteHeader 200 (WriteHeader n rw)) = answered (n, [])"
  using page_simps [OF assms] by (simp_all add: seen_def answered_def)

lemma overview_rel_visited:
  assumes "overview_rel gen s (n, A)" "visited s (plain_sid gen cookie n) (cookie = []) vals s'"
    and "mutable_at ''authenticated'' vals"
  shows "overview_rel gen s' (if cookie = [] then Suc n else n,
     if value_at ''authenticated'' vals = VBool True then insert (plain_sid gen cookie n) A else A - {plain_sid gen cookie n})"
proof -
  have s: "plain_manager gen ''mycookiesessionnameid'' (m_config s)" "m_calls s = n"
    "\<forall>sid vals. world_map (m_world s) sid = Some vals \<longrightarrow> mutable_at ''authenticated'' vals"
    "A = authenticated (world_map (m_world s))"
    using assms(1) by (auto simp: overview_rel_def)
  note v = visited_plain [OF s(1) assms(2)]
  show ?thesis
    using v s assms(3) by (auto simp: overview_rel_def authenticated_upd)
qed

lemma values_of_authenticated:
  "value_at ''authenticated'' (values_of sid fresh A) = VBool True \<longleftrightarrow> \<not> fresh \<and> sid \<in> authenticated A"
  by (auto simp: values_of_def authenticated_def split: option.split)

lemma overview_step:
  fixes s :: "'d Sessions"
  assumes "overview_rel gen s st"
  shows "\<exists>a s'. answer (overview_routes ops) (path, r) s = (a, s') \<and>
     seen a = answered (fst (overview_spec gen (path, GetCookie r ''mycookiesessionnameid'') st)) \<and>
     overview_rel gen s' (snd (overview_spec gen (path, GetCookie r ''mycookiesessionnameid'') st))"
proof -
  obtain n A where st: "st = (n, A)" by (cases st)
  let ?c = "GetCookie r ''mycookiesessionnameid''"
  let ?sid = "plain_sid gen ?c n"
  let ?vals = "values_of ?sid (?c = []) (world_map (m_world s))"
  note rel = assms [unfolded st]
  note h = overview_handlers [OF rel, of ops r]
  have A: "A = authenticated (world_map (m_world s))" "mutable_at ''authenticated'' ?vals"
    using rel values_of_mutable [of "world_map (m_world s)"] by (auto simp: overview_rel_def)
  note keep = overview_rel_visited [OF rel, of ?c]
  have mut: "mutable_at ''authenticated'' (map_save ''authenticated'' (VBool b) False ?vals)"
    "value_at ''authenticated'' (map_save ''authenticated'' (VBool b) False ?vals) = VBool b" for b
    using map_save_at(1) [OF A(2)] by auto
  consider "path = ''/secret''" | "path = ''/login''" | "path = ''/logout''"
    | "path \<notin> {''/secret'', ''/login'', ''/logout''}" by blast
  then show ?thesis
  proof cases
    case 1
    obtain rw s' where run: "secret ops r (new_writer, s) =
        (Ret (), (if value_at ''authenticated'' ?vals = VBool True then Write ''The cake is a lie!'' else WriteHeader 403) rw, s')"
      "page rw = page new_writer" "visited s ?sid (?c = []) ?vals s'"
      using h(1) by blast
    have "answer (overview_routes ops) (path, r) s = ((Ret (), WriteHeader 200
        ((if value_at ''authenticated'' ?vals = VBool True then Write ''The cake is a lie!'' else WriteHeader 403) rw)), s')"
      using run(1) 1 by (intro answer_Ret) (simp add: ServeMux_def overview_routes_def)
    then show ?thesis
      using keep [OF run(3) A(2)] 1 seen_simps [OF run(2)] A(1)
      by (cases "?c = []"; cases "?sid \<in> A") (auto simp: st overview_spec_def values_of_authenticated insert_absorb Let_def)
  next
    case 2
    obtain rw s' where run: "login ops r (new_writer, s) = (Ret (), rw, s')" "page rw = page new_writer"
      "visited s ?sid (?c = []) (map_save ''authenticated'' (VBool True) False ?vals) s'"
      using h(2) by blast
    have "answer (overview_routes ops) (path, r) s = ((Ret (), WriteHeader 200 rw), s')"
      using run(1) 2 by (intro answer_Ret) (simp add: ServeMux_def overview_routes_def)
    then show ?thesis
      using keep [OF run(3) mut(1), unfolded mut(2)] seen_simps(1) [OF run(2)] 2
      by (cases "?c = []") (auto simp: st overview_spec_def Let_def)
  next
    case 3
    obtain rw s' where run: "logout ops r (new_writer, s) = (Ret (), rw, s')" "page rw = page new_writer"
      "visited s ?sid (?c = []) (map_save ''authenticated'' (VBool False) False ?vals) s'"
      using h(3) by blast
    have "answer (overview_routes ops) (path, r) s = ((Ret (), WriteHeader 200 rw), s')"
      using run(1) 3 by (intro answer_Ret) (simp add: ServeMux_def overview_routes_def)
    then show ?thesis
      using keep [OF run(3) mut(1), unfolded mut(2)] seen_simps(1) [OF run(2)] 3
      by (cases "?c = []") (auto simp: st overview_spec_def Let_def)
  next
    case 4
    then have "answer (overview_routes ops) (path, r) s = ((Ret (), WriteHeader 200 (http_NotFound new_writer)), s)"
      by (intro answer_Ret) (auto simp: ServeMux_def overview_routes_def)
    moreover have "seen (Ret (), WriteHeader 200 (http_NotFound new_writer)) =
        answered (404, ''404 page not found'' @ [CHR 0x0A])"
      by (simp add: seen_def answered_def http_NotFound_def Write_def WriteHeader_def Header_Set_def new_writer_def
          rw_status_def)
    ultimately show ?thesis using 4 rel by (auto simp: st overview_spec_def Let_def)
  qed
qed

section \<open>Property\<close>

text \<open>
  C2. The example of the overview protects its secret. For every sequence of requests to its server,
  with any paths and any cookies, the answers are those of an abstract server that remembers only
  the set of authenticated session ids: \<open>/secret\<close> is answered exactly when the visitor's id is in it and
  forbidden otherwise, \<open>/login\<close> adds the visitor's id, \<open>/logout\<close> removes it, a visitor without a cookie
  gets a fresh id that is not in it, other paths are not found, and every request is answered. The
  hypothesis is that the random source delivers, \<open>gen n\<close> being the n-th id.
\<close>

theorem overview_protects_secret:
  assumes "\<forall>n. default_generator rand n = Ret (gen n)"
  shows "map seen (fst (answers (overview_routes ops) reqs (overview_New rand now gr unlimited))) =
     map answered (spec_run (overview_spec gen)
       (map (\<lambda>(path, r). (path, GetCookie r ''mycookiesessionnameid'')) reqs) (0, {}))"
proof (rule answers_refine [where R = "overview_rel gen"])
  show "overview_rel gen (overview_New rand now gr unlimited) (0, {})"
    by (simp add: overview_New_def overview_rel_def authenticated_def live_New plain_manager_New [OF assms] zero_config_def)
qed (rule overview_step)

text \<open>A random source and requests for examples.\<close>

lemma constant_rand:
  "\<forall>n. default_generator (\<lambda>_. Some (replicate 16 7)) n =
     Ret (UUID_String (UUID_SetVariant (UUID_SetVersion 4 (replicate 16 7))))"
  by (simp add: default_generator_def NewV4_def safeRandom_def)

definition visit :: "string \<Rightarrow> string \<Rightarrow> http_request" where
  "visit name v = \<lparr>r_Cookie = (if v = [] then [] else [cookie_line name v]), r_URL_Host = [], r_TLS = False, r_elapsed = 0\<rparr>"

lemma GetCookie_visit: "isCookieNameValid name \<Longrightarrow> plain_value v \<Longrightarrow> GetCookie (visit name v) name = v"
  by (auto simp: visit_def intro: GetCookie_line)

theorem overview_protects_secret_witness:
  "map seen (fst (answers (overview_routes rec_ops)
      [(''/secret'', visit ''mycookiesessionnameid'' []), (''/login'', visit ''mycookiesessionnameid'' ''x''),
       (''/secret'', visit ''mycookiesessionnameid'' ''x''), (''/secret'', visit ''mycookiesessionnameid'' ''y''),
       (''/logout'', visit ''mycookiesessionnameid'' ''x''), (''/secret'', visit ''mycookiesessionnameid'' ''x'')]
      (overview_New (\<lambda>_. Some (replicate 16 7)) 100 (\<lambda>_. 0) 500))) =
   [(Ret (), Some 403, []), (Ret (), Some 200, []), (Ret (), Some 200, ''The cake is a lie!''),
    (Ret (), Some 403, []), (Ret (), Some 200, []), (Ret (), Some 403, [])]"
proof -
  have name: "isCookieNameValid ''mycookiesessionnameid''" by (simp add: isCookieNameValid_def isToken_def Let_def)
  have plain: "plain_value []" "plain_value ''x''" "plain_value ''y''"
    by (simp_all add: plain_value_def plain_byte_def Let_def)
  show ?thesis
    unfolding overview_protects_secret [OF constant_rand]
    by (simp add: GetCookie_visit [OF name] plain overview_spec_def answered_def plain_sid_def)
qed

end
