(* ===== verification/StandaloneApp.thy ===== *)
theory StandaloneApp
  imports OverviewApp
begin

text \<open>
  The application of \<^verbatim>\<open>_examples/standalone\<close> refines an abstract one whose state is the set of the sessions
  with a name, the set of those with an immutable list of business models and the number of ids
  generated so far. The relation says what the values of every session may be and that the memory
  behind the immutable lists still holds what was stored.
\<close>

section \<open>Memory\<close>

lemma live_mem [simp]: "live_world (w\<lparr>w_mem := m\<rparr>) = live_world w" "world_map (w\<lparr>w_mem := m\<rparr>) = world_map w"
  by (simp_all add: live_world_def wf_world_def provider_unlocked_def sessions_unlocked_def world_map_def fun_eq_iff)

definition models :: "val list" where
  "models = [businessModel ''Edward'', businessModel ''value 2'']"

lemma length_models [simp]: "length models = 2"
  by (simp add: models_def)

text \<open>The slice at address \<open>a\<close> holds the two models.\<close>

definition models_at :: "mem \<Rightarrow> nat \<Rightarrow> bool" where
  "models_at m a = (a < length m \<and> m ! a = CArr models)"

definition business_ok :: "mem \<Rightarrow> (string \<rightharpoonup> Entry) \<Rightarrow> bool" where
  "business_ok m vals =
     (case vals ''businessEdit'' of
        None \<Rightarrow> True
      | Some e \<Rightarrow> immutable e \<and> (\<exists>a. ValueRaw e = VSlice KOther (Some a) 0 2 2 \<and> models_at m a))"

lemma models_at_extends: "models_at m a \<Longrightarrow> extends m m' \<Longrightarrow> models_at m' a"
  by (auto simp: models_at_def extends_def)

lemma business_ok_extends: "business_ok m vals \<Longrightarrow> extends m m' \<Longrightarrow> business_ok m' vals"
  by (auto simp: business_ok_def models_at_extends split: option.splits)

text \<open>\<open>Get\<close> of an immutable list returns a copy in a new cell.\<close>

lemma Session_Get_models:
  assumes "live_world w" "map_of (p_sessions (w_provider w)) sid = Some ref" "world_map w sid = Some vals"
    and "vals key = Some e" "immutable e" "ValueRaw e = VSlice KOther (Some a) 0 2 2" "models_at (w_mem w) a"
  shows "on_session ref (Session_Get key) w =
     (Ret (VSlice KOther (Some (length (w_mem w))) 0 2 2), w\<lparr>w_mem := w_mem w @ [CArr models]\<rparr>)"
proof -
  note s = live_session [OF assms(1,2)]
  have "slice_ok (s_values (w_heap w ! ref))" using s(4) by (simp add: wf_store_def)
  moreover have "store_lookup (s_values (w_heap w ! ref)) key = Some e"
    using assms(2-4) by (simp add: world_map_def)
  moreover have "Entry_Value e (w_mem w) =
      (Ret (VSlice KOther (Some (length (w_mem w))) 0 2 2), w_mem w @ [CArr models])"
    using assms(5-7) by (simp add: Entry_Value_def mem_alloc_def mem_arr_def models_at_def)
  ultimately have "Session_Get key (w_heap w ! ref, w_mem w) =
      (Ret (VSlice KOther (Some (length (w_mem w))) 0 2 2), w_heap w ! ref, w_mem w @ [CArr models])"
    by (intro Session_Get_unlocked s(3)) (simp add: Store_Get_lookup)
  then show ?thesis by (simp add: on_session_def set_session_def)
qed

section \<open>The abstract application\<close>

type_synonym standalone_state = "nat \<times> string set \<times> string set"

definition standalone_spec ::
  "(nat \<Rightarrow> string) \<Rightarrow> string \<times> string \<Rightarrow> standalone_state \<Rightarrow> (nat \<times> string) \<times> standalone_state" where
  "standalone_spec gen = (\<lambda>(path, cookie) (n, N, B).
     let sid = plain_sid gen cookie n;
         (n1, N1, B1) = (if cookie = [] then (Suc n, N - {sid}, B - {sid}) else (n, N, B))
     in if path = ''/set'' then ((200, ''All ok session setted to: iris''), n1, insert sid N1, B1)
        else if path = ''/get'' then
          ((200, ''The name on the /set was: '' @ (if sid \<in> N1 then ''iris'' else [])), n1, N1, B1)
        else if path = ''/delete'' then ((200, []), n1, N1 - {sid}, B1)
        else if path = ''/clear'' then ((200, []), n1, N1 - {sid}, B1 - {sid})
        else if path = ''/update'' then ((200, []), n, N, B)
        else if path = ''/destroy'' then
          ((200, []), if cookie = [] then (n, N, B) else (n, N - {sid}, B - {sid}))
        else if path = ''/set_immutable'' then ((200, []), n1, N1, insert sid B1)
        else if path = ''/get_immutable'' then
          ((200, if sid \<in> B1 then ''[]businessModel[0].Name remains: Edward''
                 else ''please navigate to the <a href='/set_immutable'>/set_immutable</a> first''), n1, N1, B1)
        else ((200, ''You should navigate to the /set, /get, /delete, /clear,/destroy instead''), n, N, B))"

section \<open>The simulation\<close>

definition good_vals :: "mem \<Rightarrow> (string \<rightharpoonup> Entry) \<Rightarrow> bool" where
  "good_vals m vals =
     (mutable_at ''name'' vals \<and> value_at ''name'' vals \<in> {VNil, VString ''iris''} \<and> business_ok m vals)"

definition named :: "(string \<rightharpoonup> (string \<rightharpoonup> Entry)) \<Rightarrow> string set" where
  "named A = {sid. \<exists>vals. A sid = Some vals \<and> value_at ''name'' vals = VString ''iris''}"

definition business :: "(string \<rightharpoonup> (string \<rightharpoonup> Entry)) \<Rightarrow> string set" where
  "business A = {sid. \<exists>vals. A sid = Some vals \<and> vals ''businessEdit'' \<noteq> None}"

definition standalone_rel :: "(nat \<Rightarrow> string) \<Rightarrow> 'd Sessions \<Rightarrow> standalone_state \<Rightarrow> bool" where
  "standalone_rel gen s = (\<lambda>(n, N, B).
     live_world (m_world s) \<and> plain_manager gen ''mysessionid'' (m_config s) \<and> m_calls s = n \<and>
     (\<forall>sid vals. world_map (m_world s) sid = Some vals \<longrightarrow> good_vals (w_mem (m_world s)) vals) \<and>
     N = named (world_map (m_world s)) \<and> B = business (world_map (m_world s)))"

lemma named_upd:
  "named (A(sid \<mapsto> vals)) = (if value_at ''name'' vals = VString ''iris'' then insert sid (named A) else named A - {sid})"
  by (auto simp: named_def)

lemma business_upd:
  "business (A(sid \<mapsto> vals)) = (if vals ''businessEdit'' = None then business A - {sid} else insert sid (business A))"
  by (auto simp: business_def)

text \<open>
  The relation after a visit that leaves the values \<open>vals\<close> in the session of \<open>sid\<close> and may have extended
  the memory.
\<close>

lemma standalone_rel_visited:
  assumes "standalone_rel gen s (n, N, B)"
    and "live_world (m_world s')" "m_config s' = m_config s"
    and "world_map (m_world s') = (world_map (m_world s))(sid \<mapsto> vals)" "extends (w_mem (m_world s)) (w_mem (m_world s'))"
    and "good_vals (w_mem (m_world s')) vals"
  shows "standalone_rel gen s' (m_calls s',
     if value_at ''name'' vals = VString ''iris'' then insert sid N else N - {sid},
     if vals ''businessEdit'' = None then B - {sid} else insert sid B)"
proof -
  have "good_vals (w_mem (m_world s')) v" if "world_map (m_world s) x = Some v" for x v
    using assms(1,5) that business_ok_extends by (fastforce simp: standalone_rel_def good_vals_def)
  then show ?thesis using assms by (auto simp: standalone_rel_def named_upd business_upd)
qed

lemma good_vals_empty [simp]: "good_vals m Map.empty"
  by (simp add: good_vals_def business_ok_def)

lemma values_of_good:
  "(\<forall>sid vals. A sid = Some vals \<longrightarrow> good_vals m vals) \<Longrightarrow> good_vals m (values_of sid fresh A)"
  by (auto simp: values_of_def split: option.split)

section \<open>The handlers for the name\<close>

lemma respond_id: "(\<lambda>ws. (Ret (), ws)) = respond (\<lambda>w. w)"
  by (simp add: respond_def fun_eq_iff)

lemma bind_respond_id: "bind_out (res :: unit outcome \<times> 'c \<times> 'd Sessions) (\<lambda>_. respond (\<lambda>w. w)) = res"
  by (cases res; cases "fst res") auto

text \<open>Each handler as one operation on the visitor's session and an answer.\<close>

lemma name_handlers_eq:
  "name_set ops r ws =
     bind_out (bind_out (with_cookies (Start ops r) ws) (\<lambda>s. session_call (\<lambda>w.
         bind_out (Session_Set ops s ''name'' (VString ''iris'') w) (\<lambda>_. on_session s (Session_GetString ''name'')))))
       (\<lambda>name. respond (Write (''All ok session setted to: '' @ name)))"
  "name_get ops r ws =
     bind_out (bind_out (with_cookies (Start ops r) ws) (\<lambda>s. session_call (on_session s (Session_GetString ''name''))))
       (\<lambda>name. respond (Write (''The name on the /set was: '' @ name)))"
  "name_delete ops r ws =
     bind_out (bind_out (with_cookies (Start ops r) ws) (\<lambda>s. session_call (Session_Delete ops s ''name'')))
       (\<lambda>_. respond (\<lambda>w. w))"
  "name_clear ops r ws =
     bind_out (bind_out (with_cookies (Start ops r) ws) (\<lambda>s. session_call (Session_Clear ops s)))
       (\<lambda>_. respond (\<lambda>w. w))"
  by (simp_all only: name_set_def name_get_def name_delete_def name_clear_def bind_out_assoc respond_id bind_respond_id
      session_call_bind [symmetric])

lemma standalone_visitor:
  assumes "standalone_rel gen s (n, N, B)"
  shows "live_world (m_world s)" "Cookie (m_config s) = ''mysessionid''" "m_calls s = n"
    "plain_manager gen ''mysessionid'' (m_config s)"
    "visitor (GetCookie r (Cookie (m_config s))) s =
       Some (plain_sid gen (GetCookie r ''mysessionid'') n, GetCookie r ''mysessionid'' = [])"
    "good_vals (w_mem (m_world s)) (values_of sid fresh (world_map (m_world s)))"
    "value_at ''name'' (values_of sid fresh (world_map (m_world s))) = VString ''iris'' \<longleftrightarrow> \<not> fresh \<and> sid \<in> N"
    "values_of sid fresh (world_map (m_world s)) ''businessEdit'' = None \<longleftrightarrow> fresh \<or> sid \<notin> B"
proof -
  have s: "live_world (m_world s)" "plain_manager gen ''mysessionid'' (m_config s)" "m_calls s = n"
    "\<forall>sid vals. world_map (m_world s) sid = Some vals \<longrightarrow> good_vals (w_mem (m_world s)) vals"
    "N = named (world_map (m_world s))" "B = business (world_map (m_world s))"
    using assms by (auto simp: standalone_rel_def)
  show "live_world (m_world s)" "m_calls s = n" "plain_manager gen ''mysessionid'' (m_config s)" by (rule s)+
  show name: "Cookie (m_config s) = ''mysessionid''" using s(2) by (simp add: plain_manager_def)
  show "visitor (GetCookie r (Cookie (m_config s))) s =
      Some (plain_sid gen (GetCookie r ''mysessionid'') n, GetCookie r ''mysessionid'' = [])"
    using visitor_plain [OF s(2)] s(3) name by simp
  show "good_vals (w_mem (m_world s)) (values_of sid fresh (world_map (m_world s)))" using s(4) by (rule values_of_good)
  show "value_at ''name'' (values_of sid fresh (world_map (m_world s))) = VString ''iris'' \<longleftrightarrow> \<not> fresh \<and> sid \<in> N"
    "values_of sid fresh (world_map (m_world s)) ''businessEdit'' = None \<longleftrightarrow> fresh \<or> sid \<notin> B"
    using s(5,6) by (auto simp: values_of_def named_def business_def split: option.split)
qed

lemma standalone_visit:
  fixes s :: "'d Sessions" and r :: http_request
  assumes "standalone_rel gen s (n, N, B)" "session_op P f g"
  defines "cookie \<equiv> GetCookie r ''mysessionid''"
  defines "sid \<equiv> plain_sid gen cookie n"
  defines "vals \<equiv> values_of sid (cookie = []) (world_map (m_world s))"
  assumes "P vals" "good_vals (w_mem (m_world s)) (snd (g vals))"
  shows "\<exists>rw s'. bind_out (bind_out (with_cookies (Start ops r) (new_writer, s)) (\<lambda>ref. session_call (f ref))) (\<lambda>a. respond (h a)) =
      (Ret (), h (fst (g vals)) rw, s') \<and> page rw = page new_writer \<and>
     standalone_rel gen s' (if cookie = [] then Suc n else n,
       if value_at ''name'' (snd (g vals)) = VString ''iris'' then insert sid N else N - {sid},
       if snd (g vals) ''businessEdit'' = None then B - {sid} else insert sid B)"
proof -
  note v = standalone_visitor [OF assms(1)]
  have vis: "visitor (GetCookie r (Cookie (m_config s))) s = Some (sid, cookie = [])"
    using v(5) by (simp add: sid_def cookie_def)
  obtain rw s' where run: "bind_out (bind_out (with_cookies (Start ops r) (new_writer, s)) (\<lambda>ref. session_call (f ref)))
      (\<lambda>a. respond (h a)) = (Ret (), h (fst (g vals)) rw, s')" "page rw = page new_writer"
    "visited s sid (cookie = []) (snd (g vals)) s'"
    using start_op_respond [OF assms(2) v(1) vis, of ops new_writer h] assms(6) unfolding vals_def by blast
  note p = visited_plain [OF v(4) run(3)]
  have "standalone_rel gen s' (m_calls s',
      if value_at ''name'' (snd (g vals)) = VString ''iris'' then insert sid N else N - {sid},
      if snd (g vals) ''businessEdit'' = None then B - {sid} else insert sid B)"
    using run(3) assms(7) p by (intro standalone_rel_visited [OF assms(1)]) (auto simp: visited_def)
  then show ?thesis using run(1,2) p(2) v(3) by auto
qed

text \<open>A handler answers a request as the specification says and keeps the relation.\<close>

definition serves :: "(nat \<Rightarrow> string) \<Rightarrow> 'd handler \<Rightarrow> string \<Rightarrow> http_request \<Rightarrow> 'd Sessions \<Rightarrow> standalone_state \<Rightarrow> bool" where
  "serves gen h path r s st =
     (\<exists>rw s'. h r (new_writer, s) = (Ret (), rw, s') \<and>
        seen (Ret (), WriteHeader 200 rw) = answered (fst (standalone_spec gen (path, GetCookie r ''mysessionid'') st)) \<and>
        standalone_rel gen s' (snd (standalone_spec gen (path, GetCookie r ''mysessionid'') st)))"

lemma serves_name:
  fixes s :: "'d Sessions"
  assumes "standalone_rel gen s (n, N, B)"
  shows "serves gen (name_set ops) ''/set'' r s (n, N, B)" "serves gen (name_get ops) ''/get'' r s (n, N, B)"
    "serves gen (name_delete ops) ''/delete'' r s (n, N, B)" "serves gen (name_clear ops) ''/clear'' r s (n, N, B)"
proof -
  let ?c = "GetCookie r ''mysessionid''"
  let ?sid = "plain_sid gen ?c n"
  let ?vals = "values_of ?sid (?c = []) (world_map (m_world s))"
  note v = standalone_visitor(6-8) [OF assms, of ?sid "?c = []"]
  note visit = standalone_visit [OF assms, of _ _ _ r ops]
  have good: "mutable_at ''name'' ?vals" "value_at ''name'' ?vals \<in> {VNil, VString ''iris''}"
    "business_ok (w_mem (m_world s)) ?vals"
    using v(1) by (auto simp: good_vals_def)
  have set: "good_vals (w_mem (m_world s)) (map_save ''name'' (VString ''iris'') False ?vals)"
    "map_save ''name'' (VString ''iris'') False ?vals ''businessEdit'' = ?vals ''businessEdit''"
    "mutable_at ''name'' (map_save ''name'' (VString ''iris'') False ?vals)"
    "value_at ''name'' (map_save ''name'' (VString ''iris'') False ?vals) = VString ''iris''"
    using map_save_at(1) [OF good(1), of "VString ''iris''"] good(3) by (auto simp: good_vals_def business_ok_def map_save_def)
  have del: "good_vals (w_mem (m_world s)) (?vals(''name'' := None))"
    using good(3) by (simp add: good_vals_def business_ok_def mutable_at_def value_at_def)
  show "serves gen (name_set ops) ''/set'' r s (n, N, B)"
    using visit [OF session_op_bind [OF session_op_Set [of ops "''name''" "VString ''iris''"] session_op_GetString [of "''name''"]],
        of "\<lambda>name. Write (''All ok session setted to: '' @ name)"] v set seen_simps(2)
    unfolding serves_def name_handlers_eq
    by (cases "?c = []"; cases "?sid \<in> B") (auto simp: standalone_spec_def insert_absorb Let_def)
  show "serves gen (name_get ops) ''/get'' r s (n, N, B)"
    using visit [OF session_op_GetString [of "''name''"], of "\<lambda>name. Write (''The name on the /set was: '' @ name)"]
      v good seen_simps(2)
    unfolding serves_def name_handlers_eq
    by (cases "?c = []"; cases "?sid \<in> B"; cases "?sid \<in> N") (auto simp: standalone_spec_def insert_absorb Let_def)
  show "serves gen (name_delete ops) ''/delete'' r s (n, N, B)"
    using visit [OF session_op_Delete [of ops "''name''"], of "\<lambda>_ w. w"] v del seen_simps(1)
    unfolding serves_def name_handlers_eq
    by (cases "?c = []"; cases "?sid \<in> B") (auto simp: standalone_spec_def insert_absorb Let_def value_at_def)
  show "serves gen (name_clear ops) ''/clear'' r s (n, N, B)"
    using visit [OF session_op_Clear [of ops], of "\<lambda>_ w. w"] seen_simps(1)
    unfolding serves_def name_handlers_eq
    by (cases "?c = []") (auto simp: standalone_spec_def Let_def)
qed

lemma decode_plain: "plain_manager gen name (m_config s) \<Longrightarrow> decodeCookieValue v s = (Ret v, s)"
  by (simp add: plain_manager_def decodeCookieValue_def)

lemma updateCookie_calls:
  "Encode (m_config s) = None \<Longrightarrow> m_calls (snd (updateCookie r sid e (w, s))) = m_calls s"
  using writes_cookie_net [of r] unfolding writes_cookie_def by (metis snd_conv)

lemma page_cookies [simp]: "page (rw\<lparr>rw_cookies := cs\<rparr>) = page rw"
  by (simp add: page_def)

text \<open>A request that changes neither the values nor the memory of any session keeps the relation.\<close>

lemma standalone_rel_same:
  assumes "standalone_rel gen s st" "live_world (m_world s')" "m_config s' = m_config s" "m_calls s' = m_calls s"
    and "world_map (m_world s') = world_map (m_world s)" "w_mem (m_world s') = w_mem (m_world s)"
  shows "standalone_rel gen s' st"
  using assms by (auto simp: standalone_rel_def)

lemma serves_update:
  fixes s :: "'d Sessions"
  assumes "standalone_rel gen s (n, N, B)"
  shows "serves gen name_update ''/update'' r s (n, N, B)"
proof -
  note v = standalone_visitor [OF assms]
  let ?c = "GetCookie r ''mysessionid''" and ?e = "Expires (m_config s)"
  have spec: "standalone_spec gen (''/update'', ?c) (n, N, B) = ((200, []), n, N, B)"
    by (simp add: standalone_spec_def Let_def split: prod.split)
  have "\<exists>cs s'. UpdateExpiration r ?e ([], s) = (Ret (), cs, s') \<and> standalone_rel gen s' (n, N, B)"
  proof (cases "?c = []")
    case True
    then show ?thesis
      using decode_plain [OF v(4)] v(2) assms by (simp add: UpdateExpiration_def update_expiration_with_def)
  next
    case False
    obtain ok w' where up: "provider_UpdateExpiration ?c ?e (m_world s) = (Ret ok, w')" "live_world w'"
      "w_mem w' = w_mem (m_world s)" "world_map w' = world_map (m_world s)"
      using provider_UpdateExpiration_live [OF v(1)] by blast
    let ?ws = "if ok then updateCookie r ?c ?e ([], s\<lparr>m_world := w'\<rparr>) else ([], s\<lparr>m_world := w'\<rparr>)"
    have "UpdateExpiration r ?e ([], s) = (Ret (), ?ws)"
      using False up(1) decode_plain [OF v(4)] v(2)
      by (simp add: UpdateExpiration_def update_expiration_with_def on_world_def)
    moreover have "standalone_rel gen (snd ?ws) (n, N, B)"
      using v(4) up
      by (intro standalone_rel_same [OF assms]) (auto simp: plain_manager_def updateCookie_calls)
    ultimately show ?thesis by (metis prod.collapse)
  qed
  then show ?thesis
    using seen_simps(1) unfolding serves_def spec
    by (auto simp: name_update_def ShiftExpiration_def new_writer_def [THEN arg_cong [where f = rw_cookies], simplified])
qed

lemma serves_destroy:
  fixes s :: "'d Sessions"
  assumes "standalone_rel gen s (n, N, B)"
  shows "serves gen (name_destroy ops) ''/destroy'' r s (n, N, B)"
proof -
  note v = standalone_visitor [OF assms]
  let ?c = "GetCookie r ''mysessionid''"
  have spec: "standalone_spec gen (''/destroy'', ?c) (n, N, B) =
      ((200, []), if ?c = [] then (n, N, B) else (n, N - {?c}, B - {?c}))"
    by (simp add: standalone_spec_def plain_sid_def Let_def)
  have "\<exists>cs s'. Destroy ops r ([], s) = (Ret (), cs, s') \<and> 
      standalone_rel gen s' (if ?c = [] then (n, N, B) else (n, N - {?c}, B - {?c}))"
  proof (cases "?c = []")
    case True
    then show ?thesis
      using decode_plain [OF v(4)] v(2) assms by (simp add: Destroy_def destroy_def)
  next
    case False
    obtain w' where "provider_Destroy ops ?c (m_world s) = (Ret (), w')" "live_world w'" "w_mem w' = w_mem (m_world s)"
      "world_map w' = (world_map (m_world s))(?c := None)"
      using provider_Destroy_live [OF v(1)] by blast
    moreover from this have "standalone_rel gen (s\<lparr>m_world := w'\<rparr>) (n, N - {?c}, B - {?c})"
      using assms by (auto simp: standalone_rel_def named_def business_def split: if_splits)
    ultimately show ?thesis
      using False decode_plain [OF v(4)] v(2) by (simp add: Destroy_def destroy_def on_world_def)
  qed
  then show ?thesis
    using seen_simps(1) unfolding serves_def spec
    by (auto simp: name_destroy_def new_writer_def [THEN arg_cong [where f = rw_cookies], simplified])
qed

section \<open>The handlers for the immutable list\<close>

text \<open>The start of a visit, in a memory that may have been extended before.\<close>

lemma standalone_start:
  fixes s :: "'d Sessions" and r :: http_request
  assumes "standalone_rel gen s (n, N, B)" "extends (w_mem (m_world s)) m"
  defines "cookie \<equiv> GetCookie r ''mysessionid''"
  defines "sid \<equiv> plain_sid gen cookie n"
  defines "vals \<equiv> values_of sid (cookie = []) (world_map (m_world s))"
  shows "\<exists>ref rw s1. with_cookies (Start ops r) (new_writer, s\<lparr>m_world := (m_world s)\<lparr>w_mem := m\<rparr>\<rparr>) = (Ret ref, rw, s1) \<and>
     page rw = page new_writer \<and> live_world (m_world s1) \<and> m_config s1 = m_config s \<and> w_mem (m_world s1) = m \<and>
     m_calls s1 = (if cookie = [] then Suc n else n) \<and> map_of (p_sessions (w_provider (m_world s1))) sid = Some ref \<and>
     world_map (m_world s1) = (world_map (m_world s))(sid \<mapsto> vals) \<and> business_ok m vals"
proof -
  note v = standalone_visitor [OF assms(1)]
  let ?s = "s\<lparr>m_world := (m_world s)\<lparr>w_mem := m\<rparr>\<rparr>"
  have "visitor (GetCookie r (Cookie (m_config ?s))) ?s = Some (sid, cookie = [])"
    using visitor_plain [of gen "''mysessionid''" ?s] v(2,3,4) by (simp add: sid_def cookie_def)
  then obtain ref rw s1 where "with_cookies (Start ops r) (new_writer, ?s) = (Ret ref, rw, s1)" "page rw = page new_writer"
    "started ?s sid (cookie = []) ref s1"
    using net_frontend.start_returns [of ?s r new_writer sid "cookie = []" ops] v(1) net_effect_page by fastforce
  moreover have "business_ok m vals"
    using v(6) business_ok_extends [OF _ assms(2)] by (simp add: vals_def good_vals_def)
  ultimately show ?thesis
    using v(3,4) by (auto simp: started_def start_map_values vals_def plain_manager_def)
qed

lemma map_save_business:
  "map_save ''businessEdit'' x True vals ''businessEdit'' = Some e \<Longrightarrow> immutable e \<and> ValueRaw e = x"
  by (auto simp: map_save_def saved_entry_def split: option.splits)

lemma serves_set_immutable:
  fixes s :: "'d Sessions"
  assumes "standalone_rel gen s (n, N, B)"
  shows "serves gen (set_immutable ops) ''/set_immutable'' r s (n, N, B)"
proof -
  let ?c = "GetCookie r ''mysessionid''" and ?m = "w_mem (m_world s)"
  let ?sid = "plain_sid gen ?c n"
  let ?vals = "values_of ?sid (?c = []) (world_map (m_world s))"
  let ?m1 = "?m @ [CArr models]" and ?b = "VSlice KOther (Some (length ?m)) 0 2 2"
  obtain ref rw s1 where st: "with_cookies (Start ops r) (new_writer, s\<lparr>m_world := (m_world s)\<lparr>w_mem := ?m1\<rparr>\<rparr>) = (Ret ref, rw, s1)"
    "page rw = page new_writer" "live_world (m_world s1)" "m_config s1 = m_config s" "w_mem (m_world s1) = ?m1"
    "m_calls s1 = (if ?c = [] then Suc n else n)" "map_of (p_sessions (w_provider (m_world s1))) ?sid = Some ref"
    "world_map (m_world s1) = (world_map (m_world s))(?sid \<mapsto> ?vals)"
    using standalone_start [OF assms extends_append, of ops r "[CArr models]"] by blast
  let ?new = "map_save ''businessEdit'' ?b True ?vals"
  obtain w2 where w2: "Session_set ops ref ''businessEdit'' ?b True (m_world s1) = (Ret (), w2)" "live_world w2"
    "p_sessions (w_provider w2) = p_sessions (w_provider (m_world s1))" "w_mem w2 = ?m1"
    "world_map w2 = (world_map (m_world s))(?sid \<mapsto> ?new)"
    using Session_set_live [OF st(3,7), of ?vals ops "''businessEdit''" ?b True] st(5,8) by auto
  obtain e where e: "?new ''businessEdit'' = Some e" by (auto simp: map_save_def)
  have at: "models_at ?m1 (length ?m)" by (simp add: models_at_def)
  have get: "on_session ref (Session_Get ''businessEdit'') w2 =
      (Ret (VSlice KOther (Some (length ?m1)) 0 2 2), w2\<lparr>w_mem := ?m1 @ [CArr models]\<rparr>)"
    using Session_Get_models [OF w2(2), of ?sid ref ?new "''businessEdit''" e "length ?m"] st(7) w2 e map_save_business [OF e] at
    by simp
  let ?m3 = "slice_set (?m1 @ [CArr models]) (VSlice KOther (Some (length ?m1)) 0 2 2) 0 (businessModel ''Gabriel'')"
  have run: "set_immutable ops r (new_writer, s) = (Ret (), rw, s1\<lparr>m_world := w2\<lparr>w_mem := ?m3\<rparr>\<rparr>)"
    unfolding set_immutable_def models_def [symmetric] using st(1) w2(1) get
    by (simp add: new_slice_def mem_alloc_def Session_SetImmutable_def slice_write_def assert_slice_def del: slice_set.simps)
  have ext: "extends ?m1 ?m3" by (simp add: extends_def nth_append)
  have "business_ok ?m3 ?new"
    using e map_save_business [OF e] models_at_extends [OF at ext] by (simp add: business_ok_def)
  moreover have "mutable_at ''name'' ?new = mutable_at ''name'' ?vals" "value_at ''name'' ?new = value_at ''name'' ?vals"
    using map_save_at(2) [of "''name''" "''businessEdit''"] by auto
  ultimately have good: "good_vals ?m3 ?new" "value_at ''name'' ?new = VString ''iris'' \<longleftrightarrow> ?c \<noteq> [] \<and> ?sid \<in> N"
    using standalone_visitor(6,7) [OF assms, of ?sid "?c = []"] by (auto simp: good_vals_def)
  have "standalone_rel gen (s1\<lparr>m_world := w2\<lparr>w_mem := ?m3\<rparr>\<rparr>) (m_calls s1,
      if value_at ''name'' ?new = VString ''iris'' then insert ?sid N else N - {?sid}, insert ?sid B)"
    using standalone_rel_visited [OF assms, of "s1\<lparr>m_world := w2\<lparr>w_mem := ?m3\<rparr>\<rparr>" ?sid ?new] w2 st(4) e good(1)
      extends_trans [OF extends_append ext]
    by simp
  then show ?thesis
    using run st(2,6) good(2) seen_simps(1) unfolding serves_def
    by (cases "?c = []"; cases "?sid \<in> N") (auto simp: standalone_spec_def insert_absorb Let_def)
qed

lemma serves_get_immutable:
  fixes s :: "'d Sessions"
  assumes "standalone_rel gen s (n, N, B)"
  shows "serves gen (get_immutable ops) ''/get_immutable'' r s (n, N, B)"
proof -
  let ?c = "GetCookie r ''mysessionid''" and ?m = "w_mem (m_world s)"
  let ?sid = "plain_sid gen ?c n"
  let ?vals = "values_of ?sid (?c = []) (world_map (m_world s))"
  note v = standalone_visitor(6-8) [OF assms, of ?sid "?c = []"]
  obtain ref rw s1 where st: "with_cookies (Start ops r) (new_writer, s) = (Ret ref, rw, s1)"
    "page rw = page new_writer" "live_world (m_world s1)" "m_config s1 = m_config s" "w_mem (m_world s1) = ?m"
    "m_calls s1 = (if ?c = [] then Suc n else n)" "map_of (p_sessions (w_provider (m_world s1))) ?sid = Some ref"
    "world_map (m_world s1) = (world_map (m_world s))(?sid \<mapsto> ?vals)"
    using standalone_start [OF assms extends_refl, of ops r] by auto
  have keep: "standalone_rel gen (s1\<lparr>m_world := (m_world s1)\<lparr>w_mem := m'\<rparr>\<rparr>) (m_calls s1,
      if value_at ''name'' ?vals = VString ''iris'' then insert ?sid N else N - {?sid},
      if ?vals ''businessEdit'' = None then B - {?sid} else insert ?sid B)" if "extends ?m m'" for m'
    using standalone_rel_visited [OF assms, of "s1\<lparr>m_world := (m_world s1)\<lparr>w_mem := m'\<rparr>\<rparr>" ?sid ?vals] st(3,4,8) that v(1)
      business_ok_extends [OF _ that] by (simp add: good_vals_def)
  show ?thesis
  proof (cases "?vals ''businessEdit''")
    case None
    let ?text = "''please navigate to the <a href='/set_immutable'>/set_immutable</a> first''"
    let ?rw = "Write ?text (Header_Set ''Content-Type'' ''text/html; charset=UTF-8'' rw)"
    have "on_session ref (Session_Get ''businessEdit'') (m_world s1) = (Ret VNil, m_world s1)"
      using Session_Get_live [OF st(3,7), of ?vals "''businessEdit''"] st(8) None
      by (intro on_session_pure) (simp add: mutable_at_def value_at_def)
    then have run: "get_immutable ops r (new_writer, s) = (Ret (), ?rw, s1)"
      using st(1) by (simp add: get_immutable_def)
    have same: "s1\<lparr>m_world := (m_world s1)\<lparr>w_mem := ?m\<rparr>\<rparr> = s1" by (simp flip: st(5))
    have "page (Header_Set k x rw) = page new_writer" for k x using st(2) by (simp add: page_def Header_Set_def)
    then have "seen (Ret (), WriteHeader 200 ?rw) = answered (200, ?text)" by (rule seen_simps(2))
    then show ?thesis
      using run keep [OF extends_refl, unfolded same] None st(6) v unfolding serves_def
      by (cases "?c = []"; cases "?sid \<in> N"; cases "?sid \<in> B") (auto simp: standalone_spec_def insert_absorb Let_def)
  next
    case (Some e)
    then obtain a where e: "immutable e" "ValueRaw e = VSlice KOther (Some a) 0 2 2" "models_at ?m a"
      using v(1) by (auto simp: good_vals_def business_ok_def)
    let ?w = "(m_world s1)\<lparr>w_mem := ?m @ [CArr models]\<rparr>"
    have "on_session ref (Session_Get ''businessEdit'') (m_world s1) =
        (Ret (VSlice KOther (Some (length ?m)) 0 2 2), ?w)"
      using Session_Get_models [OF st(3,7), of ?vals "''businessEdit''" e a] Some e st(5,8) by simp
    then have run: "get_immutable ops r (new_writer, s) =
        (Ret (), Write ''[]businessModel[0].Name remains: Edward'' rw, s1\<lparr>m_world := ?w\<rparr>)"
      using st(1) by (simp add: get_immutable_def slice_read_def assert_slice_def) (simp add: models_def)
    then show ?thesis
      using keep [OF extends_append, of "[CArr models]"] Some st(6) v seen_simps(2) [OF st(2)] unfolding serves_def
      by (cases "?c = []"; cases "?sid \<in> N"; cases "?sid \<in> B") (auto simp: standalone_spec_def insert_absorb Let_def)
  qed
qed

section \<open>Property\<close>

lemma serves_answer:
  "serves gen h path r s st \<Longrightarrow> ServeMux routes path r = h r \<Longrightarrow> \<exists>a s'. answer routes (path, r) s = (a, s') \<and>
     seen a = answered (fst (standalone_spec gen (path, GetCookie r ''mysessionid'') st)) \<and>
     standalone_rel gen s' (snd (standalone_spec gen (path, GetCookie r ''mysessionid'') st))"
  unfolding serves_def by (elim exE conjE) (auto simp: answer_def)

lemma serves_index:
  assumes "standalone_rel gen s st"
    and "path \<notin> {''/set'', ''/get'', ''/delete'', ''/clear'', ''/update'', ''/destroy'', ''/set_immutable'', ''/get_immutable''}"
  shows "serves gen name_index path r s st"
proof -
  obtain n N B where st: "st = (n, N, B)" by (cases st)
  let ?text = "''You should navigate to the /set, /get, /delete, /clear,/destroy instead''"
  have "standalone_spec gen (path, GetCookie r ''mysessionid'') st = ((200, ?text), st)"
    using assms(2) unfolding st by (simp add: standalone_spec_def Let_def split: prod.split)
  then show ?thesis
    using assms(1) seen_simps(2) [of new_writer ?text] by (simp add: serves_def name_index_def)
qed

lemma standalone_step:
  fixes s :: "'d Sessions"
  assumes "standalone_rel gen s st"
  shows "\<exists>a s'. answer (standalone_routes ops) (path, r) s = (a, s') \<and>
     seen a = answered (fst (standalone_spec gen (path, GetCookie r ''mysessionid'') st)) \<and>
     standalone_rel gen s' (snd (standalone_spec gen (path, GetCookie r ''mysessionid'') st))"
proof -
  obtain n N B where st: "st = (n, N, B)" by (cases st)
  note rel = assms [unfolded st]
  note h = serves_name [OF rel, of ops r] serves_update [OF rel, of r] serves_destroy [OF rel, of ops r]
    serves_set_immutable [OF rel, of ops r] serves_get_immutable [OF rel, of ops r]
  show ?thesis
  proof (cases "path \<in> {''/set'', ''/get'', ''/delete'', ''/clear'', ''/update'', ''/destroy'', ''/set_immutable'',
      ''/get_immutable''}")
    case True
    then show ?thesis
      unfolding st by (elim insertE emptyE; hypsubst)
        (rule h [THEN serves_answer], simp add: ServeMux_def standalone_routes_def)+
  next
    case False
    then show ?thesis
      using serves_index [OF assms False, of r]
      by (intro serves_answer) (auto simp: ServeMux_def standalone_routes_def)
  qed
qed

text \<open>
  C3. The standalone example does what its comments say. For every sequence of requests, with any paths
  and any cookies, the answers are those of an abstract server that remembers which sessions have
  the name and which have the immutable list: \<open>/get\<close> shows the name that \<open>/set\<close> stored until \<open>/delete\<close>,
  \<open>/clear\<close> or \<open>/destroy\<close>; \<open>/update\<close> changes no value; \<open>/get_immutable\<close> shows the name that was in the list
  when it was stored, although \<open>/set_immutable\<close> then writes another one into the list it got back. Every
  request is answered, none blocks or panics. The clock does not reach the end of a lifetime in between.
\<close>

theorem standalone_serves_spec:
  assumes "\<forall>n. default_generator rand n = Ret (gen n)"
  shows "map seen (fst (answers (standalone_routes ops) reqs (standalone_New rand now gr unlimited))) =
     map answered (spec_run (standalone_spec gen)
       (map (\<lambda>(path, r). (path, GetCookie r ''mysessionid'')) reqs) (0, {}, {}))"
proof (rule answers_refine [where R = "standalone_rel gen"])
  show "standalone_rel gen (standalone_New rand now gr unlimited) (0, {}, {})"
    by (simp add: standalone_New_def standalone_rel_def named_def business_def live_New plain_manager_New [OF assms] zero_config_def)
qed (rule standalone_step)

theorem standalone_serves_spec_witness:
  "map seen (fst (answers (standalone_routes rec_ops)
      [(''/set'', visit ''mysessionid'' ''x''), (''/get'', visit ''mysessionid'' ''x''),
       (''/set_immutable'', visit ''mysessionid'' ''x''), (''/delete'', visit ''mysessionid'' ''x''),
       (''/get'', visit ''mysessionid'' ''x''), (''/get_immutable'', visit ''mysessionid'' ''x'')]
      (standalone_New (\<lambda>_. Some (replicate 16 7)) 100 (\<lambda>_. 0) 500))) =
   [(Ret (), Some 200, ''All ok session setted to: iris''), (Ret (), Some 200, ''The name on the /set was: iris''),
    (Ret (), Some 200, []), (Ret (), Some 200, []), (Ret (), Some 200, ''The name on the /set was: ''),
    (Ret (), Some 200, ''[]businessModel[0].Name remains: Edward'')]"
proof -
  have name: "isCookieNameValid ''mysessionid''" by (simp add: isCookieNameValid_def isToken_def Let_def)
  have plain: "plain_value ''x''" by (simp add: plain_value_def plain_byte_def Let_def)
  show ?thesis
    unfolding standalone_serves_spec [OF constant_rand]
    by (simp add: GetCookie_visit [OF name] plain standalone_spec_def answered_def plain_sid_def Let_def)
qed

end
