(* ===== verification/FlashApp.thy ===== *)
theory FlashApp
  imports StandaloneApp
begin

text \<open>
  The application of \<^verbatim>\<open>_examples/flash-messages\<close>: it delivers one message. Reading the message leaves the
  session locked; the next request of that client blocks with the provider's lock held, and from
  then on no request of any client is answered.
\<close>

section \<open>A request for a registered session\<close>

lemma Start_registered:
  fixes s :: "'d Sessions"
  assumes "plain_manager gen name (m_config s)" "GetCookie r name = sid" "sid \<noteq> []"
    and "p_mu (w_provider (m_world s)) = Unlocked" "map_of (p_sessions (w_provider (m_world s))) sid = Some ref"
    and "s_mu (w_heap (m_world s) ! ref) = Unlocked"
  shows "with_cookies (Start ops r) (rw, s) = (Ret ref, rw, s\<lparr>m_world :=
     set_session ref ((w_heap (m_world s) ! ref)\<lparr>s_flashes :=
       filter (\<lambda>(key, v). \<not> shouldRemove v) (s_flashes (w_heap (m_world s) ! ref))\<rparr>) (m_world s)\<rparr>)"
proof -
  have "Cookie (m_config s) = name" using assms(1) by (simp add: plain_manager_def)
  then show ?thesis
    using decode_plain [OF assms(1)] provider_Read_registered [OF assms(4-6), of ops] assms(2,3)
    by (simp add: Start_def start_with_def on_world_def)
qed

text \<open>The provider's lock is held for ever.\<close>

definition stalled :: "(nat \<Rightarrow> string) \<Rightarrow> string \<Rightarrow> 'd Sessions \<Rightarrow> bool" where
  "stalled gen name s =
     (plain_manager gen name (m_config s) \<and> p_mu (w_provider (m_world s)) = WLocked \<and>
      p_databases (w_provider (m_world s)) = [])"

text \<open>A session whose lock was leaked: the request blocks and keeps the provider's lock.\<close>

lemma Start_leaked:
  fixes s :: "'d Sessions"
  assumes "plain_manager gen name (m_config s)" "GetCookie r name = sid" "sid \<noteq> []"
    and "p_mu (w_provider (m_world s)) = Unlocked" "map_of (p_sessions (w_provider (m_world s))) sid = Some ref"
    and "s_mu (w_heap (m_world s) ! ref) = WLocked" "p_databases (w_provider (m_world s)) = []"
  shows "\<exists>s'. with_cookies (Start ops r) (rw, s) = (Blocked, rw, s') \<and> stalled gen name s'"
proof -
  have name: "Cookie (m_config s) = name" using assms(1) by (simp add: plain_manager_def)
  let ?w = "with_provider (p_mu_update (\<lambda>_. WLocked)) (m_world s)"
  have "on_session ref Session_runFlashGC ?w = (Blocked, ?w)"
    using assms(6) by (intro on_session_pure) (simp add: Session_runFlashGC_def)
  moreover have "provider_Lock (m_world s) = Some ?w" using assms(4) by simp
  ultimately have "provider_Read ops sid e (m_world s) = (Blocked, ?w)" for e
    using assms(5) by (simp add: provider_Read_def del: provider_Lock_Some)
  then show ?thesis
    using decode_plain [OF assms(1)] name assms(1,2,3,7) by (simp add: Start_def start_with_def on_world_def stalled_def)
qed

text \<open>With the provider's lock held no request gets a session.\<close>

lemma newSession_no_db:
  "p_databases (w_provider w) = [] \<Longrightarrow> \<exists>ref w'. newSession ops sid e w = (Ret ref, w') \<and> w_provider w' = w_provider w"
  by (simp add: newSession_def loadSessionFromDB_def Let_def with_provider_def split: prod.split)

lemma Start_stalled:
  fixes s :: "'d Sessions"
  assumes "stalled gen name s"
  shows "\<exists>s'. with_cookies (Start ops r) (rw, s) = (Blocked, rw, s') \<and> stalled gen name s'"
proof -
  have s: "plain_manager gen name (m_config s)" "p_mu (w_provider (m_world s)) = WLocked"
    "p_databases (w_provider (m_world s)) = []"
    using assms by (simp_all add: stalled_def)
  obtain g where cfg: "Cookie (m_config s) = name" "SessionIDGenerator (m_config s) = Some g" "\<forall>n. g n = Ret (gen n)"
    using s(1) by (auto simp: plain_manager_def)
  have lock: "provider_Lock w = None" if "w_provider w = w_provider (m_world s)" for w :: "'d world"
    using that s(2) by simp
  have read: "provider_Read ops sid e (m_world s) = (Blocked, m_world s)" for sid e
    using lock [of "m_world s"] by (simp add: provider_Read_def del: provider_Lock_None)
  have init: "\<exists>w'. provider_Init ops sid e (m_world s) = (Blocked, w') \<and> w_provider w' = w_provider (m_world s)" for sid e
    using newSession_no_db [OF s(3), of ops sid e] lock by (auto simp: provider_Init_def simp del: provider_Lock_None)
  show ?thesis
  proof (cases "GetCookie r name = []")
    case True
    obtain w' where "provider_Init ops (gen (m_calls s)) (Expires (m_config s)) (m_world s) = (Blocked, w')"
      "w_provider w' = w_provider (m_world s)"
      using init by blast
    then show ?thesis
      using True cfg assms decode_plain [OF s(1)]
      by (simp add: Start_def start_with_def SessionIDGenerator_call_def on_world_def stalled_def)
  next
    case False
    then show ?thesis
      using cfg(1) assms decode_plain [OF s(1)] read by (simp add: Start_def start_with_def on_world_def stalled_def)
  qed
qed

lemma flash_stalled:
  fixes s :: "'d Sessions"
  assumes "stalled gen name s" "path \<in> {''/set'', ''/get'', ''/test''}"
  shows "\<exists>rw s'. answer (flash_routes ops) (path, r) s = ((Blocked, new_writer), s') \<and> stalled gen name s'"
proof -
  obtain s' where "with_cookies (Start ops r) (new_writer, s) = (Blocked, new_writer, s')" "stalled gen name s'"
    using Start_stalled [OF assms(1)] by blast
  then show ?thesis
    using assms(2)
    by (auto simp: answer_def ServeMux_def flash_routes_def flash_set_def flash_get_def flash_test_def
        simp del: with_cookies_simp)
qed

section \<open>One message\<close>

text \<open>The session of \<open>sid\<close> holds the unread message of \<open>/set\<close>.\<close>

definition message_set :: "(nat \<Rightarrow> string) \<Rightarrow> string \<Rightarrow> 'd Sessions \<Rightarrow> bool" where
  "message_set gen sid s =
     (plain_manager gen ''myappsessionid'' (m_config s) \<and> live_world (m_world s) \<and>
      (\<exists>ref. map_of (p_sessions (w_provider (m_world s))) sid = Some ref \<and>
         map_of (s_flashes (w_heap (m_world s) ! ref)) ''name'' = Some \<lparr>shouldRemove = False, fvalue = VString ''iris''\<rparr>))"

definition session_leaked :: "(nat \<Rightarrow> string) \<Rightarrow> string \<Rightarrow> 'd Sessions \<Rightarrow> bool" where
  "session_leaked gen sid s =
     (plain_manager gen ''myappsessionid'' (m_config s) \<and> p_mu (w_provider (m_world s)) = Unlocked \<and>
      p_databases (w_provider (m_world s)) = [] \<and>
      (\<exists>ref. map_of (p_sessions (w_provider (m_world s))) sid = Some ref \<and> s_mu (w_heap (m_world s) ! ref) = WLocked))"

lemma flash_set_answer:
  fixes s :: "'d Sessions"
  assumes "plain_manager gen ''myappsessionid'' (m_config s)" "live_world (m_world s)"
    and "GetCookie r ''myappsessionid'' = sid" "sid \<noteq> []"
  shows "\<exists>rw s'. flash_set ops r (new_writer, s) = (Ret (), Write ''Message setted, is available for the next request'' rw, s') \<and>
     page rw = page new_writer \<and> message_set gen sid s'"
proof -
  have "visitor (GetCookie r (Cookie (m_config s))) s = Some (sid, False)"
    using visitor_plain [OF assms(1), of sid] assms(1,3,4) by (simp add: plain_manager_def plain_sid_def)
  then obtain ref rw s1 where st: "with_cookies (Start ops r) (new_writer, s) = (Ret ref, rw, s1)"
    "page rw = page new_writer" "started s sid False ref s1"
    using net_frontend.start_returns [OF assms(2), of r new_writer sid False ops] net_effect_page by fastforce
  let ?w = "m_world s1"
  have w: "live_world ?w" "map_of (p_sessions (w_provider ?w)) sid = Some ref" "m_config s1 = m_config s"
    using st(3) by (simp_all add: started_def)
  let ?x = "w_heap ?w ! ref"
  let ?s = "?x\<lparr>s_flashes := AList.update ''name'' \<lparr>shouldRemove = False, fvalue = VString ''iris''\<rparr> (s_flashes ?x)\<rparr>"
  let ?w2 = "snd (on_session ref (Session_SetFlash ''name'' (VString ''iris'')) ?w)"
  have unl: "s_mu ?x = Unlocked" by (rule live_session(3) [OF w(1,2)])
  then have "Session_SetFlash ''name'' (VString ''iris'') (?x, w_mem ?w) = (Ret (), ?s\<lparr>s_mu := Unlocked\<rparr>, w_mem ?w)"
    by (simp add: Session_SetFlash_def)
  moreover have "?s\<lparr>s_mu := Unlocked\<rparr> = ?s" using unl by simp
  ultimately have set: "Session_SetFlash ''name'' (VString ''iris'') (?x, w_mem ?w) = (Ret (), ?s, w_mem ?w)" by simp
  have heap: "w_heap ?w2 = (w_heap ?w)[ref := ?s]" "fst (on_session ref (Session_SetFlash ''name'' (VString ''iris'')) ?w) = Ret ()"
    using set by simp_all
  have "wf_world (\<lambda>_. False) ?w2"
    using wf_on_session [OF _ live_session(1) [OF w(1,2)] keeps_session_SetFlash] w(1) by (simp add: live_world_def)
  then have "live_world ?w2" using unl heap by (intro live_set_session [OF w(1,2), of ?s]) simp_all
  then have "message_set gen sid (s1\<lparr>m_world := ?w2\<rparr>)"
    using assms(1) w(2,3) heap(1) live_session(1) [OF w(1,2)] by (simp add: message_set_def map_of_update)
  then show ?thesis
    using st(1,2) heap(2) by (auto simp: flash_set_def simp del: with_cookies_simp)
qed

lemma flash_get_answer:
  fixes s :: "'d Sessions"
  assumes "message_set gen sid s" "GetCookie r ''myappsessionid'' = sid" "sid \<noteq> []"
  shows "\<exists>s'. flash_get ops r (new_writer, s) = (Ret (), Write ''Hello iris'' new_writer, s') \<and> session_leaked gen sid s'"
proof -
  let ?w = "m_world s"
  obtain ref where s: "plain_manager gen ''myappsessionid'' (m_config s)" "live_world ?w"
    "map_of (p_sessions (w_provider ?w)) sid = Some ref"
    "map_of (s_flashes (w_heap ?w ! ref)) ''name'' = Some \<lparr>shouldRemove = False, fvalue = VString ''iris''\<rparr>"
    using assms(1) by (auto simp: message_set_def)
  have unl: "p_mu (w_provider ?w) = Unlocked" "s_mu (w_heap ?w ! ref) = Unlocked" "ref < length (w_heap ?w)"
    using s(2) live_session [OF s(2,3)] by (simp_all add: live_world_def provider_unlocked_def)
  have "wf_map (s_flashes (w_heap ?w ! ref))"
    using s(2) unl(3) by (simp add: live_world_def wf_world_def list_all_length wf_session_def)
  then have fl: "map_of (filter (\<lambda>(key, v). \<not> shouldRemove v) (s_flashes (w_heap ?w ! ref))) ''name'' =
      Some \<lparr>shouldRemove = False, fvalue = VString ''iris''\<rparr>"
    using s(4) by (simp add: map_of_filter_snd)
  let ?s = "(w_heap ?w ! ref)\<lparr>s_flashes := filter (\<lambda>(key, v). \<not> shouldRemove v) (s_flashes (w_heap ?w ! ref))\<rparr>"
  let ?w1 = "set_session ref ?s ?w"
  have start: "with_cookies (Start ops r) (new_writer, s) = (Ret ref, new_writer, s\<lparr>m_world := ?w1\<rparr>)"
    by (rule Start_registered [OF s(1) assms(2,3) unl(1) s(3) unl(2)])
  obtain x where get: "Session_GetFlashString ''name'' (?s, w_mem ?w) = (Ret ''iris'', x, w_mem ?w)" "s_mu x = WLocked"
    using fl unl(2) by (simp add: Session_GetFlashString_def Session_GetFlash_def Session_peekFlashMessage_def)
  let ?w2 = "snd (on_session ref (Session_GetFlashString ''name'') ?w1)"
  have "fst (on_session ref (Session_GetFlashString ''name'') ?w1) = Ret ''iris''" "w_heap ?w2 ! ref = x"
    using get(1) unl(3) by simp_all
  then show ?thesis
    using start get(2) s(1,3) unl live_no_db [OF s(2)]
    by (simp add: flash_get_def session_leaked_def del: with_cookies_simp)
qed

section \<open>Property\<close>

lemma seen_blocked: "seen (Blocked, new_writer) = (Blocked, None, [])"
  by (simp add: seen_def new_writer_def rw_status_def)

lemma flash_all_stalled:
  fixes s :: "'d Sessions"
  assumes "stalled gen name s" "fst ` set qs \<subseteq> {''/set'', ''/get'', ''/test''}"
  shows "map seen (fst (answers (flash_routes ops) qs s)) = replicate (length qs) (Blocked, None, [])"
  using assms
proof (induction qs arbitrary: s)
  case (Cons q qs)
  obtain path r where q: "q = (path, r)" by (cases q)
  obtain s' where "answer (flash_routes ops) (path, r) s = ((Blocked, new_writer), s')" "stalled gen name s'"
    using flash_stalled [OF Cons.prems(1), of path ops r] Cons.prems(2) q by auto
  then show ?case
    using Cons.IH [of s'] Cons.prems(2) q by (auto simp: seen_blocked split: prod.split)
qed simp

text \<open>
  C33. The example for flash messages deadlocks. A client sets a message, reads it (and is greeted with
  it), and reads again: this request never returns, because the lock that \<open>peekFlashMessage\<close> took is
  still held, and it holds the provider's lock while it waits. From then on every request, of this
  and of every other client, blocks.
\<close>

theorem flash_example_deadlocks:
  assumes "\<forall>n. default_generator rand n = Ret (gen n)" "GetCookie r ''myappsessionid'' = sid" "sid \<noteq> []"
    and "fst ` set qs \<subseteq> {''/set'', ''/get'', ''/test''}"
  shows "map seen (fst (answers (flash_routes ops) ([(''/set'', r), (''/get'', r), (''/get'', r)] @ qs)
       (flash_New rand now gr unlimited))) =
     [(Ret (), Some 200, ''Message setted, is available for the next request''), (Ret (), Some 200, ''Hello iris''),
      (Blocked, None, [])] @ replicate (length qs) (Blocked, None, [])"
proof -
  let ?s0 = "flash_New rand now gr unlimited"
  have s0: "plain_manager gen ''myappsessionid'' (m_config ?s0)" "live_world (m_world ?s0)"
    by (simp_all add: flash_New_def live_New plain_manager_New [OF assms(1)] zero_config_def)
  obtain rw1 s1 where 1: "flash_set ops r (new_writer, ?s0) =
      (Ret (), Write ''Message setted, is available for the next request'' rw1, s1)"
    "page rw1 = page new_writer" "message_set gen sid s1"
    using flash_set_answer [OF s0 assms(2,3)] by blast
  obtain s2 where 2: "flash_get ops r (new_writer, s1) = (Ret (), Write ''Hello iris'' new_writer, s2)"
    "session_leaked gen sid s2"
    using flash_get_answer [OF 1(3) assms(2,3)] by blast
  then obtain ref where ref: "plain_manager gen ''myappsessionid'' (m_config s2)" "p_mu (w_provider (m_world s2)) = Unlocked"
    "map_of (p_sessions (w_provider (m_world s2))) sid = Some ref" "s_mu (w_heap (m_world s2) ! ref) = WLocked"
    "p_databases (w_provider (m_world s2)) = []"
    by (auto simp: session_leaked_def)
  obtain s3 where 3: "with_cookies (Start ops r) (new_writer, s2) = (Blocked, new_writer, s3)" "stalled gen ''myappsessionid'' s3"
    using Start_leaked [OF ref(1) assms(2,3) ref(2-5), of ops new_writer] by blast
  have "answer (flash_routes ops) (''/set'', r) ?s0 =
      ((Ret (), WriteHeader 200 (Write ''Message setted, is available for the next request'' rw1)), s1)"
    "answer (flash_routes ops) (''/get'', r) s1 = ((Ret (), WriteHeader 200 (Write ''Hello iris'' new_writer)), s2)"
    "answer (flash_routes ops) (''/get'', r) s2 = ((Blocked, new_writer), s3)"
    using 1(1) 2(1) 3(1)
    by (simp_all add: answer_def ServeMux_def flash_routes_def) (simp add: flash_get_def)
  then show ?thesis
    using seen_simps(2) [OF 1(2)] seen_simps(2) [of new_writer] flash_all_stalled [OF 3(2) assms(4), of ops]
    by (simp add: seen_blocked answered_def split: prod.split) (metis fst_conv)
qed

theorem flash_example_deadlocks_witness:
  "map seen (fst (answers (flash_routes rec_ops)
      [(''/set'', visit ''myappsessionid'' ''x''), (''/get'', visit ''myappsessionid'' ''x''),
       (''/get'', visit ''myappsessionid'' ''x''), (''/set'', visit ''myappsessionid'' ''y'')]
      (flash_New (\<lambda>_. Some (replicate 16 7)) 100 (\<lambda>_. 0) 500))) =
   [(Ret (), Some 200, ''Message setted, is available for the next request''), (Ret (), Some 200, ''Hello iris''),
    (Blocked, None, []), (Blocked, None, [])]"
proof -
  have "isCookieNameValid ''myappsessionid''" "plain_value ''x''"
    by (simp_all add: isCookieNameValid_def isToken_def Let_def plain_value_def plain_byte_def)
  then have "GetCookie (visit ''myappsessionid'' ''x'') ''myappsessionid'' = ''x''" by (rule GetCookie_visit)
  from flash_example_deadlocks [OF constant_rand this, of "[(''/set'', visit ''myappsessionid'' ''y'')]" rec_ops 100 "\<lambda>_. 0" 500]
  show ?thesis by simp
qed

end
