(* ===== verification/SecureApp.thy ===== *)
theory SecureApp
  imports StandaloneApp
begin

text \<open>
  The application of \<^verbatim>\<open>_examples/securecookie\<close>: the session id travels encoded. A visitor whose cookie
  does not decode gets a session of its own on every request, so the sessions of the others are out
  of its reach, for any sequence of such requests to any handler.

  Package \<open>securecookie\<close> is an argument; \<open>secure_codec\<close> is what its documentation promises and the
  application relies on: \<open>Encode\<close> produces text that can stand in a cookie, and \<open>Decode\<close> restores the value.
\<close>

definition secure_codec ::
  "(nat \<Rightarrow> string \<Rightarrow> string \<Rightarrow> string option) \<Rightarrow> (nat \<Rightarrow> string \<Rightarrow> string \<Rightarrow> string option option) \<Rightarrow> bool" where
  "secure_codec enc dec =
     (\<forall>n m name v c. enc n name v = Some c \<longrightarrow> c \<noteq> [] \<and> plain_value c \<and> dec m name c = Some (Some v))"

definition rejected :: "(nat \<Rightarrow> string \<Rightarrow> string \<Rightarrow> string option option) \<Rightarrow> string \<Rightarrow> bool" where
  "rejected dec cookie = (cookie = [] \<or> (\<forall>n. dec n ''mycustomsessionid'' cookie = None))"

definition secure_manager ::
  "(nat \<Rightarrow> string) \<Rightarrow> (nat \<Rightarrow> string \<Rightarrow> string \<Rightarrow> string option) \<Rightarrow>
     (nat \<Rightarrow> string \<Rightarrow> string \<Rightarrow> string option option) \<Rightarrow> Config \<Rightarrow> bool" where
  "secure_manager gen enc dec cfg =
     (Cookie cfg = ''mycustomsessionid'' \<and> Encode cfg = Some enc \<and> Decode cfg = Some dec \<and>
      (\<exists>g. SessionIDGenerator cfg = Some g \<and> (\<forall>n. g n = Ret (gen n))))"

section \<open>Who the visitor is\<close>

lemma decode_rejected:
  assumes "secure_manager gen enc dec (m_config s)" "rejected dec cookie"
  shows "\<exists>k. decodeCookieValue cookie s = (Ret [], s\<lparr>m_calls := m_calls s + k\<rparr>)"
proof (cases "cookie = []")
  case True
  then show ?thesis by (intro exI [of _ 0]) (simp add: decodeCookieValue_def)
next
  case False
  with assms show ?thesis
    by (intro exI [of _ 1]) (simp add: rejected_def secure_manager_def decodeCookieValue_def user_call_def)
qed

lemma visitor_rejected:
  assumes "secure_manager gen enc dec (m_config s)" "rejected dec cookie"
  shows "\<exists>k. visitor cookie s = Some (gen (m_calls s + k), True)"
proof -
  obtain k where "decodeCookieValue cookie s = (Ret [], s\<lparr>m_calls := m_calls s + k\<rparr>)"
    using decode_rejected [OF assms] by blast
  then show ?thesis
    using assms(1)
    by (intro exI [of _ k]) (auto simp: secure_manager_def visitor_def SessionIDGenerator_call_def user_call_def)
qed

lemma visitor_new:
  "secure_manager gen enc dec (m_config s) \<Longrightarrow> visitor [] s = Some (gen (m_calls s), True)"
  by (auto simp: visitor_def secure_manager_def decodeCookieValue_def SessionIDGenerator_call_def user_call_def)

lemma visitor_owner:
  assumes "secure_manager gen enc dec (m_config s)" "cookie \<noteq> []" "sid \<noteq> []"
    and "\<And>n. dec n ''mycustomsessionid'' cookie = Some (Some sid)"
  shows "visitor cookie s = Some (sid, False)"
  using assms by (auto simp: visitor_def secure_manager_def decodeCookieValue_def user_call_def)

section \<open>The owner's session\<close>

text \<open>The session of the first id holds the name, and that id has been given out.\<close>

definition held ::
  "(nat \<Rightarrow> string) \<Rightarrow> (nat \<Rightarrow> string \<Rightarrow> string \<Rightarrow> string option) \<Rightarrow>
     (nat \<Rightarrow> string \<Rightarrow> string \<Rightarrow> string option option) \<Rightarrow> 'd Sessions \<Rightarrow> bool" where
  "held gen enc dec s =
     (live_world (m_world s) \<and> secure_manager gen enc dec (m_config s) \<and> 0 < m_calls s \<and>
      (\<exists>vals. world_map (m_world s) (gen 0) = Some vals \<and> mutable_at ''name'' vals \<and>
         value_at ''name'' vals = VString ''iris''))"

lemma held_visited:
  assumes "held gen enc dec s" "visited s (gen k) fresh vals s'" "gen k \<noteq> gen 0"
  shows "held gen enc dec s'"
  using assms by (auto simp: held_def visited_def)

lemma held_same:
  assumes "held gen enc dec s" shows "held gen enc dec (s\<lparr>m_calls := m_calls s + k\<rparr>)"
  using assms by (simp add: held_def)

definition no_name :: "string \<times> http_request \<Rightarrow> unit outcome \<times> ResponseWriter \<Rightarrow> bool" where
  "no_name q a =
     (fst a = Ret () \<and> (fst q = ''/get'' \<longrightarrow> seen a = answered (200, ''The name on the /set was: '')))"

definition turns_away ::
  "(nat \<Rightarrow> string) \<Rightarrow> (nat \<Rightarrow> string \<Rightarrow> string \<Rightarrow> string option) \<Rightarrow>
     (nat \<Rightarrow> string \<Rightarrow> string \<Rightarrow> string option option) \<Rightarrow> 'd handler \<Rightarrow> string \<Rightarrow> http_request \<Rightarrow> 'd Sessions \<Rightarrow> bool" where
  "turns_away gen enc dec h path r s =
     (\<exists>rw s'. h r (new_writer, s) = (Ret (), rw, s') \<and> no_name (path, r) (Ret (), WriteHeader 200 rw) \<and>
        held gen enc dec s')"

text \<open>A handler that runs an operation on the visitor's session, for a visitor whose cookie is rejected.\<close>

lemma intruder_op:
  fixes s :: "'d Sessions"
  assumes "held gen enc dec s" "\<forall>n>0. gen n \<noteq> gen 0" "rejected dec (GetCookie r ''mycustomsessionid'')"
    and "session_op P f g" "P Map.empty"
  shows "\<exists>rw s'. bind_out (bind_out (with_cookies (Start ops r) (new_writer, s)) (\<lambda>ref. session_call (f ref))) (\<lambda>a. respond (h a)) =
      (Ret (), h (fst (g Map.empty)) rw, s') \<and> page rw = page new_writer \<and> held gen enc dec s'"
proof -
  have s: "live_world (m_world s)" "secure_manager gen enc dec (m_config s)" "0 < m_calls s"
    using assms(1) by (simp_all add: held_def)
  obtain k where vis: "visitor (GetCookie r (Cookie (m_config s))) s = Some (gen (m_calls s + k), True)"
    using visitor_rejected [OF s(2) assms(3)] s(2) by (auto simp: secure_manager_def)
  have "values_of (gen (m_calls s + k)) True (world_map (m_world s)) = Map.empty" by (simp add: values_of_def)
  then obtain rw s' where "bind_out (bind_out (with_cookies (Start ops r) (new_writer, s)) (\<lambda>ref. session_call (f ref)))
      (\<lambda>a. respond (h a)) = (Ret (), h (fst (g Map.empty)) rw, s')" "page rw = page new_writer"
    "visited s (gen (m_calls s + k)) True (snd (g Map.empty)) s'"
    using start_op_respond [OF assms(4) s(1) vis, of ops new_writer h] assms(5) by auto
  moreover have "gen (m_calls s + k) \<noteq> gen 0" using assms(2) s(3) by simp
  ultimately show ?thesis using held_visited [OF assms(1)] by blast
qed

lemma turns_away_name:
  fixes s :: "'d Sessions"
  assumes "held gen enc dec s" "\<forall>n>0. gen n \<noteq> gen 0" "rejected dec (GetCookie r ''mycustomsessionid'')"
  shows "turns_away gen enc dec (name_set ops) ''/set'' r s" "turns_away gen enc dec (name_get ops) ''/get'' r s"
    "turns_away gen enc dec (name_delete ops) ''/delete'' r s" "turns_away gen enc dec (name_clear ops) ''/clear'' r s"
proof -
  note op = intruder_op [OF assms, of _ _ _ ops]
  show "turns_away gen enc dec (name_set ops) ''/set'' r s"
    using op [OF session_op_bind [OF session_op_Set [of ops "''name''" "VString ''iris''"] session_op_GetString [of "''name''"]],
        of "\<lambda>name. Write (''All ok session setted to: '' @ name)"] map_save_at(1) [OF mutable_empty(1)]
    unfolding turns_away_def name_handlers_eq by (auto simp: no_name_def)
  show "turns_away gen enc dec (name_get ops) ''/get'' r s"
    using op [OF session_op_GetString [of "''name''"], of "\<lambda>name. Write (''The name on the /set was: '' @ name)"] seen_simps(2)
    unfolding turns_away_def name_handlers_eq by (auto simp: no_name_def)
  show "turns_away gen enc dec (name_delete ops) ''/delete'' r s"
    using op [OF session_op_Delete [of ops "''name''"], of "\<lambda>_ w. w"]
    unfolding turns_away_def name_handlers_eq by (auto simp: no_name_def)
  show "turns_away gen enc dec (name_clear ops) ''/clear'' r s"
    using op [OF session_op_Clear [of ops], of "\<lambda>_ w. w"]
    unfolding turns_away_def name_handlers_eq by (auto simp: no_name_def)
qed

text \<open>The handlers that start no session find nothing to update or to destroy.\<close>

lemma turns_away_cookie:
  fixes s :: "'d Sessions"
  assumes "held gen enc dec s" "rejected dec (GetCookie r ''mycustomsessionid'')"
  shows "turns_away gen enc dec name_update ''/update'' r s" "turns_away gen enc dec (name_destroy ops) ''/destroy'' r s"
proof -
  have man: "secure_manager gen enc dec (m_config s)" "Cookie (m_config s) = ''mycustomsessionid''"
    using assms(1) by (simp_all add: held_def secure_manager_def)
  obtain k where dec: "decodeCookieValue (GetCookie r ''mycustomsessionid'') s = (Ret [], s\<lparr>m_calls := m_calls s + k\<rparr>)"
    using decode_rejected [OF man(1) assms(2)] by blast
  show "turns_away gen enc dec name_update ''/update'' r s"
    using dec man(2) held_same [OF assms(1)]
    by (simp add: turns_away_def no_name_def name_update_def ShiftExpiration_def UpdateExpiration_def update_expiration_with_def)
  show "turns_away gen enc dec (name_destroy ops) ''/destroy'' r s"
    using dec man(2) held_same [OF assms(1)]
    by (simp add: turns_away_def no_name_def name_destroy_def Destroy_def destroy_def)
qed

lemma turns_away_index: "held gen enc dec s \<Longrightarrow> path \<noteq> ''/get'' \<Longrightarrow> turns_away gen enc dec name_index path r s"
  by (simp add: turns_away_def no_name_def name_index_def)

lemma turns_away_answer:
  "turns_away gen enc dec h path r s \<Longrightarrow> ServeMux routes path r = h r \<Longrightarrow>
     \<exists>a s'. answer routes (path, r) s = (a, s') \<and> no_name (path, r) a \<and> held gen enc dec s'"
  unfolding turns_away_def by (elim exE conjE) (auto simp: answer_def)

lemma intruder_answer:
  fixes s :: "'d Sessions"
  assumes "held gen enc dec s" "\<forall>n>0. gen n \<noteq> gen 0" "rejected dec (GetCookie r ''mycustomsessionid'')"
  shows "\<exists>a s'. answer (securecookie_routes ops) (path, r) s = (a, s') \<and> no_name (path, r) a \<and> held gen enc dec s'"
proof (cases "path \<in> {''/set'', ''/get'', ''/delete'', ''/clear'', ''/update'', ''/destroy''}")
  case True
  note h = turns_away_name [OF assms, of ops] turns_away_cookie(1) [OF assms(1,3)] turns_away_cookie(2) [OF assms(1,3), of ops]
  from True show ?thesis
    by (elim insertE emptyE; hypsubst)
      (rule h [THEN turns_away_answer], simp add: ServeMux_def securecookie_routes_def name_routes_def)+
next
  case False
  then show ?thesis
    using turns_away_index [OF assms(1)]
    by (intro turns_away_answer) (auto simp: ServeMux_def securecookie_routes_def name_routes_def)
qed

lemma intruder_answers:
  fixes s :: "'d Sessions"
  assumes "held gen enc dec s" "\<forall>n>0. gen n \<noteq> gen 0" "\<forall>q\<in>set qs. rejected dec (GetCookie (snd q) ''mycustomsessionid'')"
  shows "\<exists>as s'. answers (securecookie_routes ops) qs s = (as, s') \<and> list_all2 no_name qs as \<and> held gen enc dec s'"
  using assms(1,3)
proof (induction qs arbitrary: s)
  case (Cons q qs)
  obtain a s1 where "answer (securecookie_routes ops) q s = (a, s1)" "no_name q a" "held gen enc dec s1"
    using intruder_answer [OF Cons.prems(1) assms(2), of "snd q" ops "fst q"] Cons.prems(2) by auto
  moreover from this obtain as s' where "answers (securecookie_routes ops) qs s1 = (as, s')" "list_all2 no_name qs as" "held gen enc dec s'"
    using Cons.IH [of s1] Cons.prems(2) by auto
  ultimately show ?case by simp
qed simp

lemma answers_append:
  "answers routes (qs @ qs') s =
     (fst (answers routes qs s) @ fst (answers routes qs' (snd (answers routes qs s))),
      snd (answers routes qs' (snd (answers routes qs s))))"
  by (induction qs arbitrary: s) (simp_all split: prod.split)

section \<open>The owner\<close>

lemma owner_set:
  fixes s :: "'d Sessions"
  assumes "live_world (m_world s)" "secure_manager gen enc dec (m_config s)" "m_calls s = 0" "secure_codec enc dec"
    and "GetCookie r ''mycustomsessionid'' = []" "\<forall>n. enc n ''mycustomsessionid'' (gen 0) \<noteq> None"
  shows "\<exists>a s' c n. answer (securecookie_routes ops) (''/set'', r) s = (a, s') \<and> held gen enc dec s' \<and>
     seen a = answered (200, ''All ok session setted to: iris'') \<and> sent_cookies (snd a) = [c] \<and>
     c_Name c = ''mycustomsessionid'' \<and> enc n ''mycustomsessionid'' (gen 0) = Some (c_Value c)"
proof -
  have name: "Cookie (m_config s) = ''mycustomsessionid''" using assms(2) by (simp add: secure_manager_def)
  have vis: "visitor (GetCookie r (Cookie (m_config s))) s = Some (gen 0, True)"
    using visitor_new [OF assms(2)] assms(3,5) name by simp
  have vals: "values_of (gen 0) True (world_map (m_world s)) = Map.empty" by (simp add: values_of_def)
  let ?v = "map_save ''name'' (VString ''iris'') False Map.empty"
  note v = map_save_at(1) [OF mutable_empty(1), of "''name''" "VString ''iris''"]
  let ?t = "''All ok session setted to: iris''"
  obtain rw s' where run: "name_set ops r (new_writer, s) = (Ret (), Write ?t rw, s')" "page rw = page new_writer"
    "net_effect r s (gen 0) True new_writer rw" "visited s (gen 0) True ?v s'"
    using start_op_respond [OF session_op_bind [OF session_op_Set [of ops "''name''" "VString ''iris''"] session_op_GetString [of "''name''"]]
          assms(1) vis, of ops new_writer "\<lambda>name. Write (''All ok session setted to: '' @ name)"] v vals
    unfolding name_handlers_eq by auto
  obtain s1 :: "'d Sessions" where s1: "m_config s1 = m_config s" "rw_cookies rw = fst (updateCookie r (gen 0) (Expires (m_config s)) ([], s1))"
    using run(3) by (auto simp: net_effect_def cookie_effect_def new_writer_def)
  have "isCookieNameValid (Cookie (m_config s1))"
    using s1(1) name by (simp add: isCookieNameValid_def isToken_def Let_def)
  then obtain c where c: "rw_cookies rw = [c]" "c_Name c = ''mycustomsessionid''"
    "c_Value c = sanitizeCookieValue (fst (encodeCookieValue (gen 0) s1))"
    using updateCookie_sends [of s1 r "gen 0" "Expires (m_config s)" "[]"] s1 name by auto
  obtain cv where cv: "enc (m_calls s1) ''mycustomsessionid'' (gen 0) = Some cv" using assms(6) by blast
  then have "plain_value cv" using assms(4) by (auto simp: secure_codec_def)
  then have "c_Value c = cv"
    using c(3) cv s1(1) assms(2) name
    by (simp add: secure_manager_def encodeCookieValue_def user_call_def sanitizeCookieValue_plain)
  moreover have "sent_cookies (WriteHeader 200 (Write ?t rw)) = [c]"
    using c(1) run(2) by (simp add: sent_cookies_def Write_def WriteHeader_def page_def new_writer_def)
  moreover have "answer (securecookie_routes ops) (''/set'', r) s = ((Ret (), WriteHeader 200 (Write ?t rw)), s')"
    using run(1) by (intro answer_Ret) (simp add: ServeMux_def securecookie_routes_def name_routes_def)
  moreover have "held gen enc dec s'" using run(4) v assms(2) by (auto simp: held_def visited_def)
  ultimately show ?thesis using cv c(2) seen_simps(2) [OF run(2), of ?t] by auto
qed

lemma owner_get:
  fixes s :: "'d Sessions"
  assumes "held gen enc dec s" "gen 0 \<noteq> []" "GetCookie r ''mycustomsessionid'' = cookie" "cookie \<noteq> []"
    and "\<And>n. dec n ''mycustomsessionid'' cookie = Some (Some (gen 0))"
  shows "\<exists>a s'. answer (securecookie_routes ops) (''/get'', r) s = (a, s') \<and>
     seen a = answered (200, ''The name on the /set was: iris'')"
proof -
  obtain vals where s: "live_world (m_world s)" "secure_manager gen enc dec (m_config s)"
    "world_map (m_world s) (gen 0) = Some vals" "mutable_at ''name'' vals" "value_at ''name'' vals = VString ''iris''"
    using assms(1) by (auto simp: held_def)
  have vis: "visitor (GetCookie r (Cookie (m_config s))) s = Some (gen 0, False)"
    using visitor_owner [OF s(2) assms(4,2,5)] assms(3) s(2) by (simp add: secure_manager_def)
  have vals: "values_of (gen 0) False (world_map (m_world s)) = vals" using s(3) by (simp add: values_of_def)
  let ?t = "''The name on the /set was: iris''"
  obtain rw s' where run: "name_get ops r (new_writer, s) = (Ret (), Write ?t rw, s')" "page rw = page new_writer"
    using start_op_respond [OF session_op_GetString [of "''name''"] s(1) vis, of ops new_writer "\<lambda>name. Write (''The name on the /set was: '' @ name)"]
      s(4,5) unfolding vals name_handlers_eq by auto
  then have "answer (securecookie_routes ops) (''/get'', r) s = ((Ret (), WriteHeader 200 (Write ?t rw)), s')"
    by (intro answer_Ret) (simp add: ServeMux_def securecookie_routes_def name_routes_def)
  then show ?thesis using seen_simps(2) [OF run(2), of ?t] by simp
qed

lemma default_generator_nonempty: "default_generator rand n = Ret sid \<Longrightarrow> sid \<noteq> []"
  by (auto simp: default_generator_def UUID_String_def split: outcome.splits)

section \<open>Property\<close>

text \<open>
  C5. In the example with encoded cookies no other visitor reaches a session. A visitor without a cookie
  calls \<open>/set\<close> and gets a cookie. Then any number of requests arrive, to any paths, with cookies that
  \<open>Decode\<close> rejects or with none: each is answered, and none that asks for the name sees one. After
  them, a request with the first visitor's cookie still gets the name.
\<close>

theorem securecookie_keeps_intruders_out:
  assumes "\<forall>n. default_generator rand n = Ret (gen n)" "\<forall>n>0. gen n \<noteq> gen 0"
    and "sc ''the-big-and-secret-fash-key-here'' ''lot-secret-of-characters-big-too'' = (enc, dec)"
    and "secure_codec enc dec" "\<forall>n. enc n ''mycustomsessionid'' (gen 0) \<noteq> None"
    and "GetCookie r ''mycustomsessionid'' = []" "\<forall>q\<in>set qs. rejected dec (GetCookie (snd q) ''mycustomsessionid'')"
  shows "\<exists>a as c. fst (answers (securecookie_routes ops) ((''/set'', r) # qs) (securecookie_New sc rand now gr unlimited)) = a # as \<and>
     seen a = answered (200, ''All ok session setted to: iris'') \<and> list_all2 no_name qs as \<and>
     sent_cookies (snd a) = [c] \<and> c_Name c = ''mycustomsessionid'' \<and> plain_value (c_Value c) \<and>
     (\<forall>r'. GetCookie r' ''mycustomsessionid'' = c_Value c \<longrightarrow>
        map seen (fst (answers (securecookie_routes ops) ((''/set'', r) # qs @ [(''/get'', r')])
          (securecookie_New sc rand now gr unlimited))) =
        map seen (a # as) @ [answered (200, ''The name on the /set was: iris'')])"
proof -
  let ?s0 = "securecookie_New sc rand now gr unlimited"
  have s0: "live_world (m_world ?s0)" "secure_manager gen enc dec (m_config ?s0)" "m_calls ?s0 = 0"
    using assms(1,3) by (simp_all add: securecookie_New_def live_New) (simp add: secure_manager_def New_def zero_config_def)
  obtain a s1 c n where a: "answer (securecookie_routes ops) (''/set'', r) ?s0 = (a, s1)" "held gen enc dec s1"
    "seen a = answered (200, ''All ok session setted to: iris'')" "sent_cookies (snd a) = [c]"
    "c_Name c = ''mycustomsessionid''" "enc n ''mycustomsessionid'' (gen 0) = Some (c_Value c)"
    using owner_set [OF s0 assms(4,6,5)] by blast
  obtain as s2 where as: "answers (securecookie_routes ops) qs s1 = (as, s2)" "list_all2 no_name qs as" "held gen enc dec s2"
    using intruder_answers [OF a(2) assms(2,7)] by blast
  have codec: "c_Value c \<noteq> []" "plain_value (c_Value c)" "dec m ''mycustomsessionid'' (c_Value c) = Some (Some (gen 0))" for m
    using assms(4) a(6) unfolding secure_codec_def by blast+
  have "gen 0 \<noteq> []" using default_generator_nonempty assms(1) by blast
  note get = owner_get [OF as(3) this _ codec(1,3), of _ ops]
  have "map seen (fst (answers (securecookie_routes ops) ((''/set'', r) # qs @ [(''/get'', r')]) ?s0)) =
      map seen (a # as) @ [answered (200, ''The name on the /set was: iris'')]"
    if "GetCookie r' ''mycustomsessionid'' = c_Value c" for r'
    using get [OF that] a(1) as(1) by (auto simp: answers_append split: prod.split)
  then show ?thesis using a as codec(2) by auto
qed

text \<open>A codec for the example: a mark in front of the value.\<close>

definition mark_codec :: securecookie where
  "mark_codec hash block =
     (\<lambda>n name v. if plain_value v then Some (''ok'' @ v) else None,
      \<lambda>n name c. if take 2 c = ''ok'' then Some (Some (drop 2 c)) else None)"

lemma mark_codec_ok: "secure_codec (fst (mark_codec hash block)) (snd (mark_codec hash block))"
  by (auto simp: secure_codec_def mark_codec_def plain_value_def plain_byte_def Let_def split: if_splits)

definition two_rand :: "nat \<Rightarrow> byte list option" where
  "two_rand n = Some (replicate 16 (if n = 0 then 7 else 8))"

definition two_ids :: "nat \<Rightarrow> string" where
  "two_ids n = UUID_String (UUID_SetVariant (UUID_SetVersion 4 (replicate 16 (if n = 0 then 7 else 8))))"

theorem securecookie_keeps_intruders_out_witness:
  "\<exists>a as c. fst (answers (securecookie_routes rec_ops)
      [(''/set'', visit ''mycustomsessionid'' []), (''/get'', visit ''mycustomsessionid'' ''forged''),
       (''/destroy'', visit ''mycustomsessionid'' ''forged'')] (securecookie_New mark_codec two_rand 100 (\<lambda>_. 0) 500)) = a # as \<and>
     sent_cookies (snd a) = [c] \<and>
     map seen (fst (answers (securecookie_routes rec_ops)
       [(''/set'', visit ''mycustomsessionid'' []), (''/get'', visit ''mycustomsessionid'' ''forged''),
        (''/destroy'', visit ''mycustomsessionid'' ''forged''), (''/get'', visit ''mycustomsessionid'' (c_Value c))]
       (securecookie_New mark_codec two_rand 100 (\<lambda>_. 0) 500))) =
     map seen (a # as) @ [answered (200, ''The name on the /set was: iris'')]"
proof -
  let ?hk = "''the-big-and-secret-fash-key-here''" and ?bk = "''lot-secret-of-characters-big-too''"
  let ?enc = "fst (mark_codec ?hk ?bk)" and ?dec = "snd (mark_codec ?hk ?bk)"
  have gen: "\<forall>n. default_generator two_rand n = Ret (two_ids n)"
    by (simp add: default_generator_def NewV4_def safeRandom_def two_rand_def two_ids_def)
  have "two_ids 1 \<noteq> two_ids 0" by code_simp
  then have ids: "\<forall>n>0. two_ids n \<noteq> two_ids 0" by (simp add: two_ids_def)
  have plain: "plain_value (two_ids 0)" by code_simp
  have name: "isCookieNameValid ''mycustomsessionid''" by (simp add: isCookieNameValid_def isToken_def Let_def)
  have forged: "plain_value ''forged''" by (simp add: plain_value_def plain_byte_def Let_def)
  have enc: "\<forall>n. ?enc n ''mycustomsessionid'' (two_ids 0) \<noteq> None" using plain by (simp add: mark_codec_def)
  have rej: "rejected ?dec (GetCookie (visit ''mycustomsessionid'' ''forged'') ''mycustomsessionid'')"
    using GetCookie_visit [OF name forged] by (simp add: rejected_def mark_codec_def)
  have none: "GetCookie (visit ''mycustomsessionid'' []) ''mycustomsessionid'' = []" by (simp add: visit_def)
  from securecookie_keeps_intruders_out [where sc = mark_codec and rand = two_rand and gen = two_ids and ops = rec_ops
      and now = 100 and gr = "\<lambda>_. 0" and unlimited = 500
      and qs = "[(''/get'', visit ''mycustomsessionid'' ''forged''), (''/destroy'', visit ''mycustomsessionid'' ''forged'')]",
      OF gen ids surjective_pairing mark_codec_ok enc none] rej
  show ?thesis using GetCookie_visit [OF name] by auto
qed

end
