(* ===== verification/FasthttpApp.thy ===== *)
theory FasthttpApp
  imports FlashApp SecureApp "HOL-Library.Multiset"
begin

text \<open>
  The application of \<^verbatim>\<open>_examples/fasthttp\<close>, on the manager \<open>Default\<close>. It refines an abstract server whose
  state maps session ids to maps from keys to values. Package \<open>fasthttp\<close> is an argument:
  \<open>fasthttp_body\<close> is what the application relies on, that \<open>WriteString\<close> appends to the body of the
  response and that the functions for cookies leave the body alone.
\<close>

definition fasthttp_body :: "('c, 'k) fasthttp \<Rightarrow> 'c fasthttp_io \<Rightarrow> ('c \<Rightarrow> string) \<Rightarrow> bool" where
  "fasthttp_body fh io body =
     ((\<forall>text ctx. body (fh_WriteString io text ctx) = body ctx @ text) \<and>
      (\<forall>cookie ctx. body (fh_Response_SetCookie fh cookie ctx) = body ctx) \<and>
      (\<forall>name ctx. body (fh_Response_DelCookie fh name ctx) = body ctx) \<and>
      (\<forall>name ctx. body (fh_Request_DelCookie fh name ctx) = body ctx))"

text \<open>
  A server that runs the handler on one request after the other; with each request comes the order in
  which its handler would visit a map.
\<close>

fun fasthttp_serve ::
  "('o \<Rightarrow> 'c \<times> 'd Sessions \<Rightarrow> unit outcome \<times> 'c \<times> 'd Sessions) \<Rightarrow> ('o \<times> 'c) list \<Rightarrow> 'd Sessions
     \<Rightarrow> (unit outcome \<times> 'c) list \<times> 'd Sessions" where
  "fasthttp_serve app [] s = ([], s)"
| "fasthttp_serve app ((order, ctx) # reqs) s =
     (let (r, ctx1, s1) = app order (ctx, s); (as, s2) = fasthttp_serve app reqs s1 in ((r, ctx1) # as, s2))"

section \<open>The abstract server\<close>

text \<open>
  An answer is a set of texts, because \<open>GetAll\<close> returns a map, whose items are printed in any order.
\<close>

definition fasthttp_spec ::
  "(nat \<Rightarrow> string) \<Rightarrow> ((string \<times> val) list \<Rightarrow> string) \<Rightarrow> string \<times> string \<Rightarrow> nat \<times> (string \<rightharpoonup> (string \<rightharpoonup> val))
     \<Rightarrow> string set \<times> nat \<times> (string \<rightharpoonup> (string \<rightharpoonup> val))" where
  "fasthttp_spec gen fmt = (\<lambda>(path, cookie) (n, A).
     let sid = plain_sid gen cookie n;
         n1 = (if cookie = [] then Suc n else n);
         vals = (if cookie = [] then Map.empty else case A sid of None \<Rightarrow> Map.empty | Some vals \<Rightarrow> vals)
     in if path = ''/set'' then
          ({''Session saved, go to /get to view the results''}, n1, A(sid \<mapsto> vals ++ map_of fasthttp_values))
        else if path = ''/get'' then
          ({fmt items | items. distinct (map fst items) \<and> map_of items = vals}, n1, A(sid \<mapsto> vals))
        else if path = ''/clear'' then ({[]}, n1, A(sid \<mapsto> Map.empty))
        else if path = ''/destroy'' then ({[]}, n, if cookie = [] then A else A(cookie := None))
        else ({''Please navigate to /set or /get or /clear or /destroy''}, n, A))"

section \<open>Values and sessions\<close>

definition raw_vals :: "(string \<rightharpoonup> Entry) \<Rightarrow> (string \<rightharpoonup> val)" where
  "raw_vals vals k = map_option ValueRaw (vals k)"

definition all_mutable :: "(string \<rightharpoonup> Entry) \<Rightarrow> bool" where
  "all_mutable vals = (\<forall>k e. vals k = Some e \<longrightarrow> \<not> immutable e)"

lemma raw_vals_simps [simp]: "all_mutable Map.empty" "raw_vals Map.empty = Map.empty"
  by (simp_all add: all_mutable_def raw_vals_def fun_eq_iff)

lemma raw_vals_save:
  "all_mutable vals \<Longrightarrow> all_mutable (map_save k v False vals) \<and> raw_vals (map_save k v False vals) = (raw_vals vals)(k \<mapsto> v)"
  by (auto simp: all_mutable_def raw_vals_def map_save_def saved_entry_def fun_eq_iff split: option.split)

definition save_all :: "(string \<times> val) list \<Rightarrow> (string \<rightharpoonup> Entry) \<Rightarrow> (string \<rightharpoonup> Entry)" where
  "save_all = fold (\<lambda>(k, v). map_save k v False)"

lemma raw_vals_save_all:
  assumes "all_mutable vals"
  shows "all_mutable (save_all kvs vals) \<and> raw_vals (save_all kvs vals) = raw_vals vals ++ map_of (rev kvs)"
  using assms
proof (induction kvs arbitrary: vals)
  case (Cons kv kvs)
  then show ?case
    using raw_vals_save [OF Cons.prems, of "fst kv" "snd kv"]
    by (cases kv) (simp add: save_all_def map_add_def fun_eq_iff split: option.split)
qed (simp add: save_all_def)

text \<open>In whatever order \<open>range\<close> visits the map, the same values are stored.\<close>

lemma map_of_order:
  assumes "mset order = mset fasthttp_values"
  shows "map_of (rev order) = map_of fasthttp_values"
proof -
  have "mset (map fst (rev order)) = mset (map fst fasthttp_values)" using assms by simp
  then have "distinct (map fst (rev order))" "set (rev order) = set fasthttp_values"
    using assms mset_eq_imp_distinct_iff [of "map fst (rev order)" "map fst fasthttp_values"] mset_eq_setD [OF assms]
    by (simp_all add: fasthttp_values_def)
  then show ?thesis by (intro map_of_eqI) (auto simp: fasthttp_values_def intro!: map_of_eqI)
qed

lemma session_op_set_loop [session_ops]:
  "session_op (\<lambda>_. True) (set_loop ops kvs) (\<lambda>vals. ((), save_all kvs vals))"
proof (induction kvs)
  case Nil
  have "set_loop ops [] = (\<lambda>sess w. (Ret (), w))" by (simp add: fun_eq_iff)
  then show ?case by (auto simp: session_op_def save_all_def fun_upd_idem)
next
  case (Cons kv kvs)
  obtain k v where kv: "kv = (k, v)" by (cases kv)
  have "set_loop ops (kv # kvs) = (\<lambda>sess w. bind_out (Session_Set ops sess k v w) (\<lambda>_. set_loop ops kvs sess))"
    by (simp add: kv fun_eq_iff)
  then show ?case
    using session_op_bind [OF session_op_Set [of ops k v] Cons.IH] by (simp add: kv save_all_def)
qed

lemma visit_loop_update:
  assumes "\<forall>e\<in>set es. \<not> immutable e" "distinct (map Key es)" "fst ` set items \<inter> Key ` set es = {}"
  shows "visit_loop AList.update es (m, items) = (Ret (), m, items @ map (\<lambda>e. (Key e, ValueRaw e)) es)"
  using assms
proof (induction es arbitrary: items)
  case (Cons e es)
  have "AList.update (Key e) v items = items @ [(Key e, v)]" for v
    using Cons.prems(3) by (induction items) auto
  then show ?case using Cons by (auto simp: Entry_Value_mutable)
qed simp

lemma map_of_entries:
  "map_of (map (\<lambda>e. (Key e, ValueRaw e)) es) k = map_option ValueRaw (find (\<lambda>e. Key e = k) es)"
  by (induction es) auto

lemma find_key_distinct: "distinct (map Key es) \<Longrightarrow> e \<in> set es \<Longrightarrow> find (\<lambda>x. Key x = Key e) es = Some e"
  by (induction es) auto

lemma Session_GetAll_live:
  assumes "live_world w" "map_of (p_sessions (w_provider w)) sid = Some ref" "world_map w sid = Some vals" "all_mutable vals"
  shows "\<exists>items. on_session ref Session_GetAll w = (Ret items, w) \<and> distinct (map fst items) \<and> map_of items = raw_vals vals"
proof -
  let ?s = "w_heap w ! ref"
  let ?es = "store_elems (s_values ?s)"
  let ?items = "map (\<lambda>e. (Key e, ValueRaw e)) ?es"
  note s = live_session [OF assms(1,2)]
  have d: "distinct (map Key ?es)" using s(4) by (simp add: wf_store_def)
  have vals: "vals = store_lookup (s_values ?s)" using assms(2,3) by (simp add: world_map_def)
  have "\<not> immutable e" if "e \<in> set ?es" for e
    using find_key_distinct [OF d that] assms(4) vals by (auto simp: all_mutable_def store_lookup_def)
  then have "visit_loop AList.update ?es (w_mem w, []) = (Ret (), w_mem w, ?items)"
    using visit_loop_update [of ?es "[]"] d by simp
  then have "Session_GetAll (?s, w_mem w) = (Ret ?items, ?s, w_mem w)"
    using s(3) by (cases ?s) (simp add: Session_GetAll_def)
  then have "on_session ref Session_GetAll w = (Ret ?items, w)" by (rule on_session_pure)
  moreover have "map_of ?items = raw_vals vals"
    by (simp add: fun_eq_iff map_of_entries raw_vals_def vals store_lookup_def)
  ultimately show ?thesis using d by (auto simp: comp_def)
qed

section \<open>The simulation\<close>

definition fasthttp_rel :: "(nat \<Rightarrow> string) \<Rightarrow> 'd Sessions \<Rightarrow> nat \<times> (string \<rightharpoonup> (string \<rightharpoonup> val)) \<Rightarrow> bool" where
  "fasthttp_rel gen s = (\<lambda>(n, A).
     live_world (m_world s) \<and> plain_manager gen ''gosessionid'' (m_config s) \<and> m_calls s = n \<and>
     (\<forall>sid vals. world_map (m_world s) sid = Some vals \<longrightarrow> all_mutable vals) \<and>
     A = map_option raw_vals \<circ> world_map (m_world s))"

lemma fasthttp_visitor:
  assumes "fasthttp_rel gen s (n, A)" "GetCookieFasthttp fh ctx ''gosessionid'' = cookie"
  shows "live_world (m_world s)" "plain_manager gen ''gosessionid'' (m_config s)" "Cookie (m_config s) = ''gosessionid''"
    "visitor (case (ctx, s) of (ctx, s) \<Rightarrow> GetCookieFasthttp fh ctx (Cookie (m_config s))) s =
       Some (plain_sid gen cookie n, cookie = [])"
    "all_mutable (values_of sid fresh (world_map (m_world s)))"
    "raw_vals (values_of sid fresh (world_map (m_world s))) =
       (if fresh then Map.empty else case A sid of None \<Rightarrow> Map.empty | Some vals \<Rightarrow> vals)"
proof -
  show s: "live_world (m_world s)" "plain_manager gen ''gosessionid'' (m_config s)"
    using assms(1) by (auto simp: fasthttp_rel_def)
  show name: "Cookie (m_config s) = ''gosessionid''" using s(2) by (simp add: plain_manager_def)
  show "visitor (case (ctx, s) of (ctx, s) \<Rightarrow> GetCookieFasthttp fh ctx (Cookie (m_config s))) s =
      Some (plain_sid gen cookie n, cookie = [])"
    using visitor_plain [OF s(2)] assms name by (auto simp: fasthttp_rel_def)
  show "all_mutable (values_of sid fresh (world_map (m_world s)))"
    "raw_vals (values_of sid fresh (world_map (m_world s))) =
       (if fresh then Map.empty else case A sid of None \<Rightarrow> Map.empty | Some vals \<Rightarrow> vals)"
    using assms(1) by (auto simp: fasthttp_rel_def values_of_def split: option.split)
qed

lemma fasthttp_rel_visited:
  assumes "fasthttp_rel gen s (n, A)" "visited s sid (cookie = []) vals s'" "all_mutable vals"
  shows "fasthttp_rel gen s' (if cookie = [] then Suc n else n, A(sid \<mapsto> raw_vals vals))"
proof -
  have s: "plain_manager gen ''gosessionid'' (m_config s)" using assms(1) by (auto simp: fasthttp_rel_def)
  show ?thesis
    using visited_plain [OF s assms(2)] assms(1,3) by (auto simp: fasthttp_rel_def comp_def fun_upd_def)
qed

lemma cookie_effect_body:
  assumes "fasthttp_body fh io body" "cookie_effect (updateCookieFasthttp fh) s sid fresh ctx ctx'"
  shows "body ctx' = body ctx"
  using assms
  by (auto simp: fasthttp_body_def cookie_effect_def updateCookieFasthttp_def AddCookieFasthttp_def Let_def split_def
      split: if_splits)

text \<open>A request that runs an operation on the visitor's session.\<close>

lemma fasthttp_visit:
  fixes s :: "'d Sessions" and ctx :: 'c
  assumes "fasthttp_rel gen s (n, A)" "fasthttp_body fh io body" "session_op (\<lambda>_. True) f g"
  defines "cookie \<equiv> GetCookieFasthttp fh ctx ''gosessionid''"
  defines "sid \<equiv> plain_sid gen cookie n"
  defines "vals \<equiv> values_of sid (cookie = []) (world_map (m_world s))"
  assumes "all_mutable (snd (g vals))"
  shows "\<exists>ctx' s'. bind_out (StartFasthttp ops fh (ctx, s)) (\<lambda>ref. session_call (f ref)) = (Ret (fst (g vals)), ctx', s') \<and>
     body ctx' = body ctx \<and> fasthttp_rel gen s' (if cookie = [] then Suc n else n, A(sid \<mapsto> raw_vals (snd (g vals))))"
proof -
  note v = fasthttp_visitor [OF assms(1), of fh ctx cookie, folded sid_def]
  have "GetCookieFasthttp fh ctx ''gosessionid'' = cookie" by (simp add: cookie_def)
  from fasthttp_frontend.start_op [OF assms(3) v(1,4), OF this this, of ops]
  obtain ctx' s' where run: "bind_out (StartFasthttp ops fh (ctx, s)) (\<lambda>ref. session_call (f ref)) = (Ret (fst (g vals)), ctx', s')"
    "cookie_effect (updateCookieFasthttp fh) s sid (cookie = []) ctx ctx'" "visited s sid (cookie = []) (snd (g vals)) s'"
    unfolding vals_def by auto
  show ?thesis
    using run(1) cookie_effect_body [OF assms(2) run(2)] fasthttp_rel_visited [OF assms(1) run(3) assms(7)] by auto
qed

definition fasthttp_answers ::
  "(nat \<Rightarrow> string) \<Rightarrow> ((string \<times> val) list \<Rightarrow> string) \<Rightarrow> ('c \<Rightarrow> string) \<Rightarrow> string \<times> string \<Rightarrow> nat \<times> (string \<rightharpoonup> (string \<rightharpoonup> val)) \<Rightarrow>
     unit outcome \<times> 'c \<times> 'd Sessions \<Rightarrow> bool" where
  "fasthttp_answers gen fmt body q st = (\<lambda>(r, ctx, s).
     r = Ret () \<and> body ctx \<in> fst (fasthttp_spec gen fmt q st) \<and> fasthttp_rel gen s (snd (fasthttp_spec gen fmt q st)))"

lemma setHandler_answers:
  fixes s :: "'d Sessions"
  assumes "fasthttp_rel gen s (n, A)" "fasthttp_body fh io body" "mset order = mset fasthttp_values" "body ctx = []"
  shows "fasthttp_answers gen fmt body (''/set'', GetCookieFasthttp fh ctx ''gosessionid'') (n, A)
     (setHandler ops fh io order (ctx, s))"
proof -
  let ?c = "GetCookieFasthttp fh ctx ''gosessionid''"
  let ?vals = "values_of (plain_sid gen ?c n) (?c = []) (world_map (m_world s))"
  note v = fasthttp_visitor [where fh = fh and ctx = ctx, OF assms(1) refl]
  have save: "all_mutable (save_all order ?vals)" "raw_vals (save_all order ?vals) = raw_vals ?vals ++ map_of fasthttp_values"
    using raw_vals_save_all [OF v(5)] map_of_order [OF assms(3)] by auto
  obtain ctx' s' where "bind_out (StartFasthttp ops fh (ctx, s)) (\<lambda>ref. session_call (set_loop ops order ref)) = (Ret (), ctx', s')"
    "body ctx' = body ctx" "fasthttp_rel gen s' (if ?c = [] then Suc n else n, A(plain_sid gen ?c n \<mapsto> raw_vals ?vals ++ map_of fasthttp_values))"
    using fasthttp_visit [where ctx = ctx and ops = ops, OF assms(1,2) session_op_set_loop [of ops order]] save by auto
  moreover have "setHandler ops fh io order (ctx, s) =
      bind_out (bind_out (StartFasthttp ops fh (ctx, s)) (\<lambda>ref. session_call (set_loop ops order ref)))
        (\<lambda>_. respond (fh_WriteString io ''Session saved, go to /get to view the results''))"
    by (simp only: setHandler_def pkg_StartFasthttp_def bind_out_assoc)
  ultimately show ?thesis
    using assms(2,4) v(6) by (auto simp: fasthttp_answers_def fasthttp_spec_def fasthttp_body_def Let_def)
qed

lemma clearHandler_answers:
  fixes s :: "'d Sessions"
  assumes "fasthttp_rel gen s (n, A)" "fasthttp_body fh io body" "body ctx = []"
  shows "fasthttp_answers gen fmt body (''/clear'', GetCookieFasthttp fh ctx ''gosessionid'') (n, A)
     (clearHandler ops fh (ctx, s))"
  using fasthttp_visit [where ctx = ctx and ops = ops, OF assms(1,2) session_op_Clear [of ops]] assms(3)
  by (auto simp: clearHandler_def pkg_StartFasthttp_def fasthttp_answers_def fasthttp_spec_def Let_def)

lemma getHandler_answers:
  fixes s :: "'d Sessions"
  assumes "fasthttp_rel gen s (n, A)" "fasthttp_body fh io body" "body ctx = []"
  shows "fasthttp_answers gen fmt body (''/get'', GetCookieFasthttp fh ctx ''gosessionid'') (n, A)
     (getHandler ops fh io fmt (ctx, s))"
proof -
  let ?c = "GetCookieFasthttp fh ctx ''gosessionid''"
  let ?sid = "plain_sid gen ?c n"
  let ?vals = "values_of ?sid (?c = []) (world_map (m_world s))"
  note v = fasthttp_visitor [where fh = fh and ctx = ctx, OF assms(1) refl]
  obtain ref ctx' s1 where st: "StartFasthttp ops fh (ctx, s) = (Ret ref, ctx', s1)" "started s ?sid (?c = []) ref s1"
    "cookie_effect (updateCookieFasthttp fh) s ?sid (?c = []) ctx ctx'"
    using fasthttp_frontend.start_returns [OF v(1) v(4), of ops] by blast
  then have s1: "live_world (m_world s1)" "map_of (p_sessions (w_provider (m_world s1))) ?sid = Some ref"
    "world_map (m_world s1) ?sid = Some ?vals" "visited s ?sid (?c = []) ?vals s1"
    by (simp_all add: started_def visited_def start_map_values)
  obtain items where "on_session ref Session_GetAll (m_world s1) = (Ret items, m_world s1)" "distinct (map fst items)"
    "map_of items = raw_vals ?vals"
    using Session_GetAll_live [OF s1(1-3) v(5)] by blast
  then show ?thesis
    using st(1) fasthttp_rel_visited [OF assms(1) s1(4) v(5)] cookie_effect_body [OF assms(2) st(3)] assms(2,3) v(6)
    by (auto simp: getHandler_def pkg_StartFasthttp_def fasthttp_answers_def fasthttp_spec_def fasthttp_body_def Let_def)
qed

lemma destroyHandler_answers:
  fixes s :: "'d Sessions"
  assumes "fasthttp_rel gen s (n, A)" "fasthttp_body fh io body" "body ctx = []"
  shows "fasthttp_answers gen fmt body (''/destroy'', GetCookieFasthttp fh ctx ''gosessionid'') (n, A)
     (destroyHandler ops fh (ctx, s))"
proof -
  let ?c = "GetCookieFasthttp fh ctx ''gosessionid''"
  note v = fasthttp_visitor [where fh = fh and ctx = ctx, OF assms(1) refl]
  note dec = decode_plain [OF v(2)]
  obtain w where w: "provider_Destroy ops ?c (m_world s) = (Ret (), w)" "live_world w" "world_map w = (world_map (m_world s))(?c := None)"
    using provider_Destroy_live [OF v(1)] by blast
  then have "fasthttp_rel gen (s\<lparr>m_world := w\<rparr>) (n, A(?c := None))"
    using assms(1) by (auto simp: fasthttp_rel_def fun_eq_iff)
  then have "\<exists>s'. destroy ops ?c s = (Ret (), s') \<and> m_config s' = m_config s \<and>
      fasthttp_rel gen s' (n, if ?c = [] then A else A(?c := None))"
    using dec w(1) assms(1) by (auto simp: destroy_def on_world_def)
  moreover have "body (RemoveCookieFasthttp fh now name ctx) = []" for now name
    using assms(2,3) by (simp add: RemoveCookieFasthttp_def AddCookieFasthttp_def fasthttp_body_def Let_def)
  ultimately show ?thesis
    using v(3) by (auto simp: destroyHandler_def pkg_DestroyFasthttp_def DestroyFasthttp_def fasthttp_answers_def
        fasthttp_spec_def Let_def)
qed

lemma fasthttp_step:
  fixes s :: "'d Sessions"
  assumes "fasthttp_rel gen s st" "fasthttp_body fh io body" "mset order = mset fasthttp_values" "body ctx = []"
  shows "fasthttp_answers gen fmt body (fh_Path io ctx, GetCookieFasthttp fh ctx ''gosessionid'') st
     (fasthttp_app ops fh io order fmt (ctx, s))"
proof -
  obtain n A where st: "st = (n, A)" by (cases st)
  note rel = assms(1) [unfolded st]
  let ?p = "fh_Path io ctx"
  note h = setHandler_answers [OF rel assms(2-4), of fmt ops] getHandler_answers [OF rel assms(2,4), of fmt ops]
    clearHandler_answers [OF rel assms(2,4), of fmt ops] destroyHandler_answers [OF rel assms(2,4), of fmt ops]
  consider "?p = ''/set''" | "?p = ''/get''" | "?p = ''/clear''" | "?p = ''/destroy''"
    | "?p \<notin> {''/set'', ''/get'', ''/clear'', ''/destroy''}" by blast
  then show ?thesis
  proof cases
    case 5
    then show ?thesis
      using assms(2,4) rel by (auto simp: st fasthttp_app_def fasthttp_answers_def fasthttp_spec_def fasthttp_body_def Let_def)
  qed (use h in \<open>simp_all add: st fasthttp_app_def\<close>)
qed

section \<open>Property\<close>

text \<open>
  C10. The example for fasthttp keeps a map of values per session. For every sequence of requests, with any
  paths and cookies and any order in which a map is visited, the answers are those of an abstract server:
  after \<open>/set\<close> the session has the three values of the handler, \<open>/get\<close> prints exactly the values of the
  visitor's session, \<open>/clear\<close> and \<open>/destroy\<close> remove them, other sessions are not affected, and every
  request is answered.
\<close>

theorem fasthttp_serves_spec:
  assumes "\<forall>n. default_generator rand n = Ret (gen n)" "fasthttp_body fh io body"
    and "\<forall>(order, ctx)\<in>set reqs. mset order = mset fasthttp_values \<and> body ctx = []"
  shows "list_all2 (\<lambda>(res, ctx) texts. res = Ret () \<and> body ctx \<in> texts)
     (fst (fasthttp_serve (\<lambda>order. fasthttp_app ops fh io order fmt) reqs (Default_New rand now gr unlimited)))
     (spec_run (fasthttp_spec gen fmt)
       (map (\<lambda>(_, ctx). (fh_Path io ctx, GetCookieFasthttp fh ctx ''gosessionid'')) reqs) (0, Map.empty))"
proof -
  have "list_all2 (\<lambda>(res, ctx) texts. res = Ret () \<and> body ctx \<in> texts)
     (fst (fasthttp_serve (\<lambda>order. fasthttp_app ops fh io order fmt) reqs s))
     (spec_run (fasthttp_spec gen fmt) (map (\<lambda>(_, ctx). (fh_Path io ctx, GetCookieFasthttp fh ctx ''gosessionid'')) reqs) st)"
    if "fasthttp_rel gen s st" for s st
    using that assms(3)
  proof (induction reqs arbitrary: s st)
    case (Cons req reqs)
    obtain order ctx where req: "req = (order, ctx)" by (cases req)
    obtain r ctx1 s1 where app: "fasthttp_app ops fh io order fmt (ctx, s) = (r, ctx1, s1)" by (metis prod_cases3)
    have "fasthttp_answers gen fmt body (fh_Path io ctx, GetCookieFasthttp fh ctx ''gosessionid'') st (r, ctx1, s1)"
      using fasthttp_step [OF Cons.prems(1) assms(2), of order ctx fmt ops] Cons.prems(2) app by (simp add: req)
    then show ?case
      using Cons.IH [of s1 "snd (fasthttp_spec gen fmt (fh_Path io ctx, GetCookieFasthttp fh ctx ''gosessionid'') st)"]
        Cons.prems(2) app by (auto simp: req fasthttp_answers_def split: prod.split)
  qed simp
  moreover have "fasthttp_rel gen (Default_New rand now gr unlimited) (0, Map.empty)"
    using assms(1) by (simp add: fasthttp_rel_def Default_New_def live_New comp_def)
      (simp add: plain_manager_def New_def zero_config_def DefaultCookieName_def)
  ultimately show ?thesis by blast
qed

text \<open>A request context for the example: path, cookie and body.\<close>

definition small_fasthttp :: "(string \<times> string \<times> string, unit) fasthttp" where
  "small_fasthttp = \<lparr>
     fh_Request_Cookie = (\<lambda>(p, c, b) name. if c = [] then None else Some c),
     fh_Request_DelCookie = (\<lambda>name (p, c, b). (p, [], b)),
     fh_Response_SetCookie = (\<lambda>k ctx. ctx), fh_Response_DelCookie = (\<lambda>name ctx. ctx),
     fh_Host = (\<lambda>ctx. ''localhost''), fh_IsTLS = (\<lambda>ctx. False), fh_AcquireCookie = (),
     fh_SetKey = (\<lambda>v k. k), fh_SetValue = (\<lambda>v k. k), fh_Value = (\<lambda>k. []), fh_SetPath = (\<lambda>v k. k),
     fh_SetDomain = (\<lambda>v k. k), fh_SetHTTPOnly = (\<lambda>v k. k), fh_SetSecure = (\<lambda>v k. k), fh_SetExpire = (\<lambda>v k. k)\<rparr>"

definition small_io :: "(string \<times> string \<times> string) fasthttp_io" where
  "small_io = \<lparr>fh_Path = fst, fh_WriteString = (\<lambda>text (p, c, b). (p, c, b @ text))\<rparr>"

definition print_days :: "(string \<times> val) list \<Rightarrow> string" where
  "print_days items = (case map_of items ''Days'' of Some (VString x) \<Rightarrow> x | _ \<Rightarrow> ''none'')"

theorem fasthttp_serves_spec_witness:
  "map (\<lambda>(r, p, c, b). b) (fst (fasthttp_serve (\<lambda>order. fasthttp_app rec_ops small_fasthttp small_io order print_days)
      [(rev fasthttp_values, (''/set'', ''x'', [])), (fasthttp_values, (''/get'', ''x'', [])),
       (fasthttp_values, (''/get'', ''y'', [])), (fasthttp_values, (''/clear'', ''x'', [])),
       (fasthttp_values, (''/get'', ''x'', []))]
      (Default_New (\<lambda>_. Some (replicate 16 7)) 100 (\<lambda>_. 0) 500))) =
   [''Session saved, go to /get to view the results'', ''1'', ''none'', [], ''none'']"
proof -
  have body: "fasthttp_body small_fasthttp small_io (\<lambda>(p, c, b). b)"
    by (auto simp: fasthttp_body_def small_fasthttp_def small_io_def)
  show ?thesis
    using fasthttp_serves_spec [OF constant_rand body, where fmt = print_days and ops = rec_ops and now = 100
        and gr = "\<lambda>_. 0" and unlimited = 500 and
        reqs = "[(rev fasthttp_values, (''/set'', ''x'', [])), (fasthttp_values, (''/get'', ''x'', [])),
          (fasthttp_values, (''/get'', ''y'', [])), (fasthttp_values, (''/clear'', ''x'', [])),
          (fasthttp_values, (''/get'', ''x'', []))]"]
    by (auto simp: list_all2_Cons2 fasthttp_spec_def plain_sid_def GetCookieFasthttp_def small_fasthttp_def small_io_def
        print_days_def fasthttp_values_def Let_def)
qed

end
