(* ===== verification/RestartApp.thy ===== *)
theory RestartApp
  imports Restart FasthttpApp
begin

text \<open>
  The applications with a database across a restart: a client calls \<open>/set\<close> in one process and \<open>/get\<close> in
  the next. What the two requests do is proved for every back-end that satisfies \<open>session_database\<close>,
  and applied to the application of \<^verbatim>\<open>_examples/database/boltdb\<close>.
\<close>

text \<open>A manager as an application has set it up, before the first request.\<close>

definition booted :: "string \<Rightarrow> duration \<Rightarrow> 'd \<Rightarrow> time \<Rightarrow> 'd Sessions \<Rightarrow> bool" where
  "booted name expires db now s =
     (Cookie (m_config s) = name \<and> Encode (m_config s) = None \<and> Decode (m_config s) = None \<and>
      Expires (m_config s) = expires \<and> w_now (m_world s) = now \<and>
      w_provider (m_world s) = \<lparr>p_mu = Unlocked, p_sessions = [], p_databases = [db]\<rparr>)"

lemma Start_unknown:
  assumes "booted name expires db now s" "GetCookie r name = sid" "sid \<noteq> []"
  shows "with_cookies (Start ops r) (rw, s) =
     (let (ref, w) = provider_Init ops sid expires (m_world s) in (ref, rw, s\<lparr>m_world := w\<rparr>))"
proof -
  have s: "Cookie (m_config s) = name" "Decode (m_config s) = None" "Expires (m_config s) = expires"
    "provider_Read ops sid expires (m_world s) = provider_Init ops sid expires (m_world s)"
    using assms(1) provider_Read_unknown [of "m_world s" sid ops expires] by (simp_all add: booted_def)
  then show ?thesis
    using assms(2,3) by (simp add: Start_def start_with_def decodeCookieValue_def on_world_def split: prod.split)
qed

text \<open>The stored form of the value that the applications set.\<close>

definition name_blob :: "time \<Rightarrow> blob" where
  "name_blob t = GobBytes [(''name'', GString ''iris'')] t"

context session_database
begin

lemma set_request:
  fixes s :: "'d Sessions"
  assumes "booted name expires db now s" "0 < expires" "ready db" "safe sid" "stored db sid = None"
    and "GetCookie r name = sid" "sid \<noteq> []"
  shows "\<exists>s' d db' m p. name_set ops r (new_writer, s) = (Ret (), Write ''All ok session setted to: iris'' new_writer, s') \<and>
     db_Load ops now sid m db = (zero_remote, m, d) \<and> db' = db_Sync ops now m p d \<and>
     p_databases (w_provider (m_world s')) = [db'] \<and> ready db' \<and> stored db' sid = Some (name_blob (now + expires))"
proof -
  let ?w = "m_world s"
  have w: "p_databases (w_provider ?w) = [db]" "p_mu (w_provider ?w) = Unlocked" "w_now ?w = now"
    using assms(1) by (simp_all add: booted_def)
  obtain r1 m1 d where l: "db_Load ops now sid (w_mem ?w) db = (r1, m1, d)"
    by (cases "db_Load ops now sid (w_mem ?w) db") auto
  have d: "r1 = zero_remote" "m1 = w_mem ?w" "ready d"
    using load [OF assms(3,4) l] assms(5) by (simp_all add: loads_blob_def)
  let ?ref = "length (w_heap ?w)"
  obtain w1 where init: "provider_Init ops sid expires ?w = (Ret ?ref, w1)" "p_databases (w_provider w1) = [d]"
    "w_heap w1 ! ?ref = \<lparr>s_sid = sid, s_isNew = False, s_values = nil_store, s_flashes = [], s_mu = Unlocked,
       s_lifetime = \<lparr>lt_Time = now + expires, lt_timer = Some (length (w_timers ?w))\<rparr>\<rparr>"
    "w_mem w1 = w_mem ?w" "w_now w1 = now" "?ref < length (w_heap w1)"
    using loadSessionFromDB_one [OF w(1), of ops sid zero_remote "w_mem ?w" d] l d(1,2) w(2,3) assms(2)
    by (simp add: provider_Init_def newSession_def zero_remote_def zero_lifetime_def LifeTime_HasExpired_iff Time_IsZero_def
        LifeTime_Begin_def AfterFunc_def Time_Add_def provider_Lock_def Let_def)
  let ?st = "fst (Store_Save (w_grow w1) ''name'' (VString ''iris'') False nil_store)"
  have st: "store_elems ?st = [\<lparr>Key = ''name'', ValueRaw = VString ''iris'', immutable = False\<rparr>]" "slice_ok ?st"
    by (simp_all add: Store_Save_def Let_def store_elems_def nil_store_def slice_ok_def)
  have "RemoteStore_Serialize reg (w_mem w1) \<lparr>Values = ?st, Lifetime = s_lifetime (w_heap w1 ! ?ref)\<rparr> =
      (name_blob (now + expires), False)"
    using st(1) init(3) by (simp add: RemoteStore_Serialize_def gob_entries_def gob_depth_def name_blob_def)
  then obtain w2 db' where set: "Session_set ops ?ref ''name'' (VString ''iris'') False w1 = (Ret (), w2)"
    "p_databases (w_provider w2) = [db']" "ready db'" "stored db' sid = Some (name_blob (now + expires))"
    "\<exists>p. db' = db_Sync ops (w_now w1) (w_mem w1) p d"
    "w_heap w2 = (w_heap w1)[?ref := after_set (w_grow w1) ''name'' (VString ''iris'') False (w_heap w1 ! ?ref)]"
    "w_mem w2 = w_mem w1"
    using set_stored [of w1 d ?ref sid ?st "''name''" "VString ''iris''" False] init d(3) assms(4)
    by (auto simp: nil_store_def slice_ok_def)
  have "Store_Get ''name'' ?st m = (Ret (VString ''iris''), m)" for m
    using st by (simp add: Store_Get_lookup store_lookup_def Entry_Value_def)
  then have get: "on_session ?ref (Session_GetString ''name'') w2 = (Ret ''iris'', w2)"
    using set(6) init(3,6) by (intro on_session_pure) (simp add: Session_GetString_def Session_Get_def after_set_def)
  have "name_set ops r (new_writer, s) = (Ret (), Write ''All ok session setted to: iris'' new_writer, s\<lparr>m_world := w2\<rparr>)"
    using Start_unknown [OF assms(1,6,7), of ops new_writer] init(1) set(1) get
    by (simp add: name_set_def Session_Set_def del: with_cookies_simp)
  then show ?thesis using set l d(1,2) init(4,5) by auto
qed

lemma get_request:
  fixes s :: "'d Sessions"
  assumes "booted name expires db now s" "ready db" "safe sid" "stored db sid = Some (name_blob t)" "t = 0 \<or> now \<le> t"
    and "GetCookie r name = sid" "sid \<noteq> []"
  shows "\<exists>s'. name_get ops r (new_writer, s) = (Ret (), Write ''The name on the /set was: iris'' new_writer, s')"
proof -
  let ?w = "m_world s"
  have w: "p_databases (w_provider ?w) = [db]" "p_mu (w_provider ?w) = Unlocked" "w_now ?w = now"
    using assms(1) by (simp_all add: booted_def)
  obtain r1 m1 d where l: "db_Load ops now sid (w_mem ?w) db = (r1, m1, d)"
    by (cases "db_Load ops now sid (w_mem ?w) db") auto
  let ?st = "\<lparr>arr = [\<lparr>Key = ''name'', ValueRaw = VString ''iris'', immutable = False\<rparr>], slen = 1\<rparr>"
  have d: "r1 = \<lparr>Values = ?st, Lifetime = \<lparr>lt_Time = t, lt_timer = None\<rparr>\<rparr>"
    using load [OF assms(2,3) l] assms(4) by (simp add: loads_blob_def name_blob_def DecodeRemoteStore_def)
  let ?ref = "length (w_heap ?w)"
  obtain w1 where init: "provider_Init ops sid expires ?w = (Ret ?ref, w1)"
    "s_values (w_heap w1 ! ?ref) = ?st" "s_mu (w_heap w1 ! ?ref) = Unlocked"
    using loadSessionFromDB_one [OF w(1), of ops sid r1 m1 d] l w(2,3) assms(5)
    by (auto simp: d provider_Init_def newSession_def LifeTime_HasExpired_iff provider_Lock_def case_prod_beta Let_def)
  have "Store_Get ''name'' ?st m = (Ret (VString ''iris''), m)" for m
    by (simp add: Store_Get_lookup store_lookup_def store_elems_def slice_ok_def Entry_Value_def)
  then have "on_session ?ref (Session_GetString ''name'') w1 = (Ret ''iris'', w1)"
    using init(2,3) by (intro on_session_pure) (cases "w_heap w1 ! ?ref", simp add: Session_GetString_def Session_Get_def)
  then show ?thesis
    using Start_unknown [OF assms(1,6,7), of ops new_writer] init(1)
    by (simp add: name_get_def del: with_cookies_simp)
qed

end

section \<open>The example with a BoltDB database\<close>

lemma boltdb_example_booted:
  assumes "bolt_New openf ''./sessions/sessions.db'' ''users'' now [] f = (Some db, ok, m, f')"
  shows "\<exists>s. boltdb_example_New openf rand now gr unlimited f = Some s \<and>
     booted ''sessionscookieid'' (60 * Second) db now s"
  using assms
  by (simp add: boltdb_example_New_def booted_def UseDatabase_def on_world_def RegisterDatabase_def provider_Lock_def
      New_def newProvider_def zero_config_def Let_def)

text \<open>
  C4. The example with a BoltDB database keeps its sessions across a restart. The first process opens the
  file, in which the client's session is not stored, and answers \<open>/set\<close>. A second process opens the
  file that the first one left, within the minute that the example gives a session, and answers \<open>/get\<close>
  of the same client with the name.
\<close>

theorem boltdb_example_survives_restart:
  assumes "fst (os_MkdirAll (filepath_Dir ''./sessions/sessions.db'') f\<^sub>1)"
    and "fst (os_MkdirAll (filepath_Dir ''./sessions/sessions.db'') f\<^sub>2)"
    and "openf\<^sub>1 ''./sessions/sessions.db'' = Some bs" "kv_sorted (bucket_of bs ''users'')" "map_of (bucket_of bs ''users'') sid = None"
    and "GetCookie r\<^sub>1 ''sessionscookieid'' = sid" "GetCookie r\<^sub>2 ''sessionscookieid'' = sid" "bolt_safe sid"
    and "now\<^sub>2 \<le> now\<^sub>1 + 60 * Second"
  shows "\<exists>s a s' db. boltdb_example_New openf\<^sub>1 rand\<^sub>1 now\<^sub>1 gr\<^sub>1 unlimited\<^sub>1 f\<^sub>1 = Some s \<and>
     answer (boltdb_example_routes reg) (''/set'', r\<^sub>1) s = (a, s') \<and>
     seen a = answered (200, ''All ok session setted to: iris'') \<and> p_databases (w_provider (m_world s')) = [db] \<and>
     (openf\<^sub>2 ''./sessions/sessions.db'' = Some (bo_buckets db) \<longrightarrow>
        (\<exists>s2. boltdb_example_New openf\<^sub>2 rand\<^sub>2 now\<^sub>2 gr\<^sub>2 unlimited\<^sub>2 f\<^sub>2 = Some s2 \<and>
           seen (fst (answer (boltdb_example_routes reg) (''/get'', r\<^sub>2) s2)) =
             answered (200, ''The name on the /set was: iris'')))"
proof -
  let ?path = "''./sessions/sessions.db''"
  have sid: "sid \<noteq> []" using assms(8) by (simp add: bolt_safe_def)
  obtain db1 m1 f1 where db1: "bolt_New openf\<^sub>1 ?path ''users'' now\<^sub>1 [] f\<^sub>1 = (Some db1, True, m1, f1)" "bolt_ready db1"
    "bo_table db1 = ''users''" "bolt_stored db1 sid = None"
    using bolt_New_stored [where openf = openf\<^sub>1 and path = ?path and m = "[]", OF _ _ assms(3,1,4), of now\<^sub>1] assms(5,8) by auto
  obtain s where s: "boltdb_example_New openf\<^sub>1 rand\<^sub>1 now\<^sub>1 gr\<^sub>1 unlimited\<^sub>1 f\<^sub>1 = Some s"
    "booted ''sessionscookieid'' (60 * Second) db1 now\<^sub>1 s"
    using boltdb_example_booted [OF db1(1)] by blast
  obtain s' d db m p where set: "name_set (bolt_ops reg) r\<^sub>1 (new_writer, s) =
      (Ret (), Write ''All ok session setted to: iris'' new_writer, s')"
    "db_Load (bolt_ops reg) now\<^sub>1 sid m db1 = (zero_remote, m, d)" "db = db_Sync (bolt_ops reg) now\<^sub>1 m p d"
    "p_databases (w_provider (m_world s')) = [db]" "bolt_ready db" "bolt_stored db sid = Some (name_blob (now\<^sub>1 + 60 * Second))"
    using bolt_map.set_request [OF s(2) _ db1(2) assms(8) db1(4) assms(6) sid, of reg] by (auto simp: Second_def)
  have table: "bo_table db = ''users''"
    using set(2,3) db1(2,3) bolt_Load_stored [OF _ assms(8), of db1 now\<^sub>1 m] by (simp add: bolt_ops_def bolt_ready_def)
  have second: "\<exists>s2. boltdb_example_New openf\<^sub>2 rand\<^sub>2 now\<^sub>2 gr\<^sub>2 unlimited\<^sub>2 f\<^sub>2 = Some s2 \<and>
      seen (fst (answer (boltdb_example_routes reg) (''/get'', r\<^sub>2) s2)) = answered (200, ''The name on the /set was: iris'')"
    if left: "openf\<^sub>2 ?path = Some (bo_buckets db)"
  proof -
    obtain db2 m2 f2 where db2: "bolt_New openf\<^sub>2 ?path ''users'' now\<^sub>2 [] f\<^sub>2 = (Some db2, True, m2, f2)" "bolt_ready db2"
      "bolt_stored db2 sid = Some (name_blob (now\<^sub>1 + 60 * Second))"
      using bolt_New_stored [where openf = openf\<^sub>2 and path = ?path and m = "[]", OF _ _ left assms(2), of "''users''" now\<^sub>2] bolt_live_bucket [of db] set(5,6) table assms(8,9)
      by (auto simp: bolt_ready_def name_blob_def blob_expired_def)
    obtain s2 where s2: "boltdb_example_New openf\<^sub>2 rand\<^sub>2 now\<^sub>2 gr\<^sub>2 unlimited\<^sub>2 f\<^sub>2 = Some s2"
      "booted ''sessionscookieid'' (60 * Second) db2 now\<^sub>2 s2"
      using boltdb_example_booted [OF db2(1)] by blast
    obtain s3 where "name_get (bolt_ops reg) r\<^sub>2 (new_writer, s2) =
        (Ret (), Write ''The name on the /set was: iris'' new_writer, s3)"
      using bolt_map.get_request [OF s2(2) db2(2) assms(8) db2(3) _ assms(7) sid, of reg] assms(9) by auto
    then have "answer (boltdb_example_routes reg) (''/get'', r\<^sub>2) s2 =
        ((Ret (), WriteHeader 200 (Write ''The name on the /set was: iris'' new_writer)), s3)"
      by (intro answer_Ret) (simp add: ServeMux_def boltdb_example_routes_def name_routes_def)
    then show ?thesis using s2(1) seen_simps(2) [of new_writer] by simp
  qed
  have "answer (boltdb_example_routes reg) (''/set'', r\<^sub>1) s =
      ((Ret (), WriteHeader 200 (Write ''All ok session setted to: iris'' new_writer)), s')"
    using set(1) by (intro answer_Ret) (simp add: ServeMux_def boltdb_example_routes_def name_routes_def)
  then show ?thesis using s(1) set(4) second seen_simps(2) [of new_writer] by auto
qed

theorem boltdb_example_survives_restart_witness:
  "let f = \<lparr>fs_nodes = [], fs_denied = (\<lambda>_. False)\<rparr>; rand = (\<lambda>_. Some (replicate 16 7)); reg = (\<lambda>_. False);
       s = the (boltdb_example_New (\<lambda>_. Some []) rand 100 (\<lambda>_. 0) 500 f);
       s' = snd (answer (boltdb_example_routes reg) (''/set'', visit ''sessionscookieid'' ''x'') s);
       db = hd (p_databases (w_provider (m_world s')))
   in \<exists>s2. boltdb_example_New (\<lambda>_. Some (bo_buckets db)) rand 130 (\<lambda>_. 0) 500 f = Some s2 \<and>
        seen (fst (answer (boltdb_example_routes reg) (''/get'', visit ''sessionscookieid'' ''x'') s2)) =
          (Ret (), Some 200, ''The name on the /set was: iris'')"
proof -
  let ?f = "\<lparr>fs_nodes = [], fs_denied = (\<lambda>_. False)\<rparr>" and ?rand = "\<lambda>_. Some (replicate 16 7)" and ?reg = "\<lambda>_ :: gtype. False"
  let ?s = "the (boltdb_example_New (\<lambda>_. Some []) ?rand 100 (\<lambda>_. 0) 500 ?f)"
  let ?s' = "snd (answer (boltdb_example_routes ?reg) (''/set'', visit ''sessionscookieid'' ''x'') ?s)"
  let ?db = "hd (p_databases (w_provider (m_world ?s')))"
  have mk: "fst (os_MkdirAll (filepath_Dir ''./sessions/sessions.db'') ?f)" by (simp add: os_MkdirAll_def list_ex_iff)
  have "isCookieNameValid ''sessionscookieid''" "plain_value ''x''"
    by (simp_all add: isCookieNameValid_def isToken_def Let_def plain_value_def plain_byte_def)
  then have c: "GetCookie (visit ''sessionscookieid'' ''x'') ''sessionscookieid'' = ''x''" by (rule GetCookie_visit)
  show ?thesis
    using boltdb_example_survives_restart [where openf\<^sub>1 = "\<lambda>_. Some []" and openf\<^sub>2 = "\<lambda>_. Some (bo_buckets ?db)" and
        rand\<^sub>1 = ?rand and rand\<^sub>2 = ?rand and gr\<^sub>1 = "\<lambda>_. 0" and gr\<^sub>2 = "\<lambda>_. 0" and unlimited\<^sub>1 = 500 and unlimited\<^sub>2 = 500 and
        reg = ?reg and now\<^sub>1 = 100 and now\<^sub>2 = 130, OF mk mk refl _ _ c c]
    by (auto simp: bucket_of_def bolt_safe_def Second_def answered_def Let_def)
qed

end
