(* ===== verification/Spec2Isabelle.thy ===== *)
theory Spec2Isabelle
  imports RestartApp
begin

text \<open>
  A verification of the session manager \<^verbatim>\<open>go-sessions\<close>, version 2.1.0.

  \<^bold>\<open>The program.\<close> A server calls \<open>Start\<close> on each request (\<^verbatim>\<open>sessions.go\<close>). The manager reads the session
  id from the request's cookie (\<^verbatim>\<open>cookie.go\<close>), optionally through the \<open>Decode\<close> function of the
  configuration (\<^verbatim>\<open>config.go\<close>), and asks the provider (\<^verbatim>\<open>provider.go\<close>) for the session; without a cookie it
  generates an id and sets one. The provider keeps the sessions in a map under a lock, loads new
  ones from the registered databases and destroys them when their timer (\<^verbatim>\<open>lifetime.go\<close>) fires. A
  session (\<^verbatim>\<open>session.go\<close>) holds its values in a slice of entries (\<^verbatim>\<open>memstore.go\<close>) and its flash messages in a
  map, and sends every change to the databases as a payload (\<^verbatim>\<open>database.go\<close>). The databases
  (\<^verbatim>\<open>sessiondb/\<close>) store the serialised values of a session under its id.

  \<^bold>\<open>The theories\<close>, in the order of the imports:
  \<^item> \<open>Prelude\<close>: outcomes of calls (return, block, panic), locks, package \<open>strings\<close>, maps.
    \<open>GoStrconv\<close>, \<open>GoTime\<close>, \<open>GoFloat\<close>, \<open>GoValues\<close>, \<open>GoHttp\<close>: what the sources use of the Go library: integer
    parsing on 64-bit words; floating-point bit patterns with correct rounding and \<open>ParseFloat\<close>; instants, saturating differences and \<open>Seconds()\<close> with its float rounding;
    \<open>interface{}\<close> values with the memory behind slices, maps and pointers; the \<open>Cookie\<close> header.
  \<^item> \<open>MemStore\<close> (\<^verbatim>\<open>memstore.go\<close>): \<open>Entry\<close>, \<open>Store\<close> as backing array and length, all operations. The locale
    \<open>keyed_store\<close> is the map interface the sessions rely on; its interpretation shows that the slice
    with its reused slots is a map and that immutable entries are protected.
  \<^item> \<open>LifeTime\<close> (\<^verbatim>\<open>lifetime.go\<close>): expiration instants and timers. \<open>Database\<close> (\<^verbatim>\<open>database.go\<close>): payloads, pool,
    and the interface \<open>Database\<close> as a record \<open>'d dbops\<close> of operations over the database's state \<open>'d\<close>.
  \<^item> \<open>Session\<close> (\<^verbatim>\<open>session.go\<close>): the state of the program \<open>world\<close> and every method with its locking.
    \<open>FloatGetters\<close>: the float getters of both files.
    \<open>Provider\<close> (\<^verbatim>\<open>provider.go\<close>). \<open>WorldInv\<close>: the invariant \<open>wf_world\<close> and its preservation by every session
    and provider operation, in the locale \<open>wf_database\<close> of what they need of a database.
    \<open>ProviderProps\<close>: merging, destroying, leaked locks, timers.
  \<^item> \<open>Uuid\<close> (the vendored \<open>NewV4\<close> and \<open>String\<close>), \<open>Config\<close> (\<^verbatim>\<open>config.go\<close>), \<open>Cookie\<close> (\<^verbatim>\<open>cookie.go\<close>), \<open>Manager\<close>
    (\<^verbatim>\<open>sessions.go\<close>), \<open>CookieProps\<close> and \<open>ManagerProps\<close> with their properties.
  \<^item> \<open>Machine\<close>: the program as a state machine, requests, session methods, clock and timers in any
    order, and the invariant in every reachable state.
  \<^item> \<open>Gob\<close>: serialisation. \<open>DatabaseSpec\<close>: a database as a map from ids to stores, the locale
    \<open>session_database\<close>, and asynchronous mode as a set of goroutines that may run in any order, the
    locale \<open>async_database\<close>. \<open>FileDB\<close> (\<^verbatim>\<open>sessiondb/file\<close>): the file database, interpreted as \<open>wf_database\<close>,
    \<open>session_database\<close> and \<open>async_database\<close>.
  \<^item> \<open>KV\<close>: ordered key-value pairs, the loops over them, and the locale \<open>overwriting_database\<close>, which extends
    \<open>session_database\<close> for the back-ends that store whatever \<open>Serialize\<close> returned. \<open>BoltDB\<close>, \<open>LevelDB\<close>, \<open>BadgerDB\<close>
    (\<^verbatim>\<open>sessiondb/boltdb\<close>, \<^verbatim>\<open>leveldb\<close>, \<^verbatim>\<open>badger\<close>): the databases over these engines and their interpretations.
    \<open>BadgerCleanup\<close>: the iterator with its recycled buffers, and what \<open>Cleanup\<close> really deletes.
  \<^item> \<open>RedisService\<close>, \<open>RedisDB\<close> (\<^verbatim>\<open>sessiondb/redis\<close>): the service with the client's connection pool, and the database.
    The server is a parameter; \<open>redis_server_ok\<close> states what is documented of a working one with a given
    address, password and set of databases (nothing of the commands that Redis answers with an error), \<open>serves\<close>
    that a configuration is for that server, and \<open>mem_server\<close> is one that satisfies it and refuses the rest.
  \<^item> \<open>Backends\<close>: comparisons of the back-ends. \<open>Restart\<close>: what one process stores through any back-end that
    satisfies \<open>session_database\<close> is what the next one reads.
  \<^item> \<open>SessionsSpec\<close>: the manager without a database as a map from session ids to maps of entries; every
    operation returns on a live state and acts on that map (\<open>session_op\<close>, the collection \<open>session_ops\<close>). The
    locale \<open>session_frontend\<close> is the contract of \<open>Start\<close>, interpreted on \<open>Start\<close> and \<open>StartFasthttp\<close>.
    \<open>HttpApp\<close>: the response writer, the multiplexer, and a server that answers request after request.
  \<^item> \<open>Examples\<close> (\<^verbatim>\<open>_examples/\<close>): the eight applications. \<open>OverviewApp\<close>, \<open>StandaloneApp\<close>, \<open>FasthttpApp\<close>: three of them
    refine abstract servers, by a simulation that every request keeps. \<open>FlashApp\<close>: one deadlocks. \<open>SecureApp\<close>:
    encoded cookies keep other visitors out. \<open>RestartApp\<close>: the requests of a client before and after a restart.
  \<^item> This theory: properties that span the components.

  \<^bold>\<open>Conventions.\<close> A stateful operation returns an \<open>outcome\<close> and the state it left, also when it blocks or
  panics, because a lock it took stays taken. Operations run one at a time: a lock found taken is
  one that an earlier call never released. The applications are served at one instant: between the requests of
  a sequence no timer fires. Code outside the sources is a parameter: the user's
  \<open>Encode\<close>, \<open>Decode\<close> and id generator, package \<open>fasthttp\<close> (a record of the functions the program calls),
  the capacities that \<open>append\<close> picks (\<open>w_grow\<close>), the random source, the types registered with gob.
  Every loop of the sources terminates by a structural argument or by a measure (the items left to
  the Badger iterator), so no fuel is needed except in \<open>Gob.freeze\<close>, which follows nested values to a depth of one more than the number of memory cells; every
  acyclic value is within it.

  \<^bold>\<open>What is shown.\<close> A client that returns its cookie gets its session back; a session stored through the
  file database survives a restart; the store is a map and \<open>Set\<close> reaches every database; the
  invariant holds in all reachable states; serialisation round-trips; each of the five back-ends is a
  map from ids to stores; the cleanup of three of them removes exactly the expired sessions (of
  Badger's, up to 100 sessions). The overview, standalone and fasthttp applications answer every sequence of requests
  as their abstract servers do; with encoded cookies a visitor whose cookie is rejected never reaches
  another one's session; the boltdb application answers a client after a restart. Some theorems state where
  the code does less than it promises: \<open>GetFlash\<close> leaks the session lock and with it the provider
  blocks, so that the application for flash messages deadlocks; a destroyed session's timer destroys its successor; \<open>UpdateExpiration\<close> does not reach the
  stored expiration; an unknown cookie value is adopted as a session id; with the file database
  such an id can name a file outside the directory; Badger's cleanup deletes the wrong sessions when
  there are more than 100; a payload that cannot be serialised wipes the stored session; Redis keeps
  sessions that are about to expire for ever and panics on a \<open>Sync\<close> before the first \<open>Load\<close>; reordered
  goroutines bring a destroyed session back; the caller of \<open>SetImmutable\<close> can still change the value.

  \<^bold>\<open>Not modelled\<close>: the text of the \<open>Set-Cookie\<close> header beyond the
  cookie's fields; data races inside one method, and with them the backing array that the
  store of a payload shares with the session: in asynchronous mode a goroutine writes the entries of the
  \<open>Sync\<close> call, while the program's may see a later change of the session in their place (the values
  behind the entries are read from the memory of the moment it runs); connections that the Redis pool
  closes are not reported to the server; log output; the error of a failed Badger commit, which
  \<open>Cleanup\<close> ignores; the inside of the storage engines (files,
  versions, compaction, disk errors), except Badger's iterator and transaction; file permissions beyond
  a set of refused paths; calls on a closed Badger database; in the applications, what \<open>main\<close> prints,
  the socket, the deferred \<open>Close\<close>, redirects of the multiplexer for paths that are not clean, and
  requests to an application whose database could not be opened; the tests. What is left of the
  sources besides is imports, comments, the version string and the registration of types with gob.
\<close>

section \<open>A world with a file database\<close>

text \<open>A process with one session \<open>x\<close> and a file database, for the instances of the theorems.\<close>

definition file_world :: "file_db world" where
  "file_world =
     \<lparr>w_now = 1000, w_grow = (\<lambda>_. 0), w_timers = [], w_mem = [], w_pool = [],
      w_heap = [\<lparr>s_sid = ''x'', s_isNew = True, s_values = nil_store, s_flashes = [], s_mu = Unlocked,
                 s_lifetime = zero_lifetime\<rparr>],
      w_provider = \<lparr>p_mu = Unlocked, p_sessions = [(''x'', 0)], p_databases = [file_sample_db]\<rparr>\<rparr>"

lemma file_world_db: "p_databases (w_provider file_world) = [file_sample_db]"
  by (simp add: file_world_def)

lemma file_world_wf: "wf_world file_inv file_world"
  by (simp add: wf_world_def file_world_def wf_session_def wf_timer_def zero_lifetime_def wf_map_def wf_sessions_def
      file_inv_def file_sample_db_def node_ok_def nil_store_def wf_store_def slice_ok_def store_elems_def)

section \<open>Properties that span the components\<close>

text \<open>
  C9. In every state that the program can reach, with any interleaving of requests, session
  methods, clock ticks and timer callbacks and with any number of file databases: the program
  invariant holds; every registered id refers to an existing session object with exactly that id,
  so two clients never share a session; and as long as every operation so far has returned, the
  provider's lock is free.
\<close>

theorem reachable_sessions_separate:
  assumes "reachable (file_ops reg) file_inv ok s"
  shows "wf_world file_inv (m_world s) \<and>
     (\<forall>a i. map_of (p_sessions (w_provider (m_world s))) a = Some i \<longrightarrow>
        i < length (w_heap (m_world s)) \<and> s_sid (w_heap (m_world s) ! i) = a \<and>
        (\<forall>b. map_of (p_sessions (w_provider (m_world s))) b = Some i \<longrightarrow> a = b)) \<and>
     (ok \<longrightarrow> p_mu (w_provider (m_world s)) = Unlocked)"
proof -
  have inv: "wf_world file_inv (m_world s)" "ok \<longrightarrow> provider_unlocked (m_world s)"
    using file_wf.reachable_invariant [OF assms] by auto
  then have "wf_sessions (p_sessions (w_provider (m_world s))) (w_heap (m_world s))" by (simp add: wf_world_def)
  with inv show ?thesis by (auto simp: provider_unlocked_def dest: wf_sessions_lookup)
qed

theorem reachable_sessions_separate_witness:
  "\<exists>s. reachable (file_ops (\<lambda>_. False)) file_inv True s \<and> p_databases (w_provider (m_world s)) = [file_sample_db] \<and>
     wf_world file_inv (m_world s) \<and> p_mu (w_provider (m_world s)) = Unlocked"
proof -
  let ?s0 = "New (\<lambda>_. None) 100 (\<lambda>_. 0) 500 zero_config :: file_db Sessions"
  define s where "s = snd (exec (file_ops (\<lambda>_. False)) (OpUseDatabase file_sample_db) ?s0)"
  have run: "exec (file_ops (\<lambda>_. False)) (OpUseDatabase file_sample_db) ?s0 = (Ret (), s)"
    by (simp add: s_def prod_eq_iff UseDatabase_def RegisterDatabase_def New_def newProvider_def provider_Lock_def)
  have "enabled file_inv (OpUseDatabase file_sample_db) ?s0" by (simp add: file_inv_def node_ok_def file_sample_db_def)
  then have reach: "reachable (file_ops (\<lambda>_. False)) file_inv True s"
    using reachable.step [OF reachable.init step.exec [OF _ run]] by simp
  moreover have "p_databases (w_provider (m_world s)) = [file_sample_db]"
    using run by (auto simp: s_def UseDatabase_def RegisterDatabase_def New_def newProvider_def provider_Lock_def)
  ultimately show ?thesis
    using reachable_sessions_separate [OF reach] by blast
qed

text \<open>
  C6. A session survives a restart of the server. After \<open>Set\<close> on a session whose database is a
  working file database (values gob can send, an id that is a file name), take any later process
  that uses the files the call left and does not hold the session: when the client comes back
  before the stored expiration, \<open>Read\<close> returns a session under the same id with the same keys and
  values, the new one included, and the same expiration instant.
\<close>

theorem session_survives_restart:
  fixes w :: "file_db world"
  assumes "p_databases (w_provider w) = [db]" "file_ready db" "wf_world file_inv w" "i < length (w_heap w)"
    and "s_mu (w_heap w ! i) = Unlocked" "s_sid (w_heap w ! i) = sid" "safe_sid sid"
    and "st = fst (Store_Save (w_grow w) key v imm (s_values (w_heap w ! i)))"
    and "RemoteStore_Serialize reg (w_mem w) \<lparr>Values = st, Lifetime = s_lifetime (w_heap w ! i)\<rparr> = (b, False)"
    and "lt_Time (s_lifetime (w_heap w ! i)) = 0 \<or> w_now w2 \<le> lt_Time (s_lifetime (w_heap w ! i))"
    and "p_mu (w_provider w2) = Unlocked" "map_of (p_sessions (w_provider w2)) sid = None"
  shows "\<exists>w1. Session_set (file_ops reg) i key v imm w = (Ret (), w1) \<and>
     (p_databases (w_provider w2) = p_databases (w_provider w1) \<longrightarrow>
        (\<exists>ref w3. provider_Read (file_ops reg) sid expires w2 = (Ret ref, w3) \<and>
           s_sid (w_heap w3 ! ref) = sid \<and>
           map Key (store_elems (s_values (w_heap w3 ! ref))) = map Key (store_elems st) \<and>
           gob_entries reg (w_mem w3) (s_values (w_heap w3 ! ref)) = gob_entries reg (w_mem w) st \<and>
           (lt_Time (s_lifetime (w_heap w ! i)) \<noteq> 0 \<longrightarrow>
              lt_Time (s_lifetime (w_heap w3 ! ref)) = lt_Time (s_lifetime (w_heap w ! i)))))"
proof -
  have "slice_ok (s_values (w_heap w ! i))"
    using assms(3,4) by (auto simp: wf_world_def list_all_length wf_session_def wf_store_def)
  from file_map.set_stored [OF assms(1,2) this assms(5-9)]
  obtain w1 db1 where set: "Session_set (file_ops reg) i key v imm w = (Ret (), w1)"
    "p_databases (w_provider w1) = [db1]" "file_ready db1" "file_stored db1 sid = Some b" by blast
  have "\<exists>ref w3. provider_Read (file_ops reg) sid expires w2 = (Ret ref, w3) \<and>
      revived reg (w_mem w) st (s_lifetime (w_heap w ! i)) sid ref w3"
    if "p_databases (w_provider w2) = p_databases (w_provider w1)"
    using file_map.read_stored [OF assms(9) _ set(3) assms(7) set(4) assms(10-12)] that set(2) by simp
  then show ?thesis using set(1) by (auto simp: revived_def Let_def)
qed

theorem session_survives_restart_witness:
  "let w = file_world;
       w1 = snd (Session_set (file_ops (\<lambda>_. False)) 0 ''n'' (VInt 7) False w);
       w2 = w\<lparr>w_heap := [], w_provider := \<lparr>p_mu = Unlocked, p_sessions = [],
              p_databases = p_databases (w_provider w1)\<rparr>\<rparr>
   in \<exists>ref w3. provider_Read (file_ops (\<lambda>_. False)) ''x'' 0 w2 = (Ret ref, w3) \<and>
        gob_entries (\<lambda>_. False) (w_mem w3) (s_values (w_heap w3 ! ref)) = Some [(''n'', GInt 7)]"
proof -
  let ?w = file_world and ?reg = "\<lambda>_ :: gtype. False"
  let ?st = "fst (Store_Save (w_grow ?w) ''n'' (VInt 7) False (s_values (w_heap ?w ! 0)))"
  let ?w1 = "snd (Session_set (file_ops ?reg) 0 ''n'' (VInt 7) False ?w)"
  let ?w2 = "?w\<lparr>w_heap := [], w_provider := \<lparr>p_mu = Unlocked, p_sessions = [],
      p_databases = p_databases (w_provider ?w1)\<rparr>\<rparr>"
  have st: "store_elems ?st = [\<lparr>Key = ''n'', ValueRaw = VInt 7, immutable = False\<rparr>]"
    by (simp add: file_world_def Store_Save_def Let_def store_elems_def nil_store_def)
  have ser: "RemoteStore_Serialize ?reg (w_mem ?w) \<lparr>Values = ?st, Lifetime = s_lifetime (w_heap ?w ! 0)\<rparr> =
      (GobBytes [(''n'', GInt 7)] 0, False)"
    using st by (simp add: RemoteStore_Serialize_def gob_entries_def gob_depth_def file_world_def zero_lifetime_def)
  have "gob_entries ?reg (w_mem ?w) ?st = Some [(''n'', GInt 7)]"
    using st by (simp add: gob_entries_def gob_depth_def)
  then show ?thesis
    using session_survives_restart [OF file_world_db file_db_ready file_world_wf _ _ _ _ refl ser,
        where sid = "''x''" and ?w2.0 = ?w2 and expires = 0]
    unfolding Let_def by (auto simp: file_world_def zero_lifetime_def safe_sid_def)
qed

end
